(* ===== verification/Prelude.thy ===== *)
theory Prelude
  imports Main "HOL-Library.Word"
begin

text \<open>
  The C layer shared by every component of the model.

  A C string is a HOL \<^typ>\<open>string\<close> without its terminating NUL: a \<^typ>\<open>char\<close> is one byte.
  A \<open>char*\<close> variable of the agent is a \<open>cstr\<close>: it is NULL, the statically allocated
  constant \<open>DM_ENG_EMPTY\<close> (whose address the code compares), or a string of its own.
  Undefined behaviour that a branch of the code can reach is a value of the type \<open>ub\<close>,
  the left summand of a result.  The platform is the one of the PCLINUX target: \<open>char\<close> is
  signed, \<open>int\<close> has 32 bits, \<open>long\<close>, \<open>time_t\<close> and \<open>size_t\<close> have 64 bits.

  The theory holds these types, the functions of the C library that the modelled code calls
  (\<open>ctype.h\<close>, \<open>strtol\<close>, \<open>strcmp\<close>, decimal printing), the interface of
  a decimal codec with its interpretation on those functions, and the named collections
  the component theories add their facts to.
\<close>

named_theorems cstr_simps \<open>facts that read and write C string pointers\<close>
named_theorems ctype_simps \<open>facts on character classes\<close>
named_theorems codec_simps \<open>round trips of the textual encodings\<close>

section \<open>Pointers to strings and undefined behaviour\<close>

datatype cstr = Null | Empty | Str string

fun ctext :: "cstr \<Rightarrow> string" where
  "ctext Null = []"
| "ctext Empty = []"
| "ctext (Str s) = s"

text \<open>\<open>strdup\<close> of a pointer the code has checked against NULL.\<close>

fun dup :: "cstr \<Rightarrow> cstr" where
  "dup Null = Null"
| "dup Empty = Str []"
| "dup (Str s) = Str s"

lemma txt_dup [cstr_simps, simp]: "ctext (dup s) = ctext s"
  by (cases s) auto

lemma dup_Null [cstr_simps, simp]: "dup s = Null \<longleftrightarrow> s = Null"
  by (cases s) auto

lemma dup_Empty [cstr_simps, simp]: "dup s \<noteq> Empty"
  by (cases s) auto

datatype ub = NullDeref | BufOverflow | BadFree

section \<open>Character classes\<close>

abbreviation code :: "char \<Rightarrow> nat" where
  "code c \<equiv> of_char c"

lemma code_less: "code c < 256"
  by (metis char_of_char of_char_of mod_less_divisor zero_less_numeral)

text \<open>The value of a (signed) \<open>char\<close> promoted to \<open>int\<close>.\<close>

definition schar :: "char \<Rightarrow> int" where
  "schar c = (if code c < 128 then int (code c) else int (code c) - 256)"

definition isspace :: "char \<Rightarrow> bool" where
  "isspace c \<longleftrightarrow> code c = 32 \<or> (9 \<le> code c \<and> code c \<le> 13)"

definition isdigit :: "char \<Rightarrow> bool" where
  "isdigit c \<longleftrightarrow> 48 \<le> code c \<and> code c \<le> 57"

definition isalpha :: "char \<Rightarrow> bool" where
  "isalpha c \<longleftrightarrow> (65 \<le> code c \<and> code c \<le> 90) \<or> (97 \<le> code c \<and> code c \<le> 122)"

definition isalnum :: "char \<Rightarrow> bool" where
  "isalnum c \<longleftrightarrow> isalpha c \<or> isdigit c"

text \<open>\<open>tolower\<close> on the codes: what \<open>strcasecmp\<close> compares.\<close>

definition lowcode :: "char \<Rightarrow> nat" where
  "lowcode c = (if 65 \<le> code c \<and> code c \<le> 90 then code c + 32 else code c)"

definition strcaseeq :: "string \<Rightarrow> string \<Rightarrow> bool" where
  "strcaseeq s t \<longleftrightarrow> map lowcode s = map lowcode t"

lemma isdigit_not_isspace [ctype_simps]: "isdigit c \<Longrightarrow> \<not> isspace c"
  by (auto simp: isdigit_def isspace_def)

text \<open>\<open>strcmp\<close>: the sign of the comparison of the bytes, read as unsigned.\<close>

fun strcmp :: "string \<Rightarrow> string \<Rightarrow> int" where
  "strcmp [] [] = 0"
| "strcmp [] (y # ys) = -1"
| "strcmp (x # xs) [] = 1"
| "strcmp (x # xs) (y # ys) =
     (if x = y then strcmp xs ys else if code x < code y then -1 else 1)"

lemma strcmp_eq_0 [simp]: "strcmp s t = 0 \<longleftrightarrow> s = t"
  by (induction s t rule: strcmp.induct) auto

lemma strcmp_refl [simp]: "strcmp s s = 0"
  by (subst strcmp_eq_0) simp

lemma strcmp_sym: "strcmp t s = - strcmp s t"
proof (induction s t rule: strcmp.induct)
  case (4 x xs y ys)
  have "x \<noteq> y \<Longrightarrow> code x \<noteq> code y" by simp
  with 4 show ?case by auto
qed auto

text \<open>\<open>strncmp(s, t, strlen(t)) == 0\<close>: \<open>t\<close> is a prefix of \<open>s\<close>.\<close>

fun prefixb :: "string \<Rightarrow> string \<Rightarrow> bool" where
  "prefixb [] s = True"
| "prefixb (t # ts) [] = False"
| "prefixb (t # ts) (s # ss) = (t = s \<and> prefixb ts ss)"

lemma prefixb_append [simp]: "prefixb p (p @ s)"
  by (induction p) auto

lemma prefixb_iff: "prefixb p s \<longleftrightarrow> (\<exists>r. s = p @ r)"
  by (induction p s rule: prefixb.induct) auto

lemma prefixb_trans: "prefixb a b \<Longrightarrow> prefixb b c \<Longrightarrow> prefixb a c"
  by (auto simp: prefixb_iff)

text \<open>\<open>strstr(s, t) != NULL\<close>.\<close>

fun strstrb :: "string \<Rightarrow> string \<Rightarrow> bool" where
  "strstrb [] t = (t = [])"
| "strstrb (c # s) t = (prefixb t (c # s) \<or> strstrb s t)"

lemma strstrb_iff: "strstrb s t \<longleftrightarrow> (\<exists>a b. s = a @ t @ b)"
proof (induction s)
  case (Cons c s)
  have "(\<exists>a b. c # s = a @ t @ b) \<longleftrightarrow> (\<exists>b. c # s = t @ b) \<or> (\<exists>a b. s = a @ t @ b)"
    by (metis append_Cons append_Nil list.exhaust list.inject)
  with Cons show ?case by (simp add: prefixb_iff)
qed auto

section \<open>Splitting on a separator\<close>

text \<open>The fields of a line between the occurrences of one character.\<close>

fun fields_of :: "char \<Rightarrow> string \<Rightarrow> string list" where
  "fields_of d [] = [[]]"
| "fields_of d (c # s) =
     (if c = d then [] # fields_of d s
      else case fields_of d s of [] \<Rightarrow> [[c]] | f # fs \<Rightarrow> (c # f) # fs)"

fun join :: "char \<Rightarrow> string list \<Rightarrow> string" where
  "join d [] = []"
| "join d [f] = f"
| "join d (f # fs) = f @ d # join d fs"

lemma fields_not_Nil [simp]: "fields_of d s \<noteq> []"
  by (induction s) (auto split: list.splits)

lemma fields_no_sep: "d \<notin> set f \<Longrightarrow> fields_of d f = [f]"
  by (induction f) auto

lemma fields_append: "d \<notin> set f \<Longrightarrow> fields_of d (f @ d # s) = f # fields_of d s"
  by (induction f) auto

lemma fields_join [codec_simps]:
  "fs \<noteq> [] \<Longrightarrow> \<forall>f \<in> set fs. d \<notin> set f \<Longrightarrow> fields_of d (join d fs) = fs"
  by (induction d fs rule: join.induct) (auto simp: fields_no_sep fields_append)

lemma join_fields: "join d (fields_of d s) = s"
proof (induction s)
  case (Cons c s)
  obtain f fs where fs: "fields_of d s = f # fs"
    by (cases "fields_of d s") auto
  with Cons show ?case by (cases fs) auto
qed auto

lemma fields_sep_free: "f \<in> set (fields_of d s) \<Longrightarrow> d \<notin> set f"
  by (induction s arbitrary: f) (auto split: list.splits if_splits)

lemma takeWhile_sep [simp]: "d \<notin> set a \<Longrightarrow> takeWhile (\<lambda>c. c \<noteq> d) (a @ d # r) = a"
  by (induction a) auto

lemma dropWhile_sep [simp]: "d \<notin> set a \<Longrightarrow> dropWhile (\<lambda>c. c \<noteq> d) (a @ d # r) = d # r"
  by (induction a) auto

lemma takeWhile_nosep: "d \<notin> set a \<Longrightarrow> takeWhile (\<lambda>c. c \<noteq> d) a = a"
  by (induction a) auto

lemma dropWhile_nosep: "d \<notin> set a \<Longrightarrow> dropWhile (\<lambda>c. c \<noteq> d) a = []"
  by (induction a) auto

lemma join_Cons: "fs \<noteq> [] \<Longrightarrow> join d (f # fs) = f @ d # join d fs"
  by (cases fs) auto

lemma join_append:
  "fs \<noteq> [] \<Longrightarrow> gs \<noteq> [] \<Longrightarrow> join d (fs @ gs) = join d fs @ d # join d gs"
proof (induction fs)
  case (Cons f fs)
  then show ?case by (cases fs) (auto simp: join_Cons)
qed auto

end
