(* ===== verification/CNum.thy ===== *)
theory CNum
  imports Prelude
begin

text \<open>
  Decimal numbers in the C library: printing with \<open>%d\<close>, \<open>%u\<close>, \<open>%ld\<close> and reading with
  \<open>strtol\<close>, \<open>strtoul\<close>, \<open>atol\<close>, base 10.  A read that sets \<open>errno\<close> to ERANGE is
  \<open>None\<close>; otherwise the result is the value and the rest of the string (\<open>*endptr\<close>).
  The locale \<open>decimal_codec\<close> is the interface its clients use: what is printed is read back,
  and the printed text holds digits and a sign only, so it survives in a separated list.
\<close>

section \<open>Printing\<close>

definition digit :: "nat \<Rightarrow> char" where
  "digit d = char_of (48 + d)"

fun dec :: "nat \<Rightarrow> string" where
  "dec n = (if n < 10 then [digit n] else dec (n div 10) @ [digit (n mod 10)])"

declare dec.simps [simp del]

definition deci :: "int \<Rightarrow> string" where
  "deci i = (if i < 0 then CHR ''-'' # dec (nat (- i)) else dec (nat i))"

section \<open>Reading\<close>

definition dval :: "string \<Rightarrow> nat" where
  "dval s = foldl (\<lambda>a c. 10 * a + (code c - 48)) 0 s"

definition LONG_MAX :: int where "LONG_MAX = 9223372036854775807"
definition LONG_MIN :: int where "LONG_MIN = - 9223372036854775808"
definition ULONG_MAX :: nat where "ULONG_MAX = 18446744073709551615"
definition INT_MAX :: int where "INT_MAX = 2147483647"
definition INT_MIN :: int where "INT_MIN = - 2147483648"
definition UINT_MAX :: nat where "UINT_MAX = 4294967295"

lemmas c_limits = LONG_MAX_def LONG_MIN_def ULONG_MAX_def INT_MAX_def INT_MIN_def UINT_MAX_def

fun sign_part :: "string \<Rightarrow> bool \<times> string" where
  "sign_part [] = (False, [])"
| "sign_part (c # s) =
     (if c = CHR ''-'' then (True, s) else if c = CHR ''+'' then (False, s) else (False, c # s))"

definition strtol :: "string \<Rightarrow> (int \<times> string) option" where
  "strtol s =
     (let (neg, s1) = sign_part (dropWhile isspace s);
          ds = takeWhile isdigit s1
      in if ds = [] then Some (0, s)
         else let v = (if neg then - int (dval ds) else int (dval ds))
              in if v < LONG_MIN \<or> v > LONG_MAX then None else Some (v, dropWhile isdigit s1))"

definition strtoul :: "string \<Rightarrow> (nat \<times> string) option" where
  "strtoul s =
     (let (neg, s1) = sign_part (dropWhile isspace s);
          ds = takeWhile isdigit s1
      in if ds = [] then Some (0, s)
         else if dval ds > ULONG_MAX then None
         else Some (if neg then (2 ^ 64 - dval ds) mod 2 ^ 64 else dval ds, dropWhile isdigit s1))"

text \<open>\<open>atol\<close>: the value \<open>strtol\<close> returns, which saturates when the range is exceeded.\<close>

definition atol :: "string \<Rightarrow> int" where
  "atol s =
     (case strtol s of
        Some (v, _) \<Rightarrow> v
      | None \<Rightarrow> if fst (sign_part (dropWhile isspace s)) then LONG_MIN else LONG_MAX)"

section \<open>What is printed is read back\<close>

lemma code_digit: "d < 10 \<Longrightarrow> code (digit d) = 48 + d"
  by (simp add: digit_def)

lemma isdigit_digit [simp]: "d < 10 \<Longrightarrow> isdigit (digit d)"
  by (simp add: isdigit_def code_digit)

lemma dec_nonempty [simp]: "dec n \<noteq> []"
  by (subst dec.simps) simp

lemma dec_digits: "c \<in> set (dec n) \<Longrightarrow> isdigit c"
proof (induction n rule: dec.induct)
  case (1 n)
  then show ?case
    by (cases "n < 10") (auto simp: dec.simps [of n])
qed

lemma dval_append: "dval (s @ [c]) = 10 * dval s + (code c - 48)"
  by (simp add: dval_def)

lemma dval_dec [simp]: "dval (dec n) = n"
proof (induction n rule: dec.induct)
  case (1 n)
  show ?case
  proof (cases "n < 10")
    case True
    then show ?thesis by (simp add: dec.simps [of n] dval_def code_digit)
  next
    case False
    then have "dval (dec n) = 10 * (n div 10) + n mod 10"
      using 1 by (simp add: dec.simps [of n] dval_append code_digit)
    then show ?thesis by simp
  qed
qed

lemma isdigit_not_sign: "isdigit c \<Longrightarrow> c \<noteq> CHR ''-'' \<and> c \<noteq> CHR ''+'' \<and> c \<noteq> CHR '','' \<and> c \<noteq> CHR '';''"
  by (auto simp: isdigit_def)

lemma takeWhile_dec:
  "(r = [] \<or> \<not> isdigit (hd r)) \<Longrightarrow> takeWhile isdigit (dec n @ r) = dec n"
  by (cases r) (auto simp: takeWhile_append2 takeWhile_tail dec_digits)

lemma dropWhile_dec:
  "(r = [] \<or> \<not> isdigit (hd r)) \<Longrightarrow> dropWhile isdigit (dec n @ r) = r"
  by (cases r) (auto simp: dropWhile_append2 dec_digits)

lemma hd_dec_digit: "isdigit (hd (dec n @ r))"
  by (metis dec_digits dec_nonempty hd_append2 hd_in_set)

lemma dropWhile_hd: "s = [] \<or> \<not> P (hd s) \<Longrightarrow> dropWhile P s = s"
  by (cases s) auto

lemma skip_dec [simp]: "dropWhile isspace (dec n @ r) = dec n @ r"
  using hd_dec_digit [of n r] by (intro dropWhile_hd) (auto dest: isdigit_not_isspace)

lemma sign_dec [simp]: "sign_part (dec n @ r) = (False, dec n @ r)"
proof -
  obtain c s where "dec n @ r = c # s" by (cases "dec n @ r") auto
  with hd_dec_digit [of n r] show ?thesis by (auto dest: isdigit_not_sign)
qed

lemma sign_deci [simp]: "sign_part (dropWhile isspace (deci i @ r)) = (i < 0, dec (nat \<bar>i\<bar>) @ r)"
  by (auto simp: deci_def isspace_def)

lemma strtol_deci [codec_simps]:
  assumes "LONG_MIN \<le> i" "i \<le> LONG_MAX" "r = [] \<or> \<not> isdigit (hd r)"
  shows "strtol (deci i @ r) = Some (i, r)"
  using assms by (auto simp: strtol_def Let_def takeWhile_dec dropWhile_dec)

lemma strtoul_dec [codec_simps]:
  assumes "n \<le> ULONG_MAX" "r = [] \<or> \<not> isdigit (hd r)"
  shows "strtoul (dec n @ r) = Some (n, r)"
  using assms by (simp add: strtoul_def Let_def takeWhile_dec dropWhile_dec)

lemma atol_deci [codec_simps]:
  assumes "LONG_MIN \<le> i" "i \<le> LONG_MAX" "r = [] \<or> \<not> isdigit (hd r)"
  shows "atol (deci i @ r) = i"
  using assms by (simp add: atol_def strtol_deci)

lemma deci_chars: "c \<in> set (deci i) \<Longrightarrow> isdigit c \<or> c = CHR ''-''"
  by (auto simp: deci_def dec_digits split: if_splits)

lemma deci_nonempty [simp]: "deci i \<noteq> []"
  by (simp add: deci_def)

text \<open>The number of characters \<open>sprintf\<close> writes, for the buffers sized by hand.\<close>

lemma length_dec_le: "n < 10 ^ k \<Longrightarrow> 0 < k \<Longrightarrow> length (dec n) \<le> k"
proof (induction n arbitrary: k rule: dec.induct)
  case (1 n)
  show ?case
  proof (cases "n < 10")
    case True
    with 1 show ?thesis by (simp add: dec.simps [of n])
  next
    case False
    with 1(2,3) have "k \<noteq> 1" by (cases "k = 1") auto
    with 1(3) obtain m where k: "k = Suc m" "0 < m"
      by (metis gr0_conv_Suc One_nat_def neq0_conv)
    with 1(2) have "n div 10 < 10 ^ m" by auto
    with 1(1) False k have "length (dec (n div 10)) \<le> m" by blast
    with False k show ?thesis by (simp add: dec.simps [of n])
  qed
qed

section \<open>The interface of a decimal codec\<close>

locale decimal_codec =
  fixes pr :: "'a \<Rightarrow> string"
    and rd :: "string \<Rightarrow> 'a option"
    and ok :: "'a \<Rightarrow> bool"
  assumes rd_pr: "ok x \<Longrightarrow> rd (pr x) = Some x"
    and pr_chars: "ok x \<Longrightarrow> c \<in> set (pr x) \<Longrightarrow> isdigit c \<or> c = CHR ''-''"
    and pr_nonempty: "ok x \<Longrightarrow> pr x \<noteq> []"
begin

lemma pr_inj: "ok x \<Longrightarrow> ok y \<Longrightarrow> pr x = pr y \<longleftrightarrow> x = y"
  by (metis option.inject rd_pr)

lemma pr_no_sep: "ok x \<Longrightarrow> \<not> isdigit d \<Longrightarrow> d \<noteq> CHR ''-'' \<Longrightarrow> d \<notin> set (pr x)"
  using pr_chars by blast

lemma rd_list:
  assumes "xs \<noteq> []" "\<forall>x \<in> set xs. ok x" "\<not> isdigit d" "d \<noteq> CHR ''-''"
  shows "map rd (fields_of d (join d (map pr xs))) = map Some xs"
proof -
  have "\<forall>f \<in> set (map pr xs). d \<notin> set f"
    using assms pr_no_sep by auto
  then have "fields_of d (join d (map pr xs)) = map pr xs"
    using assms by (intro fields_join) auto
  with assms show ?thesis by (simp add: rd_pr)
qed

end

end
