(* ===== verification/Common.thy ===== *)
theory Common
  imports CNum
begin

text \<open>
  \<open>dm_engine/src/DM_ENG_Common.c\<close>: conversions between strings and numbers or booleans.
  A conversion that returns \<open>false\<close> is \<open>None\<close>.  The decimal codecs of the agent (signed,
  unsigned and long) are interpretations of \<open>decimal_codec\<close>.
\<close>

section \<open>Numbers and booleans\<close>

definition DM_ENG_charToInt :: "char \<Rightarrow> int" where
  "DM_ENG_charToInt ch = (if isdigit ch then int (code ch) - 48 else - 1)"

definition DM_ENG_stringToInt :: "cstr \<Rightarrow> int option" where
  "DM_ENG_stringToInt ch =
     (if ctext ch = [] then None
      else case strtol (ctext ch) of
        None \<Rightarrow> None
      | Some (val, e) \<Rightarrow>
          (if dropWhile isspace e \<noteq> [] \<or> val < INT_MIN \<or> val > INT_MAX then None else Some val))"

definition DM_ENG_stringToUint :: "cstr \<Rightarrow> 32 word option" where
  "DM_ENG_stringToUint ch =
     (let s = dropWhile isspace (ctext ch)
      in if s = [] \<or> \<not> isdigit (hd s) then None
         else case strtoul s of
           None \<Rightarrow> None
         | Some (val, e) \<Rightarrow>
             (if dropWhile isspace e \<noteq> [] \<or> val > UINT_MAX then None else Some (of_nat val)))"

definition DM_ENG_stringToLong :: "cstr \<Rightarrow> int option" where
  "DM_ENG_stringToLong ch =
     (if ctext ch = [] then None
      else case strtol (ctext ch) of
        None \<Rightarrow> None
      | Some (val, e) \<Rightarrow> (if dropWhile isspace e \<noteq> [] then None else Some val))"

definition DM_ENG_FALSE_STRING :: string where "DM_ENG_FALSE_STRING = ''false''"
definition DM_ENG_TRUE_STRING :: string where "DM_ENG_TRUE_STRING = ''true''"

text \<open>\<open>strncasecmp(s, t, strlen(t)) == 0\<close>\<close>

definition caseprefix :: "string \<Rightarrow> string \<Rightarrow> bool" where
  "caseprefix t s \<longleftrightarrow> prefixb (map char_of (map lowcode t)) (map char_of (map lowcode s))"

definition DM_ENG_stringToBool :: "cstr \<Rightarrow> bool option" where
  "DM_ENG_stringToBool ch =
     (if ctext ch = [] then None
      else let s = dropWhile isspace (ctext ch);
               fin = (\<lambda>v r. if dropWhile isspace r = [] then Some v else None)
      in if caseprefix DM_ENG_FALSE_STRING s then fin False (drop 5 s)
         else if caseprefix DM_ENG_TRUE_STRING s then fin True (drop 4 s)
         else if prefixb ''0'' s then fin False (drop 1 s)
         else if prefixb ''1'' s then fin True (drop 1 s)
         else None)"

definition DM_ENG_intToString :: "int \<Rightarrow> string" where
  "DM_ENG_intToString i = deci i"

text \<open>The loop of \<open>DM_ENG_uintToString\<close> fills its buffer from the end.\<close>

function uint_loop :: "nat \<Rightarrow> string \<Rightarrow> string" where
  "uint_loop i p =
     (let p' = digit (i mod 10) # p
      in if i div 10 \<noteq> 0 then uint_loop (i div 10) p' else p')"
  by pat_completeness auto
termination
  by (relation "measure fst") (auto simp: Let_def)

declare uint_loop.simps [simp del]

definition DM_ENG_uintToString :: "32 word \<Rightarrow> string" where
  "DM_ENG_uintToString i = uint_loop (unat i) []"

definition DM_ENG_longToString :: "int \<Rightarrow> string" where
  "DM_ENG_longToString l = deci l"

lemma uint_loop_dec: "uint_loop i p = dec i @ p"
proof (induction i p rule: uint_loop.induct)
  case (1 i p)
  then show ?case
    by (subst uint_loop.simps, subst dec.simps) (auto simp: Let_def)
qed

lemma uintToString_dec [codec_simps]: "DM_ENG_uintToString i = dec (unat i)"
  by (simp add: DM_ENG_uintToString_def uint_loop_dec)

lemma unat_le_UINT_MAX: "unat (i :: 32 word) \<le> UINT_MAX"
  using unsigned_less [of i, where 'a = nat] by (simp add: UINT_MAX_def)

lemma hd_dec: "isdigit (hd (dec n))"
  using hd_dec_digit [of n "[]"] by simp

lemma stringToUint_dec [codec_simps]:
  "DM_ENG_stringToUint (Str (DM_ENG_uintToString i)) = Some i"
proof -
  have "strtoul (dec (unat i)) = Some (unat i, [])"
    using strtoul_dec [of "unat i" "[]"] unat_le_UINT_MAX [of i]
    by (simp add: UINT_MAX_def ULONG_MAX_def)
  moreover have "dropWhile isspace (dec (unat i)) = dec (unat i)"
    using skip_dec [of "unat i" "[]"] by simp
  ultimately show ?thesis
    using unat_le_UINT_MAX [of i] by (simp add: DM_ENG_stringToUint_def uintToString_dec hd_dec Let_def)
qed

lemma stringToInt_deci [codec_simps]:
  "INT_MIN \<le> i \<Longrightarrow> i \<le> INT_MAX \<Longrightarrow> DM_ENG_stringToInt (Str (DM_ENG_intToString i)) = Some i"
  using strtol_deci [of i "[]"]
  by (simp add: DM_ENG_stringToInt_def DM_ENG_intToString_def c_limits)

lemma stringToLong_deci [codec_simps]:
  "LONG_MIN \<le> i \<Longrightarrow> i \<le> LONG_MAX \<Longrightarrow> DM_ENG_stringToLong (Str (DM_ENG_longToString i)) = Some i"
  using strtol_deci [of i "[]"]
  by (simp add: DM_ENG_stringToLong_def DM_ENG_longToString_def)

interpretation int_codec: decimal_codec DM_ENG_intToString "DM_ENG_stringToInt \<circ> Str"
    "\<lambda>i. INT_MIN \<le> i \<and> i \<le> INT_MAX"
  by unfold_locales (auto simp: stringToInt_deci,
      auto simp: DM_ENG_intToString_def dest: deci_chars)

interpretation uint_codec: decimal_codec DM_ENG_uintToString "DM_ENG_stringToUint \<circ> Str" "\<lambda>i. True"
  by unfold_locales (simp_all add: stringToUint_dec, simp_all add: uintToString_dec dec_digits)

interpretation long_codec: decimal_codec DM_ENG_longToString "DM_ENG_stringToLong \<circ> Str"
    "\<lambda>i. LONG_MIN \<le> i \<and> i \<le> LONG_MAX"
  by unfold_locales (auto simp: stringToLong_deci, auto simp: DM_ENG_longToString_def dest: deci_chars)

interpretation atol_codec: decimal_codec DM_ENG_longToString "Some \<circ> atol"
    "\<lambda>i. LONG_MIN \<le> i \<and> i \<le> LONG_MAX"
  using atol_deci [of _ "[]"]
  by unfold_locales (auto simp: DM_ENG_longToString_def dest: deci_chars)

lemma stringToUint_range: "DM_ENG_stringToUint ch = Some v \<Longrightarrow> ctext ch \<noteq> []"
  by (auto simp: DM_ENG_stringToUint_def Let_def)

end
