(* ===== verification/Encode.thy ===== *)
theory Encode
  imports Common
begin

text \<open>
  \<open>dm_engine/src/DM_ENG_Common.c\<close>: the percent encoding of values in the persistent files
  and the configuration files, and the fault strings.  \<open>DM_ENG_encodeValue\<close> allocates
  \<open>strlen(str)+2*nbSpe+1\<close> bytes and prints each special character with \<open>%.2X\<close>; the model
  keeps the buffer, so that a print that does not fit is \<open>Inl BufOverflow\<close>.
\<close>

section \<open>The encoder\<close>

definition NUL :: char where "NUL = char_of (0::nat)"

definition hexdig :: "nat \<Rightarrow> char" where
  "hexdig d = char_of (if d < 10 then 48 + d else 55 + d)"

text \<open>
  \<open>sprintf(p, "%%%.2X", c)\<close> on a signed char: a negative one is promoted to a negative
  \<open>int\<close> and printed with eight digits.
\<close>

definition fmt_hex :: "char \<Rightarrow> string" where
  "fmt_hex c =
     (let h = [hexdig (code c div 16), hexdig (code c mod 16)]
      in CHR ''%'' # (if schar c < 0 then ''FFFFFF'' @ h else h))"

definition SPECIAL_CHARS :: string where
  "SPECIAL_CHARS = [CHR ''%'', CHR 0x5C, CHR '';'', CHR 0x22, CHR ''<'']"

definition special :: "char \<Rightarrow> bool" where
  "special c \<longleftrightarrow> schar c < 32 \<or> c \<in> set SPECIAL_CHARS"

definition buf_put :: "string \<Rightarrow> nat \<Rightarrow> string \<Rightarrow> ub + string" where
  "buf_put buf j s =
     (if j + length s \<le> length buf then Inr (take j buf @ s @ drop (j + length s) buf)
      else Inl BufOverflow)"

fun encode_loop :: "string \<Rightarrow> string \<Rightarrow> nat \<Rightarrow> ub + string" where
  "encode_loop [] buf j = Inr buf"
| "encode_loop (c # str) buf j =
     (if special c
      then (case buf_put buf j (fmt_hex c @ [NUL]) of
              Inl e \<Rightarrow> Inl e | Inr buf' \<Rightarrow> encode_loop str buf' (j + 3))
      else (case buf_put buf j [c] of
              Inl e \<Rightarrow> Inl e | Inr buf' \<Rightarrow> encode_loop str buf' (j + 1)))"

definition DM_ENG_encodeValue :: "cstr \<Rightarrow> ub + string option" where
  "DM_ENG_encodeValue str =
     (if str = Null then Inr None
      else let s = ctext str; nbSpe = length (filter special s)
      in if nbSpe = 0 then Inr None
         else case encode_loop s (replicate (length s + 2 * nbSpe + 1) NUL) 0 of
           Inl e \<Rightarrow> Inl e
         | Inr buf \<Rightarrow> Inr (Some (takeWhile (\<lambda>c. c \<noteq> NUL) buf)))"

section \<open>The decoder\<close>

definition xval :: "char \<Rightarrow> nat option" where
  "xval c =
     (if isdigit c then Some (code c - 48)
      else if 65 \<le> code c \<and> code c \<le> 70 then Some (code c - 55)
      else if 97 \<le> code c \<and> code c \<le> 102 then Some (code c - 87) else None)"

fun xdigits :: "nat \<Rightarrow> string \<Rightarrow> nat \<Rightarrow> nat" where
  "xdigits 0 s v = v"
| "xdigits (Suc n) [] v = v"
| "xdigits (Suc n) (c # s) v = (case xval c of None \<Rightarrow> v | Some d \<Rightarrow> xdigits n s (16 * v + d))"

text \<open>\<open>sscanf(s, "%2X", &v)\<close> with \<open>v\<close> 0 before, then the conversion to \<open>char\<close>.\<close>

definition scan_2X :: "string \<Rightarrow> char" where
  "scan_2X s =
     (case dropWhile isspace s of
        [] \<Rightarrow> char_of (0::nat)
      | c # r \<Rightarrow>
          (if c = CHR ''-'' then char_of ((256 - xdigits 1 r 0) mod 256)
           else if c = CHR ''+'' then char_of (xdigits 1 r 0)
           else char_of (xdigits 2 (c # r) 0)))"

fun decode_loop :: "string \<Rightarrow> nat \<Rightarrow> string" where
  "decode_loop [] echap = []"
| "decode_loop (c # str) echap =
     (if c = CHR ''%'' then decode_loop str 1
      else if echap = 1 then scan_2X (c # str) # decode_loop str 2
      else if echap = 2 then decode_loop str 0
      else c # decode_loop str echap)"

text \<open>
  The buffer has \<open>strlen(str)-2*nbSpe+1\<close> bytes.  A negative size is a huge \<open>size_t\<close>, for
  which \<open>calloc\<close> returns NULL.
\<close>

definition DM_ENG_decodeValue :: "cstr \<Rightarrow> ub + string option" where
  "DM_ENG_decodeValue str =
     (if str = Null then Inr None
      else let s = ctext str; nbSpe = length (filter (\<lambda>c. c = CHR ''%'') s)
      in if nbSpe = 0 then Inr None
         else let out = decode_loop s 0; size = int (length s) - 2 * int nbSpe + 1
         in if size < 0 then (if out = [] then Inr None else Inl NullDeref)
            else if int (length out) + 1 > size then Inl BufOverflow
            else Inr (Some (takeWhile (\<lambda>c. c \<noteq> NUL) out)))"

text \<open>How the files use the pair: the encoded text when there is one, else the text itself.\<close>

definition enc_field :: "cstr \<Rightarrow> ub + string" where
  "enc_field v =
     (case DM_ENG_encodeValue v of
        Inl e \<Rightarrow> Inl e | Inr None \<Rightarrow> Inr (ctext v) | Inr (Some t) \<Rightarrow> Inr t)"

definition dec_field :: "string \<Rightarrow> ub + string" where
  "dec_field t =
     (case DM_ENG_decodeValue (Str t) of
        Inl e \<Rightarrow> Inl e | Inr None \<Rightarrow> Inr t | Inr (Some s) \<Rightarrow> Inr s)"

section \<open>The buffer is large enough for ASCII\<close>

definition ascii :: "string \<Rightarrow> bool" where
  "ascii s \<longleftrightarrow> (\<forall>c \<in> set s. 0 < code c \<and> code c < 128)"

definition enc1 :: "char \<Rightarrow> string" where
  "enc1 c = (if special c then [CHR ''%'', hexdig (code c div 16), hexdig (code c mod 16)] else [c])"

lemma ascii_Cons [simp]: "ascii (c # s) \<longleftrightarrow> 0 < code c \<and> code c < 128 \<and> ascii s"
  by (auto simp: ascii_def)

lemma schar_ascii: "code c < 128 \<Longrightarrow> schar c = int (code c)"
  by (simp add: schar_def)

lemma fmt_hex_ascii: "code c < 128 \<Longrightarrow>
    fmt_hex c = [CHR ''%'', hexdig (code c div 16), hexdig (code c mod 16)]"
  by (simp add: fmt_hex_def schar_ascii Let_def)

lemma enc1_special: "special c \<Longrightarrow> enc1 c = [CHR ''%'', hexdig (code c div 16), hexdig (code c mod 16)]"
  and enc1_plain: "\<not> special c \<Longrightarrow> enc1 c = [c]"
  by (simp_all add: enc1_def)

lemma buf_put_fill:
  "k = length s \<Longrightarrow> buf_put (d @ replicate k NUL @ e) (length d) s = Inr (d @ s @ e)"
  by (simp add: buf_put_def)

lemma encode_loop_ascii:
  assumes "ascii s"
  shows "encode_loop s (d @ replicate (length (concat (map enc1 s)) + 1) NUL) (length d)
         = Inr (d @ concat (map enc1 s) @ [NUL])"
  using assms
proof (induction s arbitrary: d)
  case (Cons c s)
  let ?n = "length (concat (map enc1 s))"
  let ?e = "replicate (?n + 1) NUL"
  show ?case
  proof (cases "special c")
    case True
    have "length (concat (map enc1 (c # s))) + 1 = 4 + ?n"
      using True by (simp add: enc1_special)
    then have "replicate (length (concat (map enc1 (c # s))) + 1) NUL = replicate 4 NUL @ replicate ?n NUL"
      by (simp only: replicate_add)
    moreover have "buf_put (d @ replicate 4 NUL @ replicate ?n NUL) (length d) (fmt_hex c @ [NUL])
        = Inr ((d @ enc1 c) @ ?e)"
      using Cons.prems True by (subst buf_put_fill) (simp_all add: fmt_hex_ascii enc1_special)
    ultimately show ?thesis
      using Cons.IH [of "d @ enc1 c"] Cons.prems True
      by (simp add: enc1_special numeral_3_eq_3 del: replicate_Suc)
  next
    case False
    have "replicate (length (concat (map enc1 (c # s))) + 1) NUL = replicate 1 NUL @ ?e"
      using False by (simp add: enc1_plain)
    moreover have "buf_put (d @ replicate 1 NUL @ ?e) (length d) [c] = Inr ((d @ [c]) @ ?e)"
      by (subst buf_put_fill) simp_all
    ultimately show ?thesis
      using Cons.IH [of "d @ [c]"] Cons.prems False
      by (simp add: enc1_plain del: replicate_Suc)
  qed
qed simp

lemma length_enc:
  "length (concat (map enc1 s)) = length s + 2 * length (filter special s)"
  by (induction s) (auto simp: enc1_def)

lemma NUL_code: "c = NUL \<longleftrightarrow> code c = 0"
  unfolding NUL_def by (metis char_of_eq_iff take_bit_of_0)

section \<open>Decoding undoes encoding\<close>

lemma code_hexdig: "d < 16 \<Longrightarrow> code (hexdig d) = (if d < 10 then 48 + d else 55 + d)"
  by (simp add: hexdig_def)

lemma xval_hexdig [simp]: "d < 16 \<Longrightarrow> xval (hexdig d) = Some d"
  by (auto simp: xval_def isdigit_def code_hexdig)

lemma hexdig_plain:
  "d < 16 \<Longrightarrow> \<not> isspace (hexdig d) \<and> hexdig d \<noteq> CHR ''-'' \<and> hexdig d \<noteq> CHR ''+'' \<and> hexdig d \<noteq> CHR ''%''"
  using code_hexdig [of d] by (auto simp: isspace_def split: if_splits)

lemma code_div16 [simp]: "code c div 16 < 16"
  using code_less [of c] by arith

lemma schar_neg: "128 \<le> code c \<Longrightarrow> schar c < 0"
  using code_less [of c] unfolding schar_def by arith

lemma hexdig_safe: "d < 16 \<Longrightarrow> 32 \<le> code (hexdig d) \<and> hexdig d \<notin> set SPECIAL_CHARS"
  using code_hexdig [of d] by (auto simp: SPECIAL_CHARS_def split: if_splits)

lemma scan_2X_hexdig:
  "a < 16 \<Longrightarrow> b < 16 \<Longrightarrow> scan_2X (hexdig a # hexdig b # s) = char_of (16 * a + b)"
  using hexdig_plain [of a] by (simp add: scan_2X_def numeral_2_eq_2)

lemma decode_enc1:
  assumes "code c < 128"
  shows "decode_loop (enc1 c @ s) 0 = c # decode_loop s 0"
proof (cases "special c")
  case True
  have "code c div 16 < 16" using assms by simp
  moreover have "16 * (code c div 16) + code c mod 16 = code c" by presburger
  ultimately show ?thesis
    using True hexdig_plain [of "code c div 16"] hexdig_plain [of "code c mod 16"]
    by (simp add: enc1_special scan_2X_hexdig)
next
  case False
  then have "c \<noteq> CHR ''%''" by (auto simp: special_def SPECIAL_CHARS_def)
  with False show ?thesis by (simp add: enc1_plain)
qed

lemma decode_enc: "ascii s \<Longrightarrow> decode_loop (concat (map enc1 s)) 0 = s"
  by (induction s) (auto simp: decode_enc1)

lemma code_NUL [simp]: "code NUL = 0"
  by (simp add: NUL_def)

lemma ascii_no_NUL: "ascii s \<Longrightarrow> NUL \<notin> set s"
  by (auto simp: ascii_def)

lemma enc1_safe:
  "code c < 128 \<Longrightarrow> d \<in> set (enc1 c) \<Longrightarrow>
   32 \<le> code d \<and> (d \<in> set SPECIAL_CHARS \<longrightarrow> d = CHR ''%'')"
  using hexdig_safe [of "code c div 16"] hexdig_safe [of "code c mod 16"]
  by (auto simp: enc1_def special_def schar_ascii split: if_splits)

lemma hexdig_128: "d < 16 \<Longrightarrow> code (hexdig d) < 128"
  by (simp add: code_hexdig)

lemma enc_ascii: "ascii s \<Longrightarrow> ascii (concat (map enc1 s))"
proof (induction s)
  case (Cons c s)
  have "code (hexdig (code c div 16)) < 128" "code (hexdig (code c mod 16)) < 128"
    using hexdig_128 [of "code c div 16"] hexdig_128 [of "code c mod 16"] by simp_all
  with Cons have "\<forall>d\<in>set (enc1 c). code d < 128" by (auto simp: enc1_def)
  moreover have "\<forall>d\<in>set (enc1 c). 32 \<le> code d" using enc1_safe [of c] Cons.prems by auto
  ultimately show ?case using Cons by (fastforce simp: ascii_def)
qed (simp add: ascii_def)

lemma NUL_not_enc1: "code c < 128 \<Longrightarrow> NUL \<notin> set (enc1 c)"
  using enc1_safe [of c NUL] by auto

lemma NUL_not_enc: "ascii s \<Longrightarrow> NUL \<notin> set (concat (map enc1 s))"
  by (induction s) (auto simp: NUL_not_enc1 simp del: set_concat)

lemma enc_plain: "filter special s = [] \<Longrightarrow> concat (map enc1 s) = s"
  by (induction s) (auto simp: enc1_def split: if_splits)

lemma enc_field_ascii [codec_simps]: "ascii s \<Longrightarrow> enc_field (Str s) = Inr (concat (map enc1 s))"
  using encode_loop_ascii [of s "[]"] NUL_not_enc [of s] length_enc [of s]
  by (auto simp: enc_field_def DM_ENG_encodeValue_def Let_def enc_plain)

lemma count_percent:
  "ascii s \<Longrightarrow> length (filter (\<lambda>c. c = CHR ''%'') (concat (map enc1 s))) = length (filter special s)"
proof (induction s)
  case (Cons c s)
  moreover have "special (CHR ''%'')" by (simp add: special_def SPECIAL_CHARS_def)
  ultimately show ?case
    using hexdig_plain [of "code c div 16"] hexdig_plain [of "code c mod 16"]
    by (auto simp: enc1_def)
qed simp

lemma dec_field_enc [codec_simps]: "ascii s \<Longrightarrow> dec_field (concat (map enc1 s)) = Inr s"
  using count_percent [of s] length_enc [of s] decode_enc [of s] ascii_no_NUL [of s]
  by (auto simp: dec_field_def DM_ENG_decodeValue_def Let_def enc_plain takeWhile_nosep)

definition line_safe :: "string \<Rightarrow> bool" where
  "line_safe t \<longleftrightarrow> (\<forall>d \<in> set t. 32 \<le> code d \<and> d \<noteq> CHR '';'' \<and> d \<noteq> CHR ''<'' \<and> d \<noteq> CHR 0x22 \<and> d \<noteq> CHR 0x5C)"

lemma enc_line_safe: "ascii s \<Longrightarrow> line_safe (concat (map enc1 s))"
proof (induction s)
  case (Cons c s)
  then have "line_safe (enc1 c)"
    using enc1_safe [of c] by (fastforce simp: line_safe_def SPECIAL_CHARS_def)
  with Cons show ?case by (simp add: line_safe_def ball_Un)
qed (simp add: line_safe_def)

text \<open>
  every ASCII value survives the percent encoding: \<open>DM_ENG_encodeValue\<close> never writes
  outside its buffer, what it stores holds no field separator, quote, markup or control
  character, and \<open>DM_ENG_decodeValue\<close> gives back the value.
\<close>

theorem encode_decode_ascii:
  assumes "ascii s"
  shows "\<exists>t. enc_field (Str s) = Inr t \<and> line_safe t \<and> dec_field t = Inr s"
  using assms by (auto simp: codec_simps enc_line_safe)

theorem encode_decode_ascii_witness:
  "ascii ''a;b%'' \<and> (\<exists>t. enc_field (Str ''a;b%'') = Inr t \<and> line_safe t \<and> dec_field t = Inr ''a;b%'')"
proof -
  have "ascii ''a;b%''" by (simp add: ascii_def)
  with encode_decode_ascii [OF this] show ?thesis by blast
qed

lemma buf_put_length: "buf_put b j s = Inr b' \<Longrightarrow> length b' = length b"
  by (auto simp: buf_put_def split: if_splits)

lemma buf_put_err: "buf_put b j s = Inl e \<Longrightarrow> e = BufOverflow"
  by (auto simp: buf_put_def split: if_splits)

lemma encode_loop_snoc_overflow:
  assumes "128 \<le> code c"
    and "length b < j + length p + 2 * length (filter special p) + 10"
  shows "encode_loop (p @ [c]) b j = Inl BufOverflow"
  using assms
proof (induction p arbitrary: b j)
  case Nil
  have "length (fmt_hex c) = 9" "special c"
    using schar_neg [OF Nil(1)] by (auto simp: fmt_hex_def Let_def special_def)
  with Nil show ?case by (simp add: buf_put_def)
next
  case (Cons x p)
  show ?case
  proof (cases "special x")
    case True
    have "encode_loop (p @ [c]) b' (j + 3) = Inl BufOverflow" if "length b' = length b" for b'
      using Cons.IH [of b' "j + 3"] Cons.prems True that by simp
    with True show ?thesis
      by (auto split: sum.splits dest: buf_put_length buf_put_err)
  next
    case False
    have "encode_loop (p @ [c]) b' (j + 1) = Inl BufOverflow" if "length b' = length b" for b'
      using Cons.IH [of b' "j + 1"] Cons.prems False that by simp
    with False show ?thesis
      by (auto split: sum.splits dest: buf_put_length buf_put_err)
  qed
qed

text \<open>
  the encoder on non-ASCII bytes: a value whose last byte is 128 or more (UTF-8 text, for
  instance) makes \<open>sprintf\<close> print the negative char with eight hexadecimal digits, past the
  end of the buffer.
\<close>

theorem encode_overflow_non_ascii:
  assumes "128 \<le> code c"
  shows "DM_ENG_encodeValue (Str (p @ [c])) = Inl BufOverflow"
proof -
  have "special c" using schar_neg [OF assms] by (auto simp: special_def)
  moreover have "encode_loop (p @ [c]) (replicate (length (p @ [c]) +
      2 * length (filter special (p @ [c])) + 1) NUL) 0 = Inl BufOverflow"
    by (rule encode_loop_snoc_overflow [OF assms]) (simp add: \<open>special c\<close>)
  ultimately show ?thesis by (simp add: DM_ENG_encodeValue_def Let_def)
qed

theorem encode_overflow_non_ascii_witness:
  "DM_ENG_encodeValue (Str (''caf'' @ [CHR 0xE9])) = Inl BufOverflow"
  by (rule encode_overflow_non_ascii) simp

section \<open>Fault strings\<close>

definition FAULT_MESSAGES :: "string list" where
  "FAULT_MESSAGES =
    [''Method not supported'', ''Request denied (no reason specified)'', ''Internal error'',
     ''Invalid arguments'', ''Resources exceeded'', ''Invalid parameter name'',
     ''Invalid parameter type'', ''Invalid parameter value'',
     ''Attempt to set a non-writable parameter'', ''Notification request rejected'',
     ''Download failure'', ''Upload failure'', ''File transfer server authentication failure'',
     ''Unsupported protocol for file transfer'',
     ''Download failure: unable to join multicast group'',
     ''Download failure: unable to contact file server'',
     ''Download failure: unable to access file'',
     ''Download failure: unable to complete download'',
     ''Download failure: file corrupted'',
     ''Download failure: file authentication failure'',
     ''Vendor specific fault'']"

definition MAX_FAULT_MESSAGES :: int where "MAX_FAULT_MESSAGES = 20"

definition DM_ENG_getFaultString :: "int \<Rightarrow> string option" where
  "DM_ENG_getFaultString c =
     (let i = c - 9000
      in if 0 \<le> i \<and> i < MAX_FAULT_MESSAGES then Some (FAULT_MESSAGES ! nat i)
         else if 800 \<le> i \<and> i \<le> 899 then Some (FAULT_MESSAGES ! nat MAX_FAULT_MESSAGES)
         else None)"

lemma getFaultString_defined:
  "DM_ENG_getFaultString c \<noteq> None \<longleftrightarrow> (9000 \<le> c \<and> c < 9020) \<or> (9800 \<le> c \<and> c \<le> 9899)"
  by (auto simp: DM_ENG_getFaultString_def MAX_FAULT_MESSAGES_def Let_def)

end
