(* ===== verification/Csl.thy ===== *)
theory Csl
  imports Common
begin

text \<open>
  \<open>dm_engine/src/DM_ENG_Common.c\<close>: the comma-separated lists.  A list held in a C string is
  split into its items without the blanks around them; NULL is no list at all.  The lemmas
  relate the scanning loop to the fields between the commas.
\<close>

section \<open>Operations\<close>

text \<open>
  \<open>DM_ENG_splitCommaSeparatedList\<close> counts the separators, then scans one item per turn: it
  skips blanks, notes in \<open>fin\<close> the end of the last non-blank character and stops at the
  separator.
\<close>

fun csl_scan :: "string \<Rightarrow> string \<Rightarrow> string \<Rightarrow> string \<times> string" where
  "csl_scan [] seen item = (item, [])"
| "csl_scan (c # s) seen item =
     (if c = CHR '','' then (item, c # s)
      else if c \<noteq> CHR '' '' then csl_scan s (seen @ [c]) (seen @ [c])
      else csl_scan s (seen @ [c]) item)"

fun csl_loop :: "nat \<Rightarrow> string \<Rightarrow> string list" where
  "csl_loop 0 s = []"
| "csl_loop (Suc n) s =
     (let (item, r) = csl_scan (dropWhile (\<lambda>c. c = CHR '' '') s) [] []
      in item # csl_loop n (tl r))"

definition DM_ENG_splitCommaSeparatedList :: "cstr \<Rightarrow> string list option" where
  "DM_ENG_splitCommaSeparatedList ch =
     (if ch = Null then None
      else Some (csl_loop (Suc (length (filter (\<lambda>c. c = CHR '','') (ctext ch)))) (ctext ch)))"

definition DM_ENG_buildCommaSeparatedList :: "string list option \<Rightarrow> cstr" where
  "DM_ENG_buildCommaSeparatedList tCh =
     (case tCh of None \<Rightarrow> Null | Some [] \<Rightarrow> Null | Some l \<Rightarrow> Str (join CHR '','' l))"

definition DM_ENG_belongsToCommaSeparatedList :: "cstr \<Rightarrow> cstr \<Rightarrow> bool" where
  "DM_ENG_belongsToCommaSeparatedList csl ch =
     (if csl \<noteq> Null \<and> ch \<noteq> Null
      then ctext ch \<in> set (the (DM_ENG_splitCommaSeparatedList csl)) else False)"

definition DM_ENG_addToCommaSeparatedList :: "cstr \<Rightarrow> cstr \<Rightarrow> cstr" where
  "DM_ENG_addToCommaSeparatedList csl ch =
     (if \<not> DM_ENG_belongsToCommaSeparatedList csl ch
      then Str (ctext csl @ CHR '','' # ctext ch) else csl)"

text \<open>The loop of \<open>DM_ENG_deleteFromCommaSeparatedList\<close>: drop the first match, shift the rest.\<close>

fun del_first :: "string \<Rightarrow> string list \<Rightarrow> bool \<times> string list" where
  "del_first x [] = (False, [])"
| "del_first x (y # ys) =
     (if y = x then (True, ys) else let (t, l) = del_first x ys in (t, y # l))"

definition DM_ENG_deleteFromCommaSeparatedList :: "cstr \<Rightarrow> cstr \<Rightarrow> bool \<times> cstr" where
  "DM_ENG_deleteFromCommaSeparatedList csl ch =
     (if csl \<noteq> Null \<and> ch \<noteq> Null
      then let (trouve, l) = del_first (ctext ch) (the (DM_ENG_splitCommaSeparatedList csl))
           in if trouve then (True, DM_ENG_buildCommaSeparatedList (Some l)) else (False, csl)
      else (False, csl))"

text \<open>What the scan computes: the field without the blanks around it.\<close>

definition rtrim :: "string \<Rightarrow> string" where
  "rtrim s = rev (dropWhile (\<lambda>c. c = CHR '' '') (rev s))"

definition trim :: "string \<Rightarrow> string" where
  "trim s = rtrim (dropWhile (\<lambda>c. c = CHR '' '') s)"

lemma rtrim_snoc: "rtrim (s @ [c]) = (if c = CHR '' '' then rtrim s else s @ [c])"
  by (simp add: rtrim_def)

lemma csl_scan_gen:
  "csl_scan s seen (rtrim seen) =
     (rtrim (seen @ takeWhile (\<lambda>c. c \<noteq> CHR '','') s), dropWhile (\<lambda>c. c \<noteq> CHR '','') s)"
proof (induction s arbitrary: seen)
  case (Cons c s)
  show ?case
    using Cons.IH [of "seen @ [c]"]
    by (cases "c = CHR '' ''"; cases "c = CHR '',''") (simp_all add: rtrim_snoc)
qed simp

lemma csl_scan_rtrim:
  "csl_scan s [] [] = (rtrim (takeWhile (\<lambda>c. c \<noteq> CHR '','') s), dropWhile (\<lambda>c. c \<noteq> CHR '','') s)"
  using csl_scan_gen [of s "[]"] by (simp add: rtrim_def)

lemma skip_blank_take:
  "takeWhile (\<lambda>c. c \<noteq> CHR '','') (dropWhile (\<lambda>c. c = CHR '' '') s)
   = dropWhile (\<lambda>c. c = CHR '' '') (takeWhile (\<lambda>c. c \<noteq> CHR '','') s)"
  by (induction s) auto

lemma skip_blank_drop:
  "dropWhile (\<lambda>c. c \<noteq> CHR '','') (dropWhile (\<lambda>c. c = CHR '' '') s) = dropWhile (\<lambda>c. c \<noteq> CHR '','') s"
  by (induction s) auto

lemma fields_unfold:
  "fields_of d s = takeWhile (\<lambda>c. c \<noteq> d) s #
     (case dropWhile (\<lambda>c. c \<noteq> d) s of [] \<Rightarrow> [] | _ # r \<Rightarrow> fields_of d r)"
  by (induction s) (auto split: list.splits)

lemma csl_step:
  "csl_loop (Suc n) s = trim (takeWhile (\<lambda>c. c \<noteq> CHR '','') s) #
     csl_loop n (tl (dropWhile (\<lambda>c. c \<noteq> CHR '','') s))"
  by (simp add: csl_scan_rtrim skip_blank_take skip_blank_drop trim_def)

declare csl_loop.simps(2) [simp del]

lemma csl_loop_fields:
  "csl_loop (Suc (length (filter (\<lambda>c. c = CHR '','') s))) s = map trim (fields_of CHR '','' s)"
proof (induction "length (filter (\<lambda>c. c = CHR '','') s)" arbitrary: s)
  case 0
  then have "CHR '','' \<notin> set s" by (auto simp: filter_empty_conv)
  then have tw: "takeWhile (\<lambda>c. c \<noteq> CHR '','') s = s" by (auto simp: takeWhile_eq_all_conv)
  show ?case using 0 \<open>CHR '','' \<notin> set s\<close> by (simp add: csl_step fields_no_sep tw)
next
  case (Suc n)
  from Suc(2) have "filter (\<lambda>c. c = CHR '','') s \<noteq> []" by (metis Zero_not_Suc list.size(3))
  then have "CHR '','' \<in> set s" by (auto simp: filter_empty_conv)
  then obtain a r where s: "s = a @ CHR '','' # r" "CHR '','' \<notin> set a"
    by (meson split_list_first)
  then have a: "filter (\<lambda>c. c = CHR '','') a = []" by (auto simp: filter_empty_conv)
  with Suc(2) s have n: "n = length (filter (\<lambda>c. c = CHR '','') r)" by simp
  have "takeWhile (\<lambda>c. c \<noteq> CHR '','') s = a" "dropWhile (\<lambda>c. c \<noteq> CHR '','') s = CHR '','' # r"
    using s by simp_all
  then show ?case
    using Suc.hyps(1) [OF n] s a by (simp add: csl_step fields_append)
qed

lemma split_fields:
  "ch \<noteq> Null \<Longrightarrow>
   DM_ENG_splitCommaSeparatedList ch = Some (map trim (fields_of CHR '','' (ctext ch)))"
  by (simp add: DM_ENG_splitCommaSeparatedList_def csl_loop_fields)

definition csl_item :: "string \<Rightarrow> bool" where
  "csl_item s \<longleftrightarrow> CHR '','' \<notin> set s \<and> trim s = s"

lemma split_build [codec_simps]:
  "l \<noteq> [] \<Longrightarrow> \<forall>s \<in> set l. csl_item s \<Longrightarrow>
   DM_ENG_splitCommaSeparatedList (DM_ENG_buildCommaSeparatedList (Some l)) = Some l"
  by (cases l) (auto simp: DM_ENG_buildCommaSeparatedList_def split_fields fields_join csl_item_def
      intro: map_idI)

lemma belongs_iff:
  "DM_ENG_belongsToCommaSeparatedList csl ch \<longleftrightarrow>
   csl \<noteq> Null \<and> ch \<noteq> Null \<and> ctext ch \<in> set (map trim (fields_of CHR '','' (ctext csl)))"
  by (auto simp: DM_ENG_belongsToCommaSeparatedList_def split_fields)

lemma del_first_remove1: "del_first x l = (x \<in> set l, remove1 x l)"
  by (induction l) auto

end
