(* ===== verification/ParamType.thy ===== *)
theory ParamType
  imports Csl
begin

text \<open>
  \<open>dm_engine/src/DM_ENG_ParameterType.c\<close> with its enum, and
  \<open>dm_engine/src/DM_ENG_EntityType.c\<close>: the textual form of parameter types with their
  bounds, and the entities with the access list check.  The two bounds are C \<open>int\<close>s that the
  code also reads and writes through \<open>unsigned int*\<close>: they are 32-bit words here.
\<close>

section \<open>Parameter types\<close>

text \<open>
  The enum, with the constructor \<open>PT_CODE\<close> for an integer cast to it that names no
  enumerator (a one-digit type code in a data file).
\<close>

datatype DM_ENG_ParameterType =
    PT_INT | PT_UINT | PT_LONG | PT_BOOLEAN | PT_DATE | PT_STRING | PT_ANY | PT_STATISTICS
  | PT_UNDEFINED | PT_CODE int

definition type_codes :: "DM_ENG_ParameterType list" where
  "type_codes = [PT_INT, PT_UINT, PT_LONG, PT_BOOLEAN, PT_DATE, PT_STRING, PT_ANY, PT_STATISTICS, PT_UNDEFINED]"

definition int_to_type :: "int \<Rightarrow> DM_ENG_ParameterType" where
  "int_to_type i = (if 0 \<le> i \<and> i < 9 then type_codes ! nat i else PT_CODE i)"

fun type_to_int :: "DM_ENG_ParameterType \<Rightarrow> int" where
  "type_to_int PT_INT = 0"
| "type_to_int PT_UINT = 1"
| "type_to_int PT_LONG = 2"
| "type_to_int PT_BOOLEAN = 3"
| "type_to_int PT_DATE = 4"
| "type_to_int PT_STRING = 5"
| "type_to_int PT_ANY = 6"
| "type_to_int PT_STATISTICS = 7"
| "type_to_int PT_UNDEFINED = 8"
| "type_to_int (PT_CODE i) = i"

type_synonym i32 = "32 word"

definition w_INT_MIN :: i32 where "w_INT_MIN = 0x80000000"
definition w_INT_MAX :: i32 where "w_INT_MAX = 0x7FFFFFFF"
definition w_UINT_MAX :: i32 where "w_UINT_MAX = 0xFFFFFFFF"

definition opt_field :: "string list \<Rightarrow> nat \<Rightarrow> cstr" where
  "opt_field fs i = (if i < length fs then Str (fs ! i) else Null)"

text \<open>
  \<open>DM_ENG_stringToType(str, pMin, pMax)\<close>: the loop cuts \<open>str\<close> at every colon and keeps the
  pieces after the first and the second one.  The result is the type with the values left in
  \<open>*pMin\<close> and \<open>*pMax\<close>, which keep what they held (\<open>mn0\<close>, \<open>mx0\<close>) for the other types.
\<close>

definition type_name :: "string \<Rightarrow> DM_ENG_ParameterType" where
  "type_name str =
     (if length str = 1
      then let i = DM_ENG_charToInt (hd str)
           in if i = -1 then PT_UNDEFINED else int_to_type i
      else if strcaseeq str ''INT'' then PT_INT
      else if strcaseeq str ''UINT'' then PT_UINT
      else if strcaseeq str ''LONG'' then PT_LONG
      else if strcaseeq str ''BOOLEAN'' then PT_BOOLEAN
      else if strcaseeq str ''DATE'' then PT_DATE
      else if strcaseeq str ''STRING'' then PT_STRING
      else if strcaseeq str ''STATISTICS'' then PT_STATISTICS
      else if strcaseeq str ''ANY'' then PT_ANY
      else PT_UNDEFINED)"

definition int_or :: "i32 \<Rightarrow> cstr \<Rightarrow> i32" where
  "int_or d f = (case DM_ENG_stringToInt f of None \<Rightarrow> d | Some v \<Rightarrow> word_of_int v)"

definition uint_or :: "i32 \<Rightarrow> cstr \<Rightarrow> i32" where
  "uint_or d f = (case DM_ENG_stringToUint f of None \<Rightarrow> d | Some v \<Rightarrow> v)"

definition DM_ENG_stringToType ::
    "string \<Rightarrow> i32 \<Rightarrow> i32 \<Rightarrow> DM_ENG_ParameterType \<times> i32 \<times> i32" where
  "DM_ENG_stringToType str mn0 mx0 =
     (let fs = fields_of CHR '':'' str;
          mn = opt_field fs 1; mx = opt_field fs 2;
          type = type_name (hd fs)
      in if type = PT_INT then (type, int_or w_INT_MIN mn, int_or w_INT_MAX mx)
         else if type = PT_UINT \<or> type = PT_ANY \<or> type = PT_STATISTICS
         then (type, uint_or 0 mn, uint_or w_UINT_MAX mx)
         else if type = PT_STRING then (type, int_or (- 1) mn, mx0)
         else (type, mn0, mx0))"

definition DM_ENG_typeToString :: "DM_ENG_ParameterType \<Rightarrow> i32 \<Rightarrow> i32 \<Rightarrow> string" where
  "DM_ENG_typeToString type mn mx =
     deci (type_to_int type) @
     (if type = PT_INT then
        (if sint mn > INT_MIN \<or> sint mx < INT_MAX then
           (if sint mx \<ge> INT_MAX then '':'' @ deci (sint mn)
            else if sint mn \<le> INT_MIN then ''::'' @ deci (sint mx)
            else '':'' @ deci (sint mn) @ '':'' @ deci (sint mx))
         else [])
      else if type = PT_UINT \<or> type = PT_ANY \<or> type = PT_STATISTICS then
        (if unat mn > 0 \<or> unat mx < UINT_MAX then
           (if unat mx \<ge> UINT_MAX then '':'' @ dec (unat mn)
            else if unat mn = 0 then ''::'' @ dec (unat mx)
            else '':'' @ dec (unat mn) @ '':'' @ dec (unat mx))
         else [])
      else if type = PT_STRING then (if sint mn > -1 then '':'' @ deci (sint mn) else [])
      else [])"

section \<open>The textual form is read back\<close>

lemma sint_range: "INT_MIN \<le> sint (w :: i32) \<and> sint w \<le> INT_MAX"
  using sint_greater_eq [of w] sint_less [of w] by (simp add: c_limits)

lemma deci_no_colon [simp]: "CHR '':'' \<notin> set (deci i)"
  by (auto dest!: deci_chars simp: isdigit_def)

lemma dec_no_colon [simp]: "CHR '':'' \<notin> set (dec n)"
  by (auto dest!: dec_digits simp: isdigit_def)

lemma stringToInt_sint [simp]: "DM_ENG_stringToInt (Str (deci (sint (w :: i32)))) = Some (sint w)"
  using stringToInt_deci [of "sint w"] sint_range [of w] by (simp add: DM_ENG_intToString_def)

lemma stringToUint_unat [simp]: "DM_ENG_stringToUint (Str (dec (unat (w :: i32)))) = Some w"
  using stringToUint_dec [of w] by (simp add: uintToString_dec)

lemma stringToInt_empty [simp]: "DM_ENG_stringToInt (Str []) = None" "DM_ENG_stringToInt Null = None"
  by (simp_all add: DM_ENG_stringToInt_def)

lemma stringToUint_empty [simp]: "DM_ENG_stringToUint (Str []) = None" "DM_ENG_stringToUint Null = None"
  by (simp_all add: DM_ENG_stringToUint_def)

definition proper_type :: "DM_ENG_ParameterType \<Rightarrow> bool" where
  "proper_type t \<longleftrightarrow> t \<in> set type_codes"

lemma deci_small: "0 \<le> i \<Longrightarrow> i < 10 \<Longrightarrow> deci i = [digit (nat i)]"
  by (simp add: deci_def dec.simps)

lemma charToInt_digit: "d < 10 \<Longrightarrow> DM_ENG_charToInt (digit d) = int d"
  by (simp add: DM_ENG_charToInt_def code_digit)

lemma type_to_int_range: "proper_type t \<Longrightarrow> 0 \<le> type_to_int t \<and> type_to_int t < 9"
  by (auto simp: proper_type_def type_codes_def)

lemma int_to_type_inv: "proper_type t \<Longrightarrow> int_to_type (type_to_int t) = t"
  by (auto simp: proper_type_def type_codes_def int_to_type_def nth_Cons')

lemma type_name_deci: "proper_type t \<Longrightarrow> type_name (deci (type_to_int t)) = t"
proof -
  assume t: "proper_type t"
  with type_to_int_range [of t]
  have "DM_ENG_charToInt (digit (nat (type_to_int t))) = type_to_int t" "0 \<le> type_to_int t"
    "deci (type_to_int t) = [digit (nat (type_to_int t))]"
    by (auto simp: deci_small charToInt_digit)
  with int_to_type_inv [OF t] show ?thesis by (simp add: type_name_def Let_def)
qed

lemma INT_MIN_word: "sint (w :: i32) \<le> INT_MIN \<Longrightarrow> w = w_INT_MIN"
  and INT_MAX_word: "sint (w :: i32) \<ge> INT_MAX \<Longrightarrow> w = w_INT_MAX"
  and UINT_MAX_word: "unat (w :: i32) \<ge> UINT_MAX \<Longrightarrow> w = w_UINT_MAX"
proof -
  assume "sint w \<le> INT_MIN"
  then have "sint w = sint w_INT_MIN" using sint_range [of w] by (simp add: c_limits w_INT_MIN_def)
  then show "w = w_INT_MIN" by (rule signed_word_eqI)
next
  assume "sint w \<ge> INT_MAX"
  then have "sint w = sint w_INT_MAX" using sint_range [of w] by (simp add: c_limits w_INT_MAX_def)
  then show "w = w_INT_MAX" by (rule signed_word_eqI)
next
  assume "unat w \<ge> UINT_MAX"
  then have "unat w = unat w_UINT_MAX"
    using unat_le_UINT_MAX [of w] by (simp add: c_limits w_UINT_MAX_def)
  then show "w = w_UINT_MAX" by (rule unsigned_word_eqI)
qed

lemma unat_0_word: "unat (w :: i32) = 0 \<Longrightarrow> w = 0"
  by (rule unsigned_word_eqI) simp

lemma fields_type:
  "fields_of CHR '':'' (deci i) = [deci i]"
  "fields_of CHR '':'' (deci i @ CHR '':'' # s) = deci i # fields_of CHR '':'' s"
  "fields_of CHR '':'' (dec n) = [dec n]"
  "fields_of CHR '':'' (dec n @ CHR '':'' # s) = dec n # fields_of CHR '':'' s"
  by (simp_all add: fields_no_sep fields_append)

lemma type_round_trip:
  assumes "proper_type t"
  shows "DM_ENG_stringToType (DM_ENG_typeToString t mn mx) mn0 mx0 =
     (t, if t \<in> {PT_INT, PT_UINT, PT_ANY, PT_STATISTICS} then mn
         else if t = PT_STRING then (if sint mn > -1 then mn else - 1) else mn0,
      if t \<in> {PT_INT, PT_UINT, PT_ANY, PT_STATISTICS} then mx else mx0)"
proof -
  have nth: "opt_field (a # fs) (Suc i) = opt_field fs i" "opt_field [] i = Null"
    "opt_field (a # fs) 0 = Str a" for a fs i
    by (simp_all add: opt_field_def)
  have num: "opt_field fs 1 = opt_field fs (Suc 0)" "opt_field fs 2 = opt_field fs (Suc (Suc 0))" for fs
    by (simp_all add: numeral_2_eq_2)
  note read = DM_ENG_stringToType_def DM_ENG_typeToString_def Let_def fields_type type_name_deci
    int_or_def uint_or_def nth num not_less not_le
  note bounds = INT_MIN_word INT_MAX_word UINT_MAX_word unat_0_word
  show ?thesis
    using assms type_name_deci [OF assms]
    by (cases t) (auto simp: read dest: bounds intro: bounds)
qed

text \<open>
  a type with its bounds, printed for the data file by \<open>DM_ENG_typeToString\<close>, is read back
  by \<open>DM_ENG_stringToType\<close>, whatever the two output variables held: both bounds of the integer
  and object types, the maximal length of strings.
\<close>

theorem stringToType_typeToString:
  assumes "proper_type t"
  shows "DM_ENG_stringToType (DM_ENG_typeToString t mn mx) mn0 mx0 =
     (t, if t \<in> {PT_INT, PT_UINT, PT_ANY, PT_STATISTICS} then mn
         else if t = PT_STRING then (if sint mn > -1 then mn else - 1) else mn0,
      if t \<in> {PT_INT, PT_UINT, PT_ANY, PT_STATISTICS} then mx else mx0)"
  using assms by (rule type_round_trip)

theorem stringToType_typeToString_witness:
  "proper_type PT_INT \<and> DM_ENG_stringToType (DM_ENG_typeToString PT_INT (- 5) 7) 0 0 = (PT_INT, - 5, 7)"
proof -
  have "proper_type PT_INT" by (simp add: proper_type_def type_codes_def)
  from stringToType_typeToString [OF this, of "- 5" 7 0 0] this show ?thesis by simp
qed

lemma length_deci_sint: "length (deci (sint (w :: i32))) \<le> 11"
proof -
  have "nat \<bar>sint w\<bar> < 10 ^ 10"
    using sint_range [of w] by (simp add: c_limits nat_less_iff abs_less_iff)
  then have "length (dec (nat \<bar>sint w\<bar>)) \<le> 10" by (rule length_dec_le) simp
  then show ?thesis by (auto simp: deci_def)
qed

lemma length_dec_unat: "length (dec (unat (w :: i32))) \<le> 10"
proof -
  have "unat w < 10 ^ 10" using unat_le_UINT_MAX [of w] by (simp add: c_limits)
  then show ?thesis by (rule length_dec_le) simp
qed

definition MAX_STR_TYPE_LEN :: nat where "MAX_STR_TYPE_LEN = 30"

text \<open>
  the text of a type, with its terminating NUL, fits in the buffer of
  \<open>_MAX_STR_TYPE_LEN\<close> bytes, for every type code \<open>DM_ENG_newParameter\<close> can store.
\<close>

theorem typeToString_fits:
  assumes "0 \<le> type_to_int t" "type_to_int t \<le> 9"
  shows "length (DM_ENG_typeToString t mn mx) + 1 \<le> MAX_STR_TYPE_LEN"
proof -
  have "length (deci (type_to_int t)) = 1" using assms by (simp add: deci_small)
  then show ?thesis
    using length_deci_sint [of mn] length_deci_sint [of mx] length_dec_unat [of mn] length_dec_unat [of mx]
    by (simp add: DM_ENG_typeToString_def MAX_STR_TYPE_LEN_def)
qed

theorem typeToString_fits_witness:
  "length (DM_ENG_typeToString PT_INT w_INT_MIN (- 7)) + 1 \<le> MAX_STR_TYPE_LEN"
  by (rule typeToString_fits) simp_all

section \<open>Entities\<close>

text \<open>The table \<open>_entities\<close> grows when an unknown name is met; an entity is its index.\<close>

definition DM_ENG_DEFAULT_ENTITIES :: "string list" where
  "DM_ENG_DEFAULT_ENTITIES = [''ACS'', ''SelfcareApp'', ''System'', ''Subscriber'', ''Any'']"

definition ENTITY_ACS :: nat where "ENTITY_ACS = 0"
definition ENTITY_SELFCARE_APP :: nat where "ENTITY_SELFCARE_APP = 1"
definition ENTITY_SYSTEM :: nat where "ENTITY_SYSTEM = 2"
definition ENTITY_SUBSCRIBER :: nat where "ENTITY_SUBSCRIBER = 3"
definition ENTITY_ANY :: nat where "ENTITY_ANY = 4"

lemmas entity_defs = ENTITY_ACS_def ENTITY_SELFCARE_APP_def ENTITY_SYSTEM_def
  ENTITY_SUBSCRIBER_def ENTITY_ANY_def

definition DM_ENG_DEFAULT_ACCESS_LIST :: "string list" where
  "DM_ENG_DEFAULT_ACCESS_LIST = [''Subscriber'']"

definition DM_ENG_EntityType_belongsTo :: "string list \<Rightarrow> nat \<Rightarrow> string list option \<Rightarrow> bool" where
  "DM_ENG_EntityType_belongsTo entities entity accessList =
     (if entity \<le> 2 then True
      else if entity \<ge> length entities \<or> accessList = None then False
      else (entities ! entity) \<in> set (the accessList))"

definition name_ok :: "string \<Rightarrow> bool" where
  "name_ok s \<longleftrightarrow> (\<forall>c \<in> set s. \<not> isspace c \<and> c \<noteq> CHR '','' \<and> c \<noteq> CHR '';'')"

fun find_index :: "string \<Rightarrow> string list \<Rightarrow> nat \<Rightarrow> int" where
  "find_index n [] i = -1"
| "find_index n (e # es) i = (if e = n then int i else find_index n es (Suc i))"

definition DM_ENG_EntityType_getEntityNumber :: "string list \<Rightarrow> string \<Rightarrow> int \<times> string list" where
  "DM_ENG_EntityType_getEntityNumber entities n =
     (let res = find_index n entities 0
      in if res = -1
         then if name_ok n then (int (length entities), entities @ [n]) else (-1, entities)
         else (res, entities))"

definition DM_ENG_EntityType_getEntityName :: "string list \<Rightarrow> nat \<Rightarrow> string option" where
  "DM_ENG_EntityType_getEntityName entities entity =
     (if entity < length entities then Some (entities ! entity) else None)"

lemma find_index_found:
  "n \<in> set es \<Longrightarrow> \<exists>k < length es. find_index n es i = int (i + k) \<and> es ! k = n"
proof (induction es arbitrary: i)
  case (Cons e es)
  show ?case
  proof (cases "e = n")
    case False
    with Cons obtain k where "k < length es" "find_index n es (Suc i) = int (Suc i + k)" "es ! k = n"
      by fastforce
    with False show ?thesis by (intro exI [of _ "Suc k"]) simp
  qed auto
qed simp

lemma find_index_absent: "n \<notin> set es \<Longrightarrow> find_index n es i = -1"
  by (induction es arbitrary: i) auto

text \<open>
  the entity table is a bijection between numbers and names that only grows: the number
  given for a name is the index of this name, a name that is refused leaves the table alone,
  the entities already numbered keep their numbers and no name gets two of them.
\<close>

theorem getEntityNumber_correct:
  assumes "distinct es" and "DM_ENG_EntityType_getEntityNumber es n = (i, es')"
  shows "distinct es' \<and> take (length es) es' = es \<and>
    (if n \<in> set es \<or> name_ok n
     then i \<ge> 0 \<and> DM_ENG_EntityType_getEntityName es' (nat i) = Some n
     else i = -1 \<and> es' = es)"
proof (cases "n \<in> set es")
  case True
  from find_index_found [OF this, of 0] obtain k
    where "k < length es" "find_index n es 0 = int k" "es ! k = n" by auto
  with assms(2) have "i = int k" "es' = es"
    by (auto simp: DM_ENG_EntityType_getEntityNumber_def Let_def)
  with \<open>es ! k = n\<close> \<open>k < length es\<close> assms(1) True show ?thesis
    by (simp add: DM_ENG_EntityType_getEntityName_def)
next
  case False
  with assms show ?thesis
    by (auto simp: DM_ENG_EntityType_getEntityNumber_def DM_ENG_EntityType_getEntityName_def Let_def
        find_index_absent split: if_splits)
qed

theorem getEntityNumber_correct_witness:
  "DM_ENG_EntityType_getEntityNumber DM_ENG_DEFAULT_ENTITIES ''Box'' = (5, DM_ENG_DEFAULT_ENTITIES @ [''Box'']) \<and>
   DM_ENG_EntityType_getEntityName (DM_ENG_DEFAULT_ENTITIES @ [''Box'']) 5 = Some ''Box''"
proof -
  have d: "distinct DM_ENG_DEFAULT_ENTITIES" by (simp add: DM_ENG_DEFAULT_ENTITIES_def)
  have n: "DM_ENG_EntityType_getEntityNumber DM_ENG_DEFAULT_ENTITIES ''Box'' =
      (5, DM_ENG_DEFAULT_ENTITIES @ [''Box''])"
    by (simp add: DM_ENG_EntityType_getEntityNumber_def DM_ENG_DEFAULT_ENTITIES_def name_ok_def isspace_def)
  have "name_ok ''Box''" by (simp add: name_ok_def isspace_def)
  with getEntityNumber_correct [OF d n] n show ?thesis by simp
qed

end
