(* ===== verification/Dates.thy ===== *)
theory Dates
  imports Common
begin

text \<open>
  The two date conversions of \<open>dm_engine/src/DM_ENG_Common.c\<close> with the C library calls they
  make: \<open>sscanf\<close> with \<open>%d\<close>, \<open>mktime\<close> and \<open>gmtime\<close>.  \<open>tz\<close> is the offset of the local standard
  time, in seconds west of UTC: \<open>mktime\<close> reads the broken-down time as local standard time
  (\<open>tm_isdst\<close> is 0), so it adds \<open>tz\<close>; the code subtracts the same offset, obtained from a
  \<open>mktime(gmtime(86400))\<close>.  The calendar is the proleptic Gregorian one.
\<close>

section \<open>The calendar\<close>

text \<open>Days from 1970-01-01 to the first day of March of year 0 are -719468.\<close>

definition days_of_civil :: "int \<Rightarrow> int \<Rightarrow> int \<Rightarrow> int" where
  "days_of_civil y m d =
     (let y' = (if m \<le> 2 then y - 1 else y);
          era = y' div 400; yoe = y' mod 400;
          doy = (153 * (if m > 2 then m - 3 else m + 9) + 2) div 5 + d - 1;
          doe = yoe * 365 + yoe div 4 - yoe div 100 + doy
      in era * 146097 + doe - 719468)"

definition yoe_of_doe :: "int \<Rightarrow> int" where
  "yoe_of_doe doe = (doe - doe div 1460 + doe div 36524 - doe div 146096) div 365"

definition civil_of_days :: "int \<Rightarrow> int \<times> int \<times> int" where
  "civil_of_days z =
     (let z' = z + 719468; era = z' div 146097; doe = z' mod 146097;
          yoe = yoe_of_doe doe;
          doy = doe - (365 * yoe + yoe div 4 - yoe div 100);
          mp = (5 * doy + 2) div 153;
          d = doy - (153 * mp + 2) div 5 + 1;
          m = (if mp < 10 then mp + 3 else mp - 9);
          y = yoe + era * 400 + (if m \<le> 2 then 1 else 0)
      in (y, m, d))"

text \<open>The fields of \<open>struct tm\<close> that the code sets: year (from 1900), month (from 0), day, time.\<close>

record tm =
  tm_year :: int
  tm_mon :: int
  tm_mday :: int
  tm_hour :: int
  tm_min :: int
  tm_sec :: int

definition timegm :: "tm \<Rightarrow> int" where
  "timegm ts =
     (let y = tm_year ts + 1900 + tm_mon ts div 12; m = tm_mon ts mod 12 + 1
      in (days_of_civil y m 1 + tm_mday ts - 1) * 86400
         + tm_hour ts * 3600 + tm_min ts * 60 + tm_sec ts)"

definition mktime :: "int \<Rightarrow> tm \<Rightarrow> int" where
  "mktime tz ts = timegm ts + tz"

definition gmtime :: "int \<Rightarrow> tm" where
  "gmtime t =
     (let (y, m, d) = civil_of_days (t div 86400); s = t mod 86400
      in \<lparr> tm_year = y - 1900, tm_mon = m - 1, tm_mday = d,
           tm_hour = s div 3600, tm_min = s mod 3600 div 60, tm_sec = s mod 60 \<rparr>)"

section \<open>The conversions\<close>

text \<open>\<open>%d\<close>: the value of \<open>strtol\<close>, truncated to \<open>int\<close>; \<open>None\<close> when there is no digit.\<close>

definition scan_d :: "string \<Rightarrow> (int \<times> string) option" where
  "scan_d s =
     (let s1 = snd (sign_part (dropWhile isspace s)); ds = takeWhile isdigit s1
      in if ds = [] then None
         else Some (sint (word_of_int (atol s) :: 32 word), dropWhile isdigit s1))"

fun scan_lit :: "char \<Rightarrow> string \<Rightarrow> string option" where
  "scan_lit c [] = None"
| "scan_lit c (x # s) = (if x = c then Some s else None)"

text \<open>One \<open>%d\<close> for each separator that follows; the last one is followed by none.\<close>

fun scan_fields :: "string \<Rightarrow> string \<Rightarrow> int list option" where
  "scan_fields [] s = (case scan_d s of None \<Rightarrow> None | Some (v, _) \<Rightarrow> Some [v])"
| "scan_fields (c # cs) s =
     (case scan_d s of
        None \<Rightarrow> None
      | Some (v, r) \<Rightarrow>
          (case scan_lit c r of
             None \<Rightarrow> None
           | Some r' \<Rightarrow> map_option ((#) v) (scan_fields cs r')))"

definition DM_ENG_dateStringToTime :: "int \<Rightarrow> cstr \<Rightarrow> int option" where
  "DM_ENG_dateStringToTime tz ch =
     (if ctext ch = [] then None
      else let left = takeWhile (\<lambda>c. c \<noteq> CHR ''.'') (ctext ch);
               res = (case scan_fields ''--T::'' left of
                   Some [y, mo, d, h, mi, s] \<Rightarrow>
                     (if (y, mo, d, h, mi, s) = (1, 1, 1, 0, 0, 0) then 0
                      else let res = mktime tz \<lparr> tm_year = y - 1900, tm_mon = mo - 1, tm_mday = d,
                                 tm_hour = h, tm_min = mi, tm_sec = s \<rparr>
                           in if res \<noteq> -1 then res + (86400 - mktime tz (gmtime 86400)) else res)
                 | _ \<Rightarrow> -1)
           in if res = -1 then None else Some res)"

text \<open>\<open>%.Nd\<close> on a non-negative value.\<close>

definition fmt_pad :: "nat \<Rightarrow> int \<Rightarrow> string" where
  "fmt_pad n v = (if v < 0 then CHR ''-'' # replicate (n - length (dec (nat (- v)))) (CHR ''0'') @ dec (nat (- v))
                  else replicate (n - length (dec (nat v))) (CHR ''0'') @ dec (nat v))"

definition DM_ENG_UNKNOWN_TIME :: string where
  "DM_ENG_UNKNOWN_TIME = ''0001-01-01T00:00:00Z''"

definition DM_ENG_dateTimeToString :: "int \<Rightarrow> string" where
  "DM_ENG_dateTimeToString t =
     (let pT = gmtime t
      in if t \<le> 0 then DM_ENG_UNKNOWN_TIME
         else fmt_pad 4 (1900 + tm_year pT) @ ''-'' @ fmt_pad 2 (1 + tm_mon pT) @ ''-'' @
              fmt_pad 2 (tm_mday pT) @ ''T'' @ fmt_pad 2 (tm_hour pT) @ '':'' @
              fmt_pad 2 (tm_min pT) @ '':'' @ fmt_pad 2 (tm_sec pT) @ ''Z'')"

section \<open>The local time zone cancels out\<close>

text \<open>The correction by \<open>mktime(gmtime(&t0))\<close> removes the offset \<open>mktime\<close> added.\<close>

lemma gmtime_day1: "gmtime 86400 = \<lparr> tm_year = 70, tm_mon = 0, tm_mday = 2, tm_hour = 0, tm_min = 0, tm_sec = 0 \<rparr>"
  by code_simp

lemma timegm_gmtime_day1: "timegm (gmtime 86400) = 86400"
  by (simp add: gmtime_day1 timegm_def days_of_civil_def Let_def)

text \<open>
  a date is read as UTC whatever the time zone of the device, except for the one date whose
  local reading is the error value -1 of \<open>mktime\<close>.
\<close>

theorem dateStringToTime_utc:
  assumes "scan_fields ''--T::'' (takeWhile (\<lambda>c. c \<noteq> CHR ''.'') s) = Some [y, mo, d, h, mi, sec]"
    and "(y, mo, d, h, mi, sec) \<noteq> (1, 1, 1, 0, 0, 0)"
    and "ts = \<lparr> tm_year = y - 1900, tm_mon = mo - 1, tm_mday = d, tm_hour = h, tm_min = mi, tm_sec = sec \<rparr>"
    and "timegm ts \<noteq> -1" "timegm ts + tz \<noteq> -1"
  shows "DM_ENG_dateStringToTime tz (Str s) = Some (timegm ts)"
proof -
  have "s \<noteq> []" using assms(1) by (auto simp: scan_d_def)
  then show ?thesis
    using assms by (auto simp: DM_ENG_dateStringToTime_def mktime_def timegm_gmtime_day1 Let_def)
qed

theorem dateStringToTime_utc_witness:
  "DM_ENG_dateStringToTime (- 3600) (Str ''2010-07-26T12:00:05Z'') = Some 1280145605"
proof -
  have s: "scan_fields ''--T::'' (takeWhile (\<lambda>c. c \<noteq> CHR ''.'') ''2010-07-26T12:00:05Z'') = Some [2010, 7, 26, 12, 0, 5]"
    by code_simp
  show ?thesis
    by (rule dateStringToTime_utc [OF s _ refl, THEN trans]) (simp_all add: timegm_def days_of_civil_def Let_def)
qed

end
