(* ===== verification/Param.thy ===== *)
theory Param
  imports Encode ParamType Dates
begin

text \<open>
  \<open>dm_engine/src/DM_ENG_Parameter.c\<close>: one parameter of the data model with its attributes, its
  value and its state, and the operations on it.

  The struct is the record \<open>param\<close>.  The \<open>state\<close> attribute, an \<open>int\<close> used as a bit mask, is the
  record \<open>pstate\<close> of its five bits; \<open>state_to_int\<close> and \<open>int_to_state\<close> are the number stored in
  the data file.  An operation that writes the parameter returns it with a flag telling whether
  it executed \<open>_dataChanged = true\<close>.  The calls that \<open>DM_ENG_Parameter_commit\<close> makes into the
  inform scheduler are returned as a list of \<open>sched_call\<close>, in their order, and carried out by the
  scheduler of the engine.
\<close>

section \<open>Constants and types\<close>

definition PREFIX :: string where "PREFIX = ''Device.''"
definition DM_TR106_ACS_PASSWORD :: string where
  "DM_TR106_ACS_PASSWORD = PREFIX @ ''ManagementServer.Password''"
definition DM_TR106_CONNECTIONREQUESTPASSWORD :: string where
  "DM_TR106_CONNECTIONREQUESTPASSWORD = PREFIX @ ''ManagementServer.ConnectionRequestPassword''"
definition DM_TR106_STUN_PASSWORD :: string where
  "DM_TR106_STUN_PASSWORD = PREFIX @ ''ManagementServer.STUNPassword''"
definition DM_ENG_DEVICE_STATUS_PARAMETER_NAME :: string where
  "DM_ENG_DEVICE_STATUS_PARAMETER_NAME = PREFIX @ ''DeviceInfo.DeviceStatus''"

definition DM_ENG_NONE_STATE :: string where "DM_ENG_NONE_STATE = ''None''"
definition DM_ENG_REQUESTED_STATE :: string where "DM_ENG_REQUESTED_STATE = ''Requested''"
definition DM_ENG_DIAGNOSTICS_OBJECT_SUFFIX :: string where
  "DM_ENG_DIAGNOSTICS_OBJECT_SUFFIX = ''Diagnostics.''"
definition DM_ENG_DIAGNOSTICS_STATE_SUFFIX :: string where
  "DM_ENG_DIAGNOSTICS_STATE_SUFFIX = ''.DiagnosticsState''"

definition DM_ENG_INTERNAL_ERROR :: int where "DM_ENG_INTERNAL_ERROR = 9002"
definition DM_ENG_REQUEST_DENIED :: int where "DM_ENG_REQUEST_DENIED = 9001"
definition DM_ENG_INVALID_ARGUMENTS :: int where "DM_ENG_INVALID_ARGUMENTS = 9003"
definition DM_ENG_RESOURCES_EXCEEDED :: int where "DM_ENG_RESOURCES_EXCEEDED = 9004"
definition DM_ENG_INVALID_PARAMETER_NAME :: int where "DM_ENG_INVALID_PARAMETER_NAME = 9005"
definition DM_ENG_INVALID_PARAMETER_TYPE :: int where "DM_ENG_INVALID_PARAMETER_TYPE = 9006"
definition DM_ENG_INVALID_PARAMETER_VALUE :: int where "DM_ENG_INVALID_PARAMETER_VALUE = 9007"
definition DM_ENG_READ_ONLY_PARAMETER :: int where "DM_ENG_READ_ONLY_PARAMETER = 9008"
definition DM_ENG_NOTIFICATION_REQUEST_REJECTED :: int where "DM_ENG_NOTIFICATION_REQUEST_REJECTED = 9009"

lemmas error_codes = DM_ENG_INTERNAL_ERROR_def DM_ENG_REQUEST_DENIED_def DM_ENG_INVALID_ARGUMENTS_def
  DM_ENG_RESOURCES_EXCEEDED_def DM_ENG_INVALID_PARAMETER_NAME_def DM_ENG_INVALID_PARAMETER_TYPE_def
  DM_ENG_INVALID_PARAMETER_VALUE_def DM_ENG_READ_ONLY_PARAMETER_def DM_ENG_NOTIFICATION_REQUEST_REJECTED_def

datatype DM_ENG_StorageMode = DM_ONLY | SYSTEM_ONLY | MIXED | COMPUTED | SM_CODE int

definition int_to_smode :: "int \<Rightarrow> DM_ENG_StorageMode" where
  "int_to_smode i = (if i = 0 then DM_ONLY else if i = 1 then SYSTEM_ONLY else if i = 2 then MIXED
     else if i = 3 then COMPUTED else SM_CODE i)"

fun smode_to_int :: "DM_ENG_StorageMode \<Rightarrow> int" where
  "smode_to_int DM_ONLY = 0"
| "smode_to_int SYSTEM_ONLY = 1"
| "smode_to_int MIXED = 2"
| "smode_to_int COMPUTED = 3"
| "smode_to_int (SM_CODE i) = i"

datatype DM_ENG_NotificationMode = NM_OFF | NM_PASSIVE | NM_ACTIVE | NM_UNDEFINED | NM_CODE int

definition int_to_nmode :: "int \<Rightarrow> DM_ENG_NotificationMode" where
  "int_to_nmode i = (if i = 0 then NM_OFF else if i = 1 then NM_PASSIVE else if i = 2 then NM_ACTIVE
     else if i = 3 then NM_UNDEFINED else NM_CODE i)"

fun nmode_to_int :: "DM_ENG_NotificationMode \<Rightarrow> int" where
  "nmode_to_int NM_OFF = 0"
| "nmode_to_int NM_PASSIVE = 1"
| "nmode_to_int NM_ACTIVE = 2"
| "nmode_to_int NM_UNDEFINED = 3"
| "nmode_to_int (NM_CODE i) = i"

text \<open>The \<open>char**\<close> of an access list: NULL, the shared default one, or one of its own.\<close>

datatype acl = ACL_NULL | ACL_DEFAULT | ACL "string list"

fun acl_list :: "acl \<Rightarrow> string list option" where
  "acl_list ACL_NULL = None"
| "acl_list ACL_DEFAULT = Some DM_ENG_DEFAULT_ACCESS_LIST"
| "acl_list (ACL l) = Some l"

record pstate =
  CHANGE_REQUESTED :: bool
  BEING_EVALUATED :: bool
  LOADED :: bool
  PUSHED :: bool
  VALUE_CHANGED :: bool

definition INITIAL :: pstate where
  "INITIAL = \<lparr> CHANGE_REQUESTED = False, BEING_EVALUATED = False, LOADED = False, PUSHED = False, VALUE_CHANGED = False \<rparr>"

definition state_to_int :: "pstate \<Rightarrow> int" where
  "state_to_int s = of_bool (VALUE_CHANGED s) + 2 * of_bool (CHANGE_REQUESTED s)
     + 4 * of_bool (BEING_EVALUATED s) + 8 * of_bool (LOADED s) + 16 * of_bool (PUSHED s)"

definition int_to_state :: "int \<Rightarrow> pstate" where
  "int_to_state i = \<lparr> CHANGE_REQUESTED = odd (i div 2), BEING_EVALUATED = odd (i div 4),
     LOADED = odd (i div 8), PUSHED = odd (i div 16), VALUE_CHANGED = odd i \<rparr>"

record param =
  p_name :: string
  p_type :: DM_ENG_ParameterType
  p_minValue :: i32
  p_maxValue :: i32
  p_storageMode :: DM_ENG_StorageMode
  p_writable :: bool
  p_immediateChanges :: int
  p_accessList :: acl
  p_notification :: DM_ENG_NotificationMode
  p_mandatoryNotification :: bool
  p_activeNotificationDenied :: bool
  p_loadingMode :: int
  p_state :: pstate
  p_backValue :: cstr
  p_value :: cstr
  p_configKey :: cstr
  p_definition :: cstr

datatype sched_call = CallDiagnosticsComplete | CallParameterValueChanged param

section \<open>Construction\<close>

definition nth_attr :: "string list \<Rightarrow> nat \<Rightarrow> string" where
  "nth_attr attr i = (if i < length attr then attr ! i else [])"

text \<open>\<open>DM_ENG_charToInt(*s)\<close> on the first byte, the NUL of an empty string included.\<close>

definition first_digit :: "string \<Rightarrow> int" where
  "first_digit s = DM_ENG_charToInt (if s = [] then NUL else hd s)"

definition str_or_null :: "string \<Rightarrow> cstr" where
  "str_or_null s = (if s = [] then Null else Str s)"

definition code_or :: "int \<Rightarrow> bool \<Rightarrow> bool" where
  "code_or i lit = (if i \<noteq> -1 then i \<noteq> 0 else lit)"

definition acl_of_attr :: "bool \<Rightarrow> string \<Rightarrow> acl" where
  "acl_of_attr ini s =
     (if s = [] then (if ini then ACL_DEFAULT else ACL_NULL)
      else if s = hd DM_ENG_DEFAULT_ACCESS_LIST then ACL_DEFAULT
      else ACL (the (DM_ENG_splitCommaSeparatedList (Str s))))"

definition DM_ENG_newParameter :: "string list \<Rightarrow> bool \<Rightarrow> param" where
  "DM_ENG_newParameter attrs ini =
     (let a = nth_attr attrs; d = (\<lambda>i. first_digit (a i));
          (type, mn, mx) = DM_ENG_stringToType (a 1) 0 0
      in \<lparr> p_name = PREFIX @ a 0, p_type = type, p_minValue = mn, p_maxValue = mx,
           p_storageMode = (if d 2 = -1 then DM_ONLY else int_to_smode (d 2)),
           p_writable = code_or (d 3) (a 3 = ''W''),
           p_immediateChanges = (if d 4 \<noteq> -1 then d 4 else if a 4 = ''Y'' then 1 else 0),
           p_accessList = acl_of_attr ini (a 8),
           p_notification = (if d 5 = -1 then NM_OFF else int_to_nmode (d 5)),
           p_mandatoryNotification = code_or (d 6) (a 6 = ''Y''),
           p_activeNotificationDenied = code_or (d 7) (a 7 = ''Y''),
           p_loadingMode = (if d 10 \<noteq> -1 then d 10 else 0),
           p_state = int_to_state (if d 11 \<noteq> -1 then d 11 else 0),
           p_backValue = str_or_null (a 12),
           p_value = str_or_null (a 9),
           p_configKey = str_or_null (a 13),
           p_definition = str_or_null (a 14) \<rparr>)"

definition DM_ENG_newInstanceParameter :: "string \<Rightarrow> param \<Rightarrow> param" where
  "DM_ENG_newInstanceParameter n proto =
     proto\<lparr> p_name := n,
       p_type := (if p_type proto = PT_STATISTICS then PT_ANY else p_type proto),
       p_minValue := (if p_type proto = PT_STATISTICS then 0 else p_minValue proto),
       p_loadingMode := of_bool (odd (p_loadingMode proto)),
       p_state := INITIAL,
       p_backValue := dup (p_backValue proto),
       p_value := dup (p_value proto),
       p_configKey := dup (p_configKey proto),
       p_definition := dup (p_definition proto) \<rparr>"

definition DM_ENG_newDefinedParameter :: "string \<Rightarrow> DM_ENG_ParameterType \<Rightarrow> cstr \<Rightarrow> bool \<Rightarrow> param" where
  "DM_ENG_newDefinedParameter n type def hidden =
     \<lparr> p_name = n, p_type = type, p_minValue = 0, p_maxValue = w_UINT_MAX,
       p_storageMode = DM_ONLY, p_writable = False, p_immediateChanges = 0,
       p_accessList = (if hidden then ACL (the (DM_ENG_splitCommaSeparatedList (Str ''_''))) else ACL_DEFAULT),
       p_notification = NM_OFF, p_mandatoryNotification = False, p_activeNotificationDenied = False,
       p_loadingMode = 0, p_state = INITIAL, p_backValue = Null, p_value = Null,
       p_configKey = Null, p_definition = dup def \<rparr>"

section \<open>Names\<close>

definition DM_ENG_Parameter_isNode :: "string \<Rightarrow> bool" where
  "DM_ENG_Parameter_isNode n \<longleftrightarrow> n \<noteq> [] \<and> last n = CHR ''.''"

text \<open>The loop of \<open>DM_ENG_Parameter_isNodeInstance\<close>, from the position \<open>k\<close> down.\<close>

fun isNodeInstance_loop :: "string \<Rightarrow> nat \<Rightarrow> bool" where
  "isNodeInstance_loop n 0 = False"
| "isNodeInstance_loop n (Suc k) =
     (if Suc k > 1 \<and> isdigit (n ! Suc k)
      then (if n ! k = CHR ''.'' then True else isNodeInstance_loop n k) else False)"

definition DM_ENG_Parameter_isNodeInstance :: "string \<Rightarrow> bool" where
  "DM_ENG_Parameter_isNodeInstance n \<longleftrightarrow>
     2 \<le> length n \<and> last n = CHR ''.'' \<and> isNodeInstance_loop n (length n - 2)"

definition DM_ENG_Parameter_isValuable :: "string \<Rightarrow> bool" where
  "DM_ENG_Parameter_isValuable n \<longleftrightarrow> \<not> DM_ENG_Parameter_isNode n \<and> \<not> strstrb n ''..''"

text \<open>
  The loop of \<open>DM_ENG_Parameter_getLongName\<close> cuts the copy of \<open>destName\<close> after each dot it
  meets from the right, until \<open>pts\<close> dots are met or the beginning is reached.
\<close>

fun cut_loop :: "string \<Rightarrow> nat \<Rightarrow> nat \<Rightarrow> string \<Rightarrow> string" where
  "cut_loop dest 0 pts cur = cur"
| "cut_loop dest (Suc len) pts cur =
     (let (cur', pts') = (if dest ! len = CHR ''.'' then (take (Suc len) dest, pts - 1) else (cur, pts))
      in if len > 0 \<and> pts' > 0 then cut_loop dest len pts' cur' else cur')"

definition DM_ENG_Parameter_getLongName :: "string \<Rightarrow> cstr \<Rightarrow> string" where
  "DM_ENG_Parameter_getLongName prmName destName =
     (let dest = ctext destName
      in if dest = [] \<or> prefixb PREFIX prmName then prmName
         else let pts = length (takeWhile (\<lambda>c. c = CHR ''.'') prmName);
                  rest = dropWhile (\<lambda>c. c = CHR ''.'') prmName
              in cut_loop dest (length dest) (if pts = 0 then 1 else pts) dest @ rest)"

definition suffixb :: "string \<Rightarrow> string \<Rightarrow> bool" where
  "suffixb suf s \<longleftrightarrow> length suf \<le> length s \<and> drop (length s - length suf) s = suf"

definition DM_ENG_Parameter_isDiagnosticsState :: "string \<Rightarrow> bool" where
  "DM_ENG_Parameter_isDiagnosticsState n \<longleftrightarrow>
     length n > length DM_ENG_DIAGNOSTICS_STATE_SUFFIX \<and> suffixb DM_ENG_DIAGNOSTICS_STATE_SUFFIX n"

text \<open>\<open>strstr\<close> as an offset, and the loop that finds the last occurrence of the object suffix.\<close>

fun strstr_pos :: "string \<Rightarrow> string \<Rightarrow> nat option" where
  "strstr_pos [] t = (if t = [] then Some 0 else None)"
| "strstr_pos (c # s) t = (if prefixb t (c # s) then Some 0 else map_option Suc (strstr_pos s t))"

lemma strstr_pos_le: "strstr_pos s t = Some k \<Longrightarrow> k + length t \<le> length s"
proof (induction s arbitrary: k)
  case (Cons c s)
  then show ?case by (auto simp: prefixb_iff split: if_splits) (metis length_Cons length_append le_add1)
qed (auto split: if_splits)

function diag_loop :: "string \<Rightarrow> nat \<Rightarrow> nat" where
  "diag_loop n i =
     (case strstr_pos (drop i n) DM_ENG_DIAGNOSTICS_OBJECT_SUFFIX of
        None \<Rightarrow> i
      | Some k \<Rightarrow> diag_loop n (i + k + length DM_ENG_DIAGNOSTICS_OBJECT_SUFFIX))"
  by pat_completeness auto
termination
proof (relation "measure (\<lambda>(n, i). length n - i)")
  fix n i k
  assume "strstr_pos (drop i n) DM_ENG_DIAGNOSTICS_OBJECT_SUFFIX = Some k"
  from strstr_pos_le [OF this]
  show "((n, i + k + length DM_ENG_DIAGNOSTICS_OBJECT_SUFFIX), n, i) \<in> measure (\<lambda>(n, i). length n - i)"
    by (auto simp: DM_ENG_DIAGNOSTICS_OBJECT_SUFFIX_def)
qed simp

declare diag_loop.simps [simp del]

text \<open>The object name when the parameter belongs to a diagnostics object.\<close>

definition DM_ENG_Parameter_isDiagnosticsParameter :: "string \<Rightarrow> string option" where
  "DM_ENG_Parameter_isDiagnosticsParameter n =
     (let i = diag_loop n 0 in if i \<noteq> 0 then Some (take i n) else None)"

section \<open>Attributes and values\<close>

definition DM_ENG_Parameter_setAttributes ::
    "param \<Rightarrow> DM_ENG_NotificationMode \<Rightarrow> acl \<Rightarrow> int \<times> param \<times> bool" where
  "DM_ENG_Parameter_setAttributes param notification accessList =
     (if notification = NM_ACTIVE \<and> p_activeNotificationDenied param
      then (DM_ENG_NOTIFICATION_REQUEST_REJECTED, param, False)
      else let p1 = (if notification \<noteq> NM_UNDEFINED then param\<lparr> p_notification := notification \<rparr> else param);
               p2 = (if accessList \<noteq> ACL_NULL then p1\<lparr> p_accessList := accessList \<rparr> else p1)
           in (0, p2, True))"

definition DM_ENG_Parameter_getValue :: "param \<Rightarrow> cstr \<times> param \<times> bool" where
  "DM_ENG_Parameter_getValue param =
     (if p_type param = PT_DATE \<and> (p_value param = Null \<or> p_value param = Empty)
      then (Str DM_ENG_UNKNOWN_TIME, param\<lparr> p_value := Str DM_ENG_UNKNOWN_TIME \<rparr>, True)
      else (dup (p_value param), param, False))"

definition DM_ENG_Parameter_getFilteredValue :: "param \<Rightarrow> cstr" where
  "DM_ENG_Parameter_getFilteredValue param =
     (if p_name param = DM_TR106_ACS_PASSWORD \<or> p_name param = DM_TR106_CONNECTIONREQUESTPASSWORD
         \<or> p_name param = DM_TR106_STUN_PASSWORD then Empty else p_value param)"

definition FLAG_TRIGGER :: int where "FLAG_TRIGGER = 3"

definition is_trigger :: "param \<Rightarrow> bool" where
  "is_trigger param \<longleftrightarrow> \<not> p_writable param \<and> p_immediateChanges param = FLAG_TRIGGER"

text \<open>
  \<open>DM_ENG_Parameter_initState\<close> compares the value of a trigger parameter with its trigger
  value by \<open>strcmp\<close>, without a test against NULL.
\<close>

definition DM_ENG_Parameter_initState :: "param \<Rightarrow> ub + param \<times> bool" where
  "DM_ENG_Parameter_initState param =
     (if p_state param = INITIAL then Inr (param, False)
      else let p = param\<lparr> p_state := INITIAL \<rparr>
      in if is_trigger param then
           (if p_backValue param = Null then Inr (p\<lparr> p_value := Null \<rparr>, True)
            else let b = ctext (p_backValue param)
                 in if CHR ''/'' \<in> set b
                    then if p_value param = Null then Inl NullDeref
                         else if ctext (p_value param) = tl (dropWhile (\<lambda>c. c \<noteq> CHR ''/'') b)
                         then Inr (p\<lparr> p_value := Str (takeWhile (\<lambda>c. c \<noteq> CHR ''/'') b) \<rparr>, True)
                         else Inr (p, True)
                    else Inr (p\<lparr> p_value := Str b \<rparr>, True))
         else Inr (p, True))"

definition DM_ENG_Parameter_commit :: "param \<Rightarrow> param \<times> sched_call list" where
  "DM_ENG_Parameter_commit param =
     (let p1 = param\<lparr> p_state := (p_state param)\<lparr> CHANGE_REQUESTED := False \<rparr> \<rparr>;
          p = (if p_backValue p1 \<noteq> Null \<and> p_writable p1 then p1\<lparr> p_backValue := Null \<rparr> else p1)
      in (p, if p_state p = INITIAL then []
             else (if DM_ENG_Parameter_isDiagnosticsState (p_name p) \<and> p_value p \<noteq> Null
                      \<and> ctext (p_value p) \<noteq> DM_ENG_NONE_STATE \<and> ctext (p_value p) \<noteq> DM_ENG_REQUESTED_STATE
                   then [CallDiagnosticsComplete] else []) @
                  (if (p_notification p = NM_ACTIVE \<and> DM_ENG_Parameter_isValuable (p_name p))
                      \<or> p_name p = DM_ENG_DEVICE_STATUS_PARAMETER_NAME
                   then [CallParameterValueChanged p] else [])))"

definition DM_ENG_Parameter_updateValue :: "param \<Rightarrow> cstr \<Rightarrow> bool \<Rightarrow> param \<times> sched_call list" where
  "DM_ENG_Parameter_updateValue param val newValue =
     (let p = param\<lparr> p_value := (if val = Null \<or> val = Empty then val else dup val) \<rparr>
      in if newValue
         then DM_ENG_Parameter_commit (p\<lparr> p_state := (p_state p)\<lparr> VALUE_CHANGED := True, PUSHED := True \<rparr> \<rparr>)
         else (p, []))"

text \<open>Unlike the other writers, it does not set \<open>_dataChanged\<close>.\<close>

definition DM_ENG_Parameter_resetValue :: "param \<Rightarrow> param" where
  "DM_ENG_Parameter_resetValue param =
     param\<lparr> p_value := (if DM_ENG_Parameter_isDiagnosticsState (p_name param)
                        then Str DM_ENG_NONE_STATE else Null) \<rparr>"

definition DM_ENG_Parameter_markLoaded :: "param \<Rightarrow> bool \<Rightarrow> param \<times> bool" where
  "DM_ENG_Parameter_markLoaded param withValues =
     (if withValues then
        let d1 = (p_value param = Null);
            p1 = (if d1 then param\<lparr> p_value := Empty \<rparr> else param);
            d2 = (p_storageMode p1 = COMPUTED \<and> \<not> LOADED (p_state p1));
            p2 = (if d2 then p1\<lparr> p_state := (p_state p1)\<lparr> LOADED := True \<rparr> \<rparr> else p1)
        in (p2, d1 \<or> d2)
      else if p_value param = Null \<and> p_backValue param = Null
           then (param\<lparr> p_backValue := Empty \<rparr>, True) else (param, False))"

text \<open>Whether the definition is a single name or number, up to blanks around it.\<close>

definition simple_definition :: "string \<Rightarrow> bool" where
  "simple_definition def \<longleftrightarrow>
     dropWhile (\<lambda>c. c = CHR '' '')
       (dropWhile (\<lambda>c. isalnum c \<or> c = CHR ''.'' \<or> c = CHR ''_'')
         (dropWhile (\<lambda>c. c = CHR '' '') def)) = []"

definition DM_ENG_Parameter_clearTemporaryValue :: "param \<Rightarrow> int \<Rightarrow> param \<times> bool" where
  "DM_ENG_Parameter_clearTemporaryValue param level =
     (if level = 2 \<or> (level = 1 \<and> ((DM_ENG_Parameter_isNode (p_name param) \<and> p_storageMode param \<noteq> MIXED)
                                    \<or> p_storageMode param = SYSTEM_ONLY))
      then let d1 = (p_backValue param \<noteq> Null \<and> (p_writable param \<or> p_immediateChanges param \<noteq> FLAG_TRIGGER));
               p1 = (if d1 then param\<lparr> p_backValue := Null \<rparr> else param);
               d2 = (p_value p1 \<noteq> Null \<and> (\<not> VALUE_CHANGED (p_state p1) \<or> level = 2));
               p2 = (if d2 then p1\<lparr> p_value := Null, p_state := INITIAL \<rparr> else p1)
           in (p2, d1 \<or> d2)
      else if p_storageMode param = COMPUTED
      then let d1 = (p_value param \<noteq> Null \<and> p_definition param \<noteq> Null
                     \<and> simple_definition (ctext (p_definition param)));
               p1 = (if d1 then param\<lparr> p_value := Null \<rparr> else param);
               d2 = (LOADED (p_state p1) \<or> PUSHED (p_state p1));
               p2 = (if d2 then p1\<lparr> p_state := (p_state p1)\<lparr> LOADED := False, PUSHED := False \<rparr> \<rparr> else p1)
           in (p2, d1 \<or> d2)
      else (param, False))"

text \<open>A test that also gives dates and booleans their default value.\<close>

definition DM_ENG_Parameter_isLoaded :: "param \<Rightarrow> bool \<Rightarrow> bool \<times> param \<times> bool" where
  "DM_ENG_Parameter_isLoaded param withValues =
     (let isNode = DM_ENG_Parameter_isNode (p_name param);
          d = (\<not> isNode \<and> (p_type param = PT_DATE \<or> p_type param = PT_BOOLEAN)
               \<and> (p_value param = Empty \<or> (p_storageMode param = DM_ONLY \<and> p_value param = Null)));
          p = (if d then param\<lparr> p_value := Str (if p_type param = PT_DATE then DM_ENG_UNKNOWN_TIME
                                               else DM_ENG_FALSE_STRING) \<rparr> else param)
      in ((p_value p \<noteq> Null \<and> (p_storageMode p \<noteq> COMPUTED \<or> LOADED (p_state p)))
          \<or> (\<not> isNode \<and> p_storageMode p = DM_ONLY)
          \<or> (\<not> withValues \<and> (\<not> isNode \<or> p_backValue p \<noteq> Null)), p, d))"

definition DM_ENG_Parameter_isValueChanged :: "param \<Rightarrow> bool" where
  "DM_ENG_Parameter_isValueChanged param = VALUE_CHANGED (p_state param)"

definition type_accepts :: "int \<Rightarrow> param \<Rightarrow> cstr \<Rightarrow> bool" where
  "type_accepts tz param val =
     (case p_type param of
        PT_INT \<Rightarrow> (case DM_ENG_stringToInt val of None \<Rightarrow> False
           | Some i \<Rightarrow> sint (p_minValue param) \<le> i \<and> i \<le> sint (p_maxValue param))
      | PT_UINT \<Rightarrow> (case DM_ENG_stringToUint val of None \<Rightarrow> False
           | Some u \<Rightarrow> p_minValue param \<le> u \<and> u \<le> p_maxValue param)
      | PT_LONG \<Rightarrow> DM_ENG_stringToLong val \<noteq> None
      | PT_BOOLEAN \<Rightarrow> DM_ENG_stringToBool val \<noteq> None
      | PT_DATE \<Rightarrow> DM_ENG_dateStringToTime tz val \<noteq> None
      | PT_STRING \<Rightarrow> val \<noteq> Null \<and> (sint (p_minValue param) = -1
           \<or> int (length (ctext val)) \<le> sint (p_minValue param))
      | _ \<Rightarrow> True)"

definition DM_ENG_Parameter_checkBeforeSetValue :: "int \<Rightarrow> param \<Rightarrow> cstr \<Rightarrow> int" where
  "DM_ENG_Parameter_checkBeforeSetValue tz param val =
     (if CHANGE_REQUESTED (p_state param) then DM_ENG_INVALID_ARGUMENTS
      else if type_accepts tz param val then 0 else DM_ENG_INVALID_PARAMETER_VALUE)"

definition DM_ENG_Parameter_setValue :: "param \<Rightarrow> cstr \<Rightarrow> int \<times> param" where
  "DM_ENG_Parameter_setValue param val =
     (if p_storageMode param = SYSTEM_ONLY \<or> p_storageMode param = MIXED then 1 else 0,
      param\<lparr> p_backValue := p_value param, p_value := dup val,
             p_state := (p_state param)\<lparr> CHANGE_REQUESTED := True, VALUE_CHANGED := True \<rparr> \<rparr>)"

definition DM_ENG_Parameter_isHidden :: "param \<Rightarrow> bool" where
  "DM_ENG_Parameter_isHidden param \<longleftrightarrow>
     (case acl_list (p_accessList param) of Some (e # _) \<Rightarrow> e = ''_'' | _ \<Rightarrow> False)"

definition DM_ENG_Parameter_addConfigKey :: "param \<Rightarrow> cstr \<Rightarrow> param \<times> bool" where
  "DM_ENG_Parameter_addConfigKey param configKey =
     (if configKey \<noteq> Null \<and> p_configKey param \<noteq> Null
      then (param\<lparr> p_configKey := DM_ENG_addToCommaSeparatedList (p_configKey param) configKey \<rparr>, True)
      else (param, False))"

definition DM_ENG_Parameter_removeConfigKey :: "param \<Rightarrow> cstr \<Rightarrow> bool \<times> param \<times> bool" where
  "DM_ENG_Parameter_removeConfigKey param configKey =
     (let (res, k) = DM_ENG_deleteFromCommaSeparatedList (p_configKey param) configKey
      in (res, param\<lparr> p_configKey := k \<rparr>, res))"

definition DM_ENG_Parameter_cancelChange :: "param \<Rightarrow> bool \<times> param" where
  "DM_ENG_Parameter_cancelChange param =
     (if CHANGE_REQUESTED (p_state param)
      then (True, param\<lparr> p_value := p_backValue param, p_backValue := Null, p_state := INITIAL \<rparr>)
      else (False, param))"

definition DM_ENG_Parameter_markBeingEvaluated :: "param \<Rightarrow> param" where
  "DM_ENG_Parameter_markBeingEvaluated param =
     param\<lparr> p_state := (p_state param)\<lparr> BEING_EVALUATED := True \<rparr> \<rparr>"

definition DM_ENG_Parameter_unmarkBeingEvaluated :: "param \<Rightarrow> param" where
  "DM_ENG_Parameter_unmarkBeingEvaluated param =
     param\<lparr> p_state := (p_state param)\<lparr> BEING_EVALUATED := False \<rparr> \<rparr>"

definition DM_ENG_Parameter_isBeingEvaluated :: "param \<Rightarrow> bool" where
  "DM_ENG_Parameter_isBeingEvaluated param = BEING_EVALUATED (p_state param)"

definition DM_ENG_Parameter_markPushed :: "param \<Rightarrow> param" where
  "DM_ENG_Parameter_markPushed param = param\<lparr> p_state := (p_state param)\<lparr> PUSHED := True \<rparr> \<rparr>"

definition DM_ENG_Parameter_unmarkPushed :: "param \<Rightarrow> param \<times> bool" where
  "DM_ENG_Parameter_unmarkPushed param =
     (if PUSHED (p_state param)
      then (param\<lparr> p_state := (p_state param)\<lparr> PUSHED := False \<rparr> \<rparr>, True) else (param, False))"

definition DM_ENG_Parameter_isPushed :: "param \<Rightarrow> bool" where
  "DM_ENG_Parameter_isPushed param = PUSHED (p_state param)"

lemmas param_op_defs =
  DM_ENG_Parameter_setAttributes_def DM_ENG_Parameter_getValue_def DM_ENG_Parameter_commit_def
  DM_ENG_Parameter_updateValue_def DM_ENG_Parameter_resetValue_def DM_ENG_Parameter_markLoaded_def
  DM_ENG_Parameter_clearTemporaryValue_def DM_ENG_Parameter_isLoaded_def DM_ENG_Parameter_setValue_def
  DM_ENG_Parameter_addConfigKey_def DM_ENG_Parameter_removeConfigKey_def DM_ENG_Parameter_cancelChange_def
  DM_ENG_Parameter_markBeingEvaluated_def DM_ENG_Parameter_unmarkBeingEvaluated_def
  DM_ENG_Parameter_markPushed_def DM_ENG_Parameter_unmarkPushed_def

section \<open>The state word\<close>

lemma int_to_state_state_to_int [simp]: "int_to_state (state_to_int s) = s"
proof -
  have "\<forall>c b l p v. int_to_state (state_to_int \<lparr> CHANGE_REQUESTED = c, BEING_EVALUATED = b, LOADED = l,
      PUSHED = p, VALUE_CHANGED = v \<rparr>) = \<lparr> CHANGE_REQUESTED = c, BEING_EVALUATED = b, LOADED = l,
      PUSHED = p, VALUE_CHANGED = v \<rparr>"
    by (auto simp: int_to_state_def state_to_int_def)
  then show ?thesis by (metis pstate.cases)
qed

lemma state_to_int_range: "0 \<le> state_to_int s" "state_to_int s \<le> 31"
  by (simp_all add: state_to_int_def)

section \<open>Node instances\<close>

lemma isNodeInstance_loop_iff:
  "k < length n \<Longrightarrow> isNodeInstance_loop n k \<longleftrightarrow>
     (\<exists>j\<ge>1. j < k \<and> n ! j = CHR ''.'' \<and> (\<forall>i. j < i \<and> i \<le> k \<longrightarrow> isdigit (n ! i)))"
proof (induction k)
  case (Suc k)
  have nd: "\<not> isdigit (CHR ''.'')" by (simp add: isdigit_def)
  show ?case
  proof (cases "Suc k > 1 \<and> isdigit (n ! Suc k)")
    case False
    then show ?thesis by auto
  next
    case True
    show ?thesis
    proof (cases "n ! k = CHR ''.''")
      case dot: True
      have "\<exists>j\<ge>1. j < Suc k \<and> n ! j = CHR ''.'' \<and> (\<forall>i. j < i \<and> i \<le> Suc k \<longrightarrow> isdigit (n ! i))"
        using True dot by (intro exI [of _ k]) (auto simp: le_Suc_eq)
      with True dot show ?thesis by simp
    next
      case nodot: False
      have "isNodeInstance_loop n (Suc k) = isNodeInstance_loop n k" using True nodot by simp
      also have "\<dots> \<longleftrightarrow> (\<exists>j\<ge>1. j < k \<and> n ! j = CHR ''.'' \<and> (\<forall>i. j < i \<and> i \<le> k \<longrightarrow> isdigit (n ! i)))"
        using Suc by simp
      also have "\<dots> \<longleftrightarrow> (\<exists>j\<ge>1. j < Suc k \<and> n ! j = CHR ''.'' \<and> (\<forall>i. j < i \<and> i \<le> Suc k \<longrightarrow> isdigit (n ! i)))"
        using True nodot by (auto simp: le_Suc_eq less_Suc_eq)
      finally show ?thesis .
    qed
  qed
qed simp

lemma node_instance_index:
  assumes "1 \<le> j" "Suc j < length n - 1" "n ! j = CHR ''.''" "last n = CHR ''.''"
    "\<forall>i. j < i \<and> i < length n - 1 \<longrightarrow> isdigit (n ! i)"
  shows "\<exists>a ds. n = a @ ''.'' @ ds @ ''.'' \<and> a \<noteq> [] \<and> ds \<noteq> [] \<and> (\<forall>c\<in>set ds. isdigit c)"
proof -
  define ds where "ds = take (length n - 1 - Suc j) (drop (Suc j) n)"
  have n: "n \<noteq> []" using assms by auto
  have l: "length ds = length n - 1 - Suc j" by (simp add: ds_def)
  have "n = take j n @ [n ! j] @ drop (Suc j) n" using assms id_take_nth_drop [of j n] by simp
  also have "drop (Suc j) n = ds @ [last n]"
  proof -
    have "drop (Suc j) n \<noteq> []" using assms by simp
    from append_butlast_last_id [OF this] have "drop (Suc j) n = butlast (drop (Suc j) n) @ [last (drop (Suc j) n)]" by simp
    then show ?thesis using assms by (simp add: ds_def butlast_conv_take)
  qed
  finally have "n = take j n @ ''.'' @ ds @ ''.''" using assms by simp
  moreover have "\<forall>c\<in>set ds. isdigit c"
  proof
    fix c assume "c \<in> set ds"
    then obtain i where "i < length ds" "c = ds ! i" by (auto simp: in_set_conv_nth)
    then show "isdigit c" using assms l by (auto simp: ds_def)
  qed
  moreover have "take j n \<noteq> []" using assms n by auto
  moreover have "ds \<noteq> []" using assms l by auto
  ultimately show ?thesis by blast
qed

text \<open>
  \<open>DM_ENG_Parameter_isNodeInstance\<close> recognises exactly the names of object instances: a
  non-empty object path, a dot, a non-empty run of digits and a final dot.
\<close>

theorem isNodeInstance_iff:
  "DM_ENG_Parameter_isNodeInstance n \<longleftrightarrow>
     (\<exists>a ds. n = a @ ''.'' @ ds @ ''.'' \<and> a \<noteq> [] \<and> ds \<noteq> [] \<and> (\<forall>c\<in>set ds. isdigit c))"
proof
  assume h: "DM_ENG_Parameter_isNodeInstance n"
  then have "length n - 2 < length n" "isNodeInstance_loop n (length n - 2)"
    unfolding DM_ENG_Parameter_isNodeInstance_def by auto
  then obtain j where "j \<ge> 1" "j < length n - 2" "n ! j = CHR ''.''"
    "\<forall>i. j < i \<and> i \<le> length n - 2 \<longrightarrow> isdigit (n ! i)"
    using isNodeInstance_loop_iff [of "length n - 2" n] by blast
  moreover have "last n = CHR ''.''" "2 \<le> length n"
    using h unfolding DM_ENG_Parameter_isNodeInstance_def by auto
  moreover have "i \<le> length n - 2" if "i < length n - 1" for i using that by arith
  ultimately show "\<exists>a ds. n = a @ ''.'' @ ds @ ''.'' \<and> a \<noteq> [] \<and> ds \<noteq> [] \<and> (\<forall>c\<in>set ds. isdigit c)"
    by (intro node_instance_index [of j]) auto
next
  assume "\<exists>a ds. n = a @ ''.'' @ ds @ ''.'' \<and> a \<noteq> [] \<and> ds \<noteq> [] \<and> (\<forall>c\<in>set ds. isdigit c)"
  then obtain a ds where n: "n = a @ ''.'' @ ds @ ''.''" "a \<noteq> []" "ds \<noteq> []" "\<forall>c\<in>set ds. isdigit c"
    by blast
  have "isNodeInstance_loop n (length n - 2)"
  proof (subst isNodeInstance_loop_iff)
    show "length n - 2 < length n" using n by auto
    show "\<exists>j\<ge>1. j < length n - 2 \<and> n ! j = CHR ''.'' \<and> (\<forall>i. j < i \<and> i \<le> length n - 2 \<longrightarrow> isdigit (n ! i))"
    proof (intro exI [of _ "length a"] conjI allI impI)
      show "1 \<le> length a" using n by (cases a) auto
      show "length a < length n - 2" using n by (cases ds) auto
      show "n ! length a = CHR ''.''" using n by simp
      fix i assume i: "length a < i \<and> i \<le> length n - 2"
      then have "n ! i = ds ! (i - Suc (length a))" "i - Suc (length a) < length ds"
        using n by (auto simp: nth_append nth_Cons')
      then show "isdigit (n ! i)" using n by auto
    qed
  qed
  then show "DM_ENG_Parameter_isNodeInstance n"
    using n unfolding DM_ENG_Parameter_isNodeInstance_def by (cases a) auto
qed

theorem isNodeInstance_iff_witness: "DM_ENG_Parameter_isNodeInstance ''Device.LAN.12.''"
  unfolding isNodeInstance_iff
  by (intro exI [of _ "''Device.LAN''"] exI [of _ "''12''"]) (simp add: isdigit_def)

section \<open>Long names\<close>

abbreviation dots :: "string \<Rightarrow> nat" where
  "dots s \<equiv> length (filter (\<lambda>c. c = CHR ''.'') s)"

lemma cut_loop_node:
  "k \<le> length b \<Longrightarrow>
     cut_loop (a @ ''.'' @ b) (Suc (length a) + k) (Suc (dots (take k b))) cur = a @ ''.''"
proof (induction k arbitrary: cur)
  case (Suc k)
  have n: "(a @ ''.'' @ b) ! (Suc (length a) + k) = b ! k" by (simp add: nth_append)
  have t: "take (Suc k) b = take k b @ [b ! k]" using Suc.prems by (simp add: take_Suc_conv_app_nth)
  show ?case using Suc n t by (cases "b ! k = CHR ''.''") (simp_all add: Let_def)
qed simp

text \<open>
  A name relative to a parameter designates a sibling of it: \<open>DM_ENG_Parameter_getLongName\<close>
  replaces the last component of the destination by the rest of the name, and each leading dot
  after the first one goes up one more level of the tree.
\<close>

theorem getLongName_relative:
  assumes "rest = [] \<or> hd rest \<noteq> CHR ''.''" "dots leaf = k - 1" "k = 0 \<longrightarrow> \<not> prefixb PREFIX rest"
  shows "DM_ENG_Parameter_getLongName (replicate k (CHR ''.'') @ rest) (Str (node @ ''.'' @ leaf))
    = node @ ''.'' @ rest"
proof -
  define dest where "dest = node @ ''.'' @ leaf"
  have t: "takeWhile (\<lambda>c. c = CHR ''.'') (replicate k (CHR ''.'') @ rest) = replicate k (CHR ''.'')"
    "dropWhile (\<lambda>c. c = CHR ''.'') (replicate k (CHR ''.'') @ rest) = rest"
    using assms(1) by (induction k; cases rest; auto)+
  have np: "\<not> prefixb PREFIX (replicate k (CHR ''.'') @ rest)"
    using assms(3) by (cases k) (auto simp: PREFIX_def)
  have pts: "(if k = 0 then 1 else k) = Suc (dots (take (length leaf) leaf))"
    using assms(2) by simp
  have "cut_loop dest (length dest) (if k = 0 then 1 else k) dest = node @ ''.''"
    unfolding pts dest_def using cut_loop_node [of "length leaf" leaf node] by simp
  moreover have "dest \<noteq> []" by (simp add: dest_def)
  ultimately show ?thesis
    using np unfolding dest_def [symmetric] DM_ENG_Parameter_getLongName_def
    by (simp add: Let_def t dest_def)
qed

theorem getLongName_relative_witness:
  "DM_ENG_Parameter_getLongName ''..Enable'' (Str ''Device.LAN.Stats.Sent'') = ''Device.LAN.Enable''"
  using getLongName_relative [of "''Enable''" "''Stats.Sent''" 2 "''Device.LAN''"]
  by (simp add: numeral_2_eq_2)

section \<open>Setting a value\<close>

lemma commit_not_requested: "\<not> CHANGE_REQUESTED (p_state (fst (DM_ENG_Parameter_commit p)))"
  by (simp add: DM_ENG_Parameter_commit_def Let_def)

lemma commit_value: "p_value (fst (DM_ENG_Parameter_commit p)) = p_value p"
  by (simp add: DM_ENG_Parameter_commit_def Let_def)

lemma commit_type:
  "p_type (fst (DM_ENG_Parameter_commit p)) = p_type p"
  "p_minValue (fst (DM_ENG_Parameter_commit p)) = p_minValue p"
  "p_maxValue (fst (DM_ENG_Parameter_commit p)) = p_maxValue p"
  by (simp_all add: DM_ENG_Parameter_commit_def Let_def)

lemma type_accepts_cong:
  "p_type p = p_type q \<Longrightarrow> p_minValue p = p_minValue q \<Longrightarrow> p_maxValue p = p_maxValue q \<Longrightarrow>
   type_accepts tz p = type_accepts tz q"
  by (rule ext) (simp only: type_accepts_def)

text \<open>
  C26: A value set is a transaction on the parameter.  Until it is closed a second change is
  refused; cancelling it gives the old value back, whatever was set; committing it keeps the new
  value, and the next change is then decided by the type alone.
\<close>

theorem setValue_transaction:
  assumes "DM_ENG_Parameter_checkBeforeSetValue tz p v = 0"
  shows "DM_ENG_Parameter_checkBeforeSetValue tz (snd (DM_ENG_Parameter_setValue p v)) w
       = DM_ENG_INVALID_ARGUMENTS \<and>
     DM_ENG_Parameter_cancelChange (snd (DM_ENG_Parameter_setValue p v))
       = (True, p\<lparr> p_backValue := Null, p_state := INITIAL \<rparr>) \<and>
     (let q = fst (DM_ENG_Parameter_commit (snd (DM_ENG_Parameter_setValue p v)))
      in p_value q = dup v \<and> (p_writable p \<longrightarrow> p_backValue q = Null) \<and>
         DM_ENG_Parameter_cancelChange q = (False, q) \<and>
         DM_ENG_Parameter_checkBeforeSetValue tz q w
           = (if type_accepts tz p w then 0 else DM_ENG_INVALID_PARAMETER_VALUE))"
proof -
  define q where "q = fst (DM_ENG_Parameter_commit (snd (DM_ENG_Parameter_setValue p v)))"
  have nc: "\<not> CHANGE_REQUESTED (p_state q)" unfolding q_def by (rule commit_not_requested)
  have a: "type_accepts tz q w = type_accepts tz p w" unfolding q_def
    by (simp add: type_accepts_cong [of "fst (DM_ENG_Parameter_commit x)" p for x] commit_type
        DM_ENG_Parameter_setValue_def)
  have "p_value q = dup v" unfolding q_def by (simp add: commit_value DM_ENG_Parameter_setValue_def)
  moreover have "p_writable p \<longrightarrow> p_backValue q = Null"
    unfolding q_def by (simp add: DM_ENG_Parameter_commit_def DM_ENG_Parameter_setValue_def Let_def)
  moreover have "DM_ENG_Parameter_cancelChange q = (False, q)"
    using nc by (simp add: DM_ENG_Parameter_cancelChange_def)
  moreover have "DM_ENG_Parameter_checkBeforeSetValue tz q w
           = (if type_accepts tz p w then 0 else DM_ENG_INVALID_PARAMETER_VALUE)"
    using nc a by (simp add: DM_ENG_Parameter_checkBeforeSetValue_def)
  moreover have "DM_ENG_Parameter_checkBeforeSetValue tz (snd (DM_ENG_Parameter_setValue p v)) w
       = DM_ENG_INVALID_ARGUMENTS"
    by (simp add: DM_ENG_Parameter_checkBeforeSetValue_def DM_ENG_Parameter_setValue_def)
  moreover have "DM_ENG_Parameter_cancelChange (snd (DM_ENG_Parameter_setValue p v))
       = (True, p\<lparr> p_backValue := Null, p_state := INITIAL \<rparr>)"
    by (simp add: DM_ENG_Parameter_cancelChange_def DM_ENG_Parameter_setValue_def)
  ultimately show ?thesis unfolding q_def [symmetric] Let_def by blast
qed

theorem setValue_transaction_witness:
  "let p = DM_ENG_newParameter [''X'', ''int:0:100'', ''0'', ''1'', ''0'', ''0'', ''0'', ''0'', [], ''5''] False
   in DM_ENG_Parameter_checkBeforeSetValue 0 p (Str ''12'') = 0 \<and>
      DM_ENG_Parameter_checkBeforeSetValue 0 (snd (DM_ENG_Parameter_setValue p (Str ''12''))) (Str ''13'')
        = DM_ENG_INVALID_ARGUMENTS"
proof -
  define p where "p = DM_ENG_newParameter [''X'', ''int:0:100'', ''0'', ''1'', ''0'', ''0'', ''0'', ''0'', [], ''5''] False"
  have h: "DM_ENG_Parameter_checkBeforeSetValue 0 p (Str ''12'') = 0" unfolding p_def by code_simp
  from setValue_transaction [OF h] h show ?thesis unfolding Let_def p_def [symmetric] by blast
qed

text \<open>
  C27: A parameter of type \<open>int\<close> with bounds accepts exactly the decimal numbers within its
  bounds, and a parameter of type \<open>unsignedInt\<close> exactly those within its unsigned bounds.
\<close>

theorem type_bounds_enforced:
  assumes "\<not> CHANGE_REQUESTED (p_state p)" "INT_MIN \<le> i" "i \<le> INT_MAX"
  shows "(p_type p = PT_INT \<longrightarrow>
      (DM_ENG_Parameter_checkBeforeSetValue tz p (Str (DM_ENG_intToString i)) = 0
        \<longleftrightarrow> sint (p_minValue p) \<le> i \<and> i \<le> sint (p_maxValue p))) \<and>
    (p_type p = PT_UINT \<longrightarrow>
      (DM_ENG_Parameter_checkBeforeSetValue tz p (Str (DM_ENG_uintToString u)) = 0
        \<longleftrightarrow> p_minValue p \<le> u \<and> u \<le> p_maxValue p))"
  using assms by (auto simp: DM_ENG_Parameter_checkBeforeSetValue_def type_accepts_def
      stringToInt_deci stringToUint_dec error_codes)

theorem type_bounds_enforced_witness:
  "let p = (DM_ENG_newParameter [''X'', ''int:0:100''] False)
   in DM_ENG_Parameter_checkBeforeSetValue 0 p (Str (DM_ENG_intToString 101)) \<noteq> 0"
proof -
  define p where "p = DM_ENG_newParameter [''X'', ''int:0:100''] False"
  have "DM_ENG_stringToType ''int:0:100'' 0 0 = (PT_INT, 0, 100)" by code_simp
  then have "p_type p = PT_INT" "p_minValue p = 0" "p_maxValue p = 100"
    unfolding p_def DM_ENG_newParameter_def by (simp_all add: nth_attr_def Let_def)
  moreover have "\<not> CHANGE_REQUESTED (p_state p)" unfolding p_def by code_simp
  ultimately show ?thesis using type_bounds_enforced [of p 101 0 0]
    unfolding Let_def p_def [symmetric] by (simp add: c_limits)
qed

text \<open>
  Initialising the state of a parameter dereferences NULL in exactly one situation: a pending
  trigger parameter with a trigger value after the slash of its back value and no value.
\<close>

theorem initState_crash_iff:
  "DM_ENG_Parameter_initState p = Inl e \<longleftrightarrow>
     e = NullDeref \<and> p_state p \<noteq> INITIAL \<and> \<not> p_writable p \<and> p_immediateChanges p = 3 \<and>
     CHR ''/'' \<in> set (ctext (p_backValue p)) \<and> p_value p = Null"
  by (cases "p_backValue p") (auto simp: DM_ENG_Parameter_initState_def is_trigger_def FLAG_TRIGGER_def Let_def)

lemma first_digit_Cons: "d < 10 \<Longrightarrow> first_digit (digit d # ds) = int d"
  by (simp add: first_digit_def DM_ENG_charToInt_def code_digit)

lemma first_digit_dec: "n < 100 \<Longrightarrow> first_digit (dec n) = int (if n < 10 then n else n div 10)"
  using first_digit_Cons [of "n div 10" "[digit (n mod 10)]"]
  by (auto simp: dec.simps [of n] dec.simps [of "n div 10"] first_digit_Cons)

lemma first_digit_state:
  "first_digit (DM_ENG_intToString (state_to_int s)) =
     (let n = state_to_int s in if n < 10 then n else n div 10)"
  using state_to_int_range [of s] first_digit_dec [of "nat (state_to_int s)"]
  by (auto simp: DM_ENG_intToString_def deci_def Let_def nat_less_iff nat_div_distrib zdiv_int)

text \<open>
  The state is stored as a decimal number but read back from its first digit: it is restored
  exactly when it is below ten, that is when \<open>PUSHED\<close> is clear and \<open>LOADED\<close> comes with at
  most \<open>VALUE_CHANGED\<close>.
\<close>

theorem state_restored_iff:
  "int_to_state (first_digit (DM_ENG_intToString (state_to_int s))) = s
     \<longleftrightarrow> \<not> PUSHED s \<and> (LOADED s \<longrightarrow> \<not> CHANGE_REQUESTED s \<and> \<not> BEING_EVALUATED s)"
  unfolding first_digit_state Let_def
  by (cases s; rename_tac c b l p v; case_tac c; case_tac b; case_tac l; case_tac p; case_tac v)
     (simp_all add: state_to_int_def int_to_state_def)

theorem state_restored_iff_witness:
  "int_to_state (first_digit (DM_ENG_intToString (state_to_int INITIAL))) = INITIAL"
  unfolding state_restored_iff by (simp add: INITIAL_def)

end
