(* ===== verification/Crc.thy ===== *)
theory Crc
  imports CNum
begin

unbundle bit_operations_syntax

text \<open>
  The checksum and the line layer of \<open>DM_DAT1_ParameterData.c\<close>, under the parameter file and
  the control file.

  \<open>crc32Table\<close> and \<open>updateCrc32\<close> are the table-driven CRC-32 of the code; \<open>crc_ref\<close>
  is the reference it implements, one byte at a time through the bitwise division.  The code
  keeps the checksum in an \<open>unsigned long\<close> that starts at 0 and only meets 32 bit operands:
  it is a \<open>32 word\<close> here.  A file is its content; \<open>readln\<close> reads a line from the rest of it
  and keeps the checksum and its verdict, as the static variables of the code do.
\<close>

section \<open>CRC-32\<close>

type_synonym crc = "32 word"

definition crc_bit :: "crc \<Rightarrow> crc" where
  "crc_bit c = (if c AND 1 \<noteq> 0 then 0xEDB88320 XOR drop_bit 1 c else drop_bit 1 c)"

definition crc32Table :: "nat \<Rightarrow> crc" where
  "crc32Table n = (crc_bit ^^ 8) (of_nat n)"

definition crc_byte :: "crc \<Rightarrow> char \<Rightarrow> crc" where
  "crc_byte c b = crc32Table (unat ((c XOR of_nat (code b)) AND 0xFF)) XOR drop_bit 8 c"

definition updateCrc32 :: "crc \<Rightarrow> string \<Rightarrow> crc" where
  "updateCrc32 crc32 buf = foldl crc_byte (crc32 XOR 0xFFFFFFFF) buf XOR 0xFFFFFFFF"

text \<open>The reference: the message byte is added and divided bit by bit.\<close>

definition crc_ref :: "crc \<Rightarrow> string \<Rightarrow> crc" where
  "crc_ref crc32 buf =
     foldl (\<lambda>c b. (crc_bit ^^ 8) (c XOR of_nat (code b))) (crc32 XOR 0xFFFFFFFF) buf XOR 0xFFFFFFFF"

lemma and_one_xor: "((a XOR b) AND 1 \<noteq> (0 :: crc)) = ((a AND 1 \<noteq> 0) \<noteq> (b AND 1 \<noteq> 0))"
  by (simp add: and_one_eq mod2_eq_if) (metis even_xor_iff)

lemma crc_bit_xor: "crc_bit (a XOR b) = crc_bit a XOR crc_bit b"
proof -
  have "drop_bit 1 (a XOR b) = drop_bit 1 a XOR drop_bit 1 b" by (simp add: drop_bit_xor)
  then show ?thesis using and_one_xor [of a b]
    by (auto simp: crc_bit_def ac_simps)
qed

lemma crc_bits_xor: "(crc_bit ^^ n) (a XOR b) = (crc_bit ^^ n) a XOR (crc_bit ^^ n) b"
  by (induction n) (simp_all add: crc_bit_xor)

lemma crc_bits_high:
  "take_bit n c = 0 \<Longrightarrow> (crc_bit ^^ n) c = drop_bit n c"
proof (induction n arbitrary: c)
  case (Suc n)
  have "even c" using Suc.prems by (metis even_take_bit_eq even_zero nat.distinct(1))
  then have "c AND 1 = 0" by (simp add: and_one_eq even_iff_mod_2_eq_zero)
  then have b: "crc_bit c = drop_bit 1 c" by (simp add: crc_bit_def)
  have "take_bit n (drop_bit 1 c) = drop_bit 1 (take_bit (Suc n) c)"
    by (simp add: take_bit_drop_bit)
  then have "take_bit n (drop_bit 1 c) = 0" using Suc.prems by simp
  from Suc.IH [OF this] show ?case
    by (simp add: funpow_swap1 b [symmetric] flip: funpow.simps) (simp add: funpow_Suc_right b del: funpow.simps)
qed simp

lemma and_FF: "(x :: crc) AND 0xFF = take_bit 8 x"
  by (simp add: take_bit_eq_mask mask_eq_exp_minus_1)

lemma low_high: "(x :: crc) = take_bit n x XOR push_bit n (drop_bit n x)"
  by (rule bit_word_eqI) (auto simp: bit_simps)

lemma drop_bit_byte: "drop_bit 8 (of_nat (code b) :: crc) = 0"
proof -
  have "unat (of_nat (code b) :: crc) = code b"
    using less_trans [OF code_less [of b], of "2 ^ 32"] by (simp add: unat_of_nat)
  then have "unat (drop_bit 8 (of_nat (code b) :: crc)) = 0"
    using code_less [of b] unfolding unat_drop_bit_eq by (simp add: drop_bit_eq_div)
  then show ?thesis by (simp only: unat_eq_zero)
qed

lemma crc_byte_ref: "crc_byte c b = (crc_bit ^^ 8) (c XOR of_nat (code b))"
proof -
  define x where "x = c XOR of_nat (code b)"
  have "(crc_bit ^^ 8) x = (crc_bit ^^ 8) (take_bit 8 x) XOR (crc_bit ^^ 8) (push_bit 8 (drop_bit 8 x))"
    by (subst low_high [of x 8]) (rule crc_bits_xor)
  also have "(crc_bit ^^ 8) (push_bit 8 (drop_bit 8 x)) = drop_bit 8 (push_bit 8 (drop_bit 8 x))"
    by (rule crc_bits_high) (simp add: take_bit_push_bit)
  also have "drop_bit 8 (push_bit 8 (drop_bit 8 x)) = drop_bit 8 x"
    by (rule bit_word_eqI) (auto simp: bit_simps dest: bit_imp_le_length)
  also have "drop_bit 8 x = drop_bit 8 c"
    unfolding x_def by (simp add: drop_bit_byte)
  finally show ?thesis
    unfolding crc_byte_def crc32Table_def x_def [symmetric] and_FF by simp
qed

text \<open>
  C21: The table-driven checksum is the CRC-32 of the bitwise division, on every content and from
  every intermediate value.
\<close>

theorem updateCrc32_correct: "updateCrc32 crc buf = crc_ref crc buf"
  by (simp add: updateCrc32_def crc_ref_def crc_byte_ref [abs_def])

lemma updateCrc32_append: "updateCrc32 crc (a @ b) = updateCrc32 (updateCrc32 crc a) b"
  by (simp add: updateCrc32_def xor.assoc)

section \<open>Lines\<close>

text \<open>\<open>%lX\<close>\<close>

definition hexU :: "nat \<Rightarrow> char" where
  "hexU d = char_of (if d < 10 then 48 + d else 55 + d)"

fun fmt_lX :: "nat \<Rightarrow> string" where
  "fmt_lX n = (if n < 16 then [hexU n] else fmt_lX (n div 16) @ [hexU (n mod 16)])"

declare fmt_lX.simps [simp del]

definition MAX_LINE_LEN :: nat where "MAX_LINE_LEN = 800"

definition NL :: char where "NL = CHR 0x0A"

text \<open>\<open>fgets\<close>: at most \<open>n - 1\<close> characters, up to a newline, which is kept.\<close>

definition fgets :: "nat \<Rightarrow> string \<Rightarrow> (string \<times> string) option" where
  "fgets n s =
     (if s = [] then None
      else let w = take (n - 1) s; l = takeWhile (\<lambda>c. c \<noteq> NL) w
           in if length l < length w then Some (l @ [NL], drop (Suc (length l)) s)
              else Some (w, drop (n - 1) s))"

record io =
  io_rest :: string
  io_crc32 :: crc
  io_crcOK :: bool

definition open_read :: "string \<Rightarrow> io" where
  "open_read content = \<lparr> io_rest = content, io_crc32 = 0, io_crcOK = False \<rparr>"

text \<open>
  \<open>_readln\<close>: trailing characters below the blank are removed, which on signed characters are
  the control characters and every byte from 0x80 on.
\<close>

definition strip_line :: "string \<Rightarrow> string" where
  "strip_line s = rev (dropWhile (\<lambda>c. schar c < 32) (rev (takeWhile (\<lambda>c. code c \<noteq> 0) s)))"

definition readln :: "io \<Rightarrow> string option \<times> io" where
  "readln st =
     (case fgets MAX_LINE_LEN (io_rest st) of
        None \<Rightarrow> (None, st)
      | Some (raw, rest) \<Rightarrow>
          let line = strip_line raw; st1 = st\<lparr> io_rest := rest \<rparr>
          in if length line > 1 \<and> hd line = CHR ''*''
             then (None, st1\<lparr> io_crcOK := fmt_lX (unat (io_crc32 st1)) = tl line \<or> line ! 1 = CHR ''*'' \<rparr>)
             else (Some line, st1\<lparr> io_crc32 := updateCrc32 (io_crc32 st1) line \<rparr>))"

text \<open>A \<open>while\<close> loop that calls \<open>_readln\<close> until it returns NULL.\<close>

lemma fgets_shorter: "fgets MAX_LINE_LEN s = Some (l, r) \<Longrightarrow> length r < length s"
  by (auto simp: fgets_def MAX_LINE_LEN_def Let_def split: if_splits)

lemma readln_shorter: "readln st = (Some l, st') \<Longrightarrow> length (io_rest st') < length (io_rest st)"
  by (auto simp: readln_def Let_def split: option.splits if_splits dest!: fgets_shorter)

function readlns :: "io \<Rightarrow> string list \<times> io" where
  "readlns st =
     (case readln st of
        (None, st') \<Rightarrow> ([], st')
      | (Some l, st') \<Rightarrow> let (ls, st'') = readlns st' in (l # ls, st''))"
  by pat_completeness auto
termination
  by (relation "measure (\<lambda>st. length (io_rest st))") (auto dest!: readln_shorter [OF sym])

declare readlns.simps [simp del]

text \<open>\<open>_checkCrc\<close>: the verdict over the whole file, which is then rewound.\<close>

definition checkCrc :: "string \<Rightarrow> bool" where
  "checkCrc content = io_crcOK (snd (readlns (open_read content)))"

text \<open>\<open>_writeln\<close> for each line, then \<open>_writeCrc\<close>.\<close>

definition crc_lines :: "crc \<Rightarrow> string list \<Rightarrow> crc" where
  "crc_lines = foldl updateCrc32"

definition writeCrc :: "crc \<Rightarrow> string" where
  "writeCrc crc32 = ''*'' @ fmt_lX (unat crc32) @ [NL]"

definition write_file :: "string list \<Rightarrow> string" where
  "write_file ls = concat (map (\<lambda>l. l @ [NL]) ls) @ writeCrc (crc_lines 0 ls)"

section \<open>What is written is read back\<close>

text \<open>The lines that the layer carries unchanged.\<close>

definition clean_line :: "string \<Rightarrow> bool" where
  "clean_line l \<longleftrightarrow> length l < 799 \<and> NL \<notin> set l \<and> (\<forall>c\<in>set l. code c \<noteq> 0) \<and>
     (l \<noteq> [] \<longrightarrow> schar (last l) \<ge> 32) \<and> \<not> (length l > 1 \<and> hd l = CHR ''*'')"

lemma takeWhile_take: "takeWhile P (take n s) = take n (takeWhile P s)"
  by (induction s arbitrary: n) (auto simp: take_Cons')

lemma fgets_line:
  assumes "length l < 799" "NL \<notin> set l"
  shows "fgets MAX_LINE_LEN (l @ NL # r) = Some (l @ [NL], r)"
proof -
  have t: "takeWhile (\<lambda>c. c \<noteq> NL) (take 799 (l @ NL # r)) = l"
    using assms unfolding takeWhile_take by (simp add: takeWhile_sep)
  then show ?thesis using assms by (simp add: fgets_def MAX_LINE_LEN_def Let_def)
qed

lemma strip_line_clean:
  assumes "\<forall>c\<in>set l. code c \<noteq> 0" "l \<noteq> [] \<longrightarrow> schar (last l) \<ge> 32"
  shows "strip_line (l @ [NL]) = l"
proof -
  have n: "code NL \<noteq> 0" "schar NL < 32" by (simp_all add: NL_def schar_def)
  have "takeWhile (\<lambda>c. code c \<noteq> 0) (l @ [NL]) = l @ [NL]"
    using assms n by (simp add: takeWhile_append)
  moreover have "dropWhile (\<lambda>c. schar c < 32) (rev l) = rev l"
    using assms(2) by (cases l rule: rev_cases) auto
  ultimately show ?thesis using n by (simp add: strip_line_def)
qed

lemma readln_clean:
  "clean_line l \<Longrightarrow> io_rest st = l @ NL # r \<Longrightarrow>
     readln st = (Some l, st\<lparr> io_rest := r, io_crc32 := updateCrc32 (io_crc32 st) l \<rparr>)"
  using fgets_line [of l r] strip_line_clean [of l]
  by (auto simp: readln_def clean_line_def Let_def)

lemma hexU_plain: "d < 16 \<Longrightarrow> code (hexU d) \<ge> 48 \<and> code (hexU d) < 128"
  by (simp add: hexU_def)

lemma fmt_lX_plain: "c \<in> set (fmt_lX n) \<Longrightarrow> code c \<ge> 48 \<and> code c < 128"
proof (induction n rule: fmt_lX.induct)
  case (1 n)
  have "n mod 16 < 16" by simp
  from hexU_plain [OF this] hexU_plain [of n] 1 show ?case
    by (subst (asm) (2) fmt_lX.simps) (auto split: if_splits)
qed

lemma fmt_lX_not_Nil [simp]: "fmt_lX n \<noteq> []"
  by (subst fmt_lX.simps) simp

lemma fmt_lX_length: "n < 16 ^ Suc k \<Longrightarrow> length (fmt_lX n) \<le> Suc k"
proof (induction k arbitrary: n)
  case 0
  then show ?case by (subst fmt_lX.simps) simp
next
  case (Suc k)
  then have "n div 16 < 16 ^ Suc k" by (simp add: less_mult_imp_div_less)
  then show ?case using Suc.IH [of "n div 16"] by (subst fmt_lX.simps) auto
qed

lemma crc_length: "length (fmt_lX (unat (c :: crc))) \<le> 8"
  using fmt_lX_length [of "unat c" 7] unsigned_less [of c, where 'a = nat] by simp

text \<open>
  The checksum always fits in the ten byte buffer it is printed in.
\<close>

theorem crc_fits: "length (fmt_lX (unat (updateCrc32 crc buf))) + 1 < 10"
  using crc_length [of "updateCrc32 crc buf"] by simp

lemma readln_crc:
  assumes "io_rest st = ''*'' @ fmt_lX (unat c) @ [NL]" "length (fmt_lX (unat c)) < 9"
  shows "readln st = (None, st\<lparr> io_rest := [],
    io_crcOK := (fmt_lX (unat (io_crc32 st)) = fmt_lX (unat c)) \<rparr>)"
proof -
  define l where "l = ''*'' @ fmt_lX (unat c)"
  have p: "\<forall>x\<in>set l. code x \<ge> 42 \<and> code x < 128" by (auto simp: l_def dest: fmt_lX_plain)
  have "NL \<notin> set l" using p by (auto simp: NL_def)
  moreover have "length l < 799" using assms(2) by (simp add: l_def)
  ultimately have f: "fgets MAX_LINE_LEN (l @ [NL]) = Some (l @ [NL], [])"
    using fgets_line [of l "[]"] by simp
  have s: "strip_line (l @ [NL]) = l"
  proof (rule strip_line_clean)
    show "\<forall>c\<in>set l. code c \<noteq> 0" using p by fastforce
    have "l \<noteq> []" by (simp add: l_def)
    then have "last l \<in> set l" by simp
    then show "l \<noteq> [] \<longrightarrow> 32 \<le> schar (last l)" using p by (fastforce simp: schar_def)
  qed
  have "hd (fmt_lX (unat c)) \<in> set (fmt_lX (unat c))" by simp
  then have "hd (fmt_lX (unat c)) \<noteq> CHR ''*''" using fmt_lX_plain by fastforce
  then have n: "l ! 1 \<noteq> CHR ''*''" by (cases "fmt_lX (unat c)") (auto simp: l_def)
  have len: "length l > 1" "hd l = CHR ''*''" "tl l = fmt_lX (unat c)"
    by (auto simp: l_def intro: Nat.gr0I)
  have "io_rest st = l @ [NL]" using assms(1) by (simp add: l_def)
  then show ?thesis using f s n len by (simp add: readln_def Let_def)
qed

lemma readlns_clean:
  assumes "\<forall>l\<in>set ls. clean_line l" "io_rest st = concat (map (\<lambda>l. l @ [NL]) ls) @ writeCrc c"
    "length (fmt_lX (unat c)) < 9"
  shows "readlns st = (ls, st\<lparr> io_rest := [], io_crc32 := crc_lines (io_crc32 st) ls,
    io_crcOK := (fmt_lX (unat (crc_lines (io_crc32 st) ls)) = fmt_lX (unat c)) \<rparr>)"
  using assms(1,2)
proof (induction ls arbitrary: st)
  case Nil
  then show ?case using readln_crc [of st c] assms(3)
    by (subst readlns.simps) (simp add: crc_lines_def writeCrc_def)
next
  case (Cons l ls)
  define st' where "st' = st\<lparr> io_rest := concat (map (\<lambda>l. l @ [NL]) ls) @ writeCrc c,
    io_crc32 := updateCrc32 (io_crc32 st) l \<rparr>"
  have "readln st = (Some l, st')" unfolding st'_def
    using Cons.prems by (intro readln_clean) auto
  moreover have "readlns st' = (ls, st'\<lparr> io_rest := [], io_crc32 := crc_lines (io_crc32 st') ls,
    io_crcOK := (fmt_lX (unat (crc_lines (io_crc32 st') ls)) = fmt_lX (unat c)) \<rparr>)"
    using Cons.prems by (intro Cons.IH) (auto simp: st'_def)
  ultimately show ?case
    by (subst readlns.simps) (simp add: st'_def crc_lines_def)
qed

lemma crc_lines_fits: "length (fmt_lX (unat (crc_lines c ls))) < 9"
  using crc_length [of "crc_lines c ls"] by simp

lemma read_written:
  "\<forall>l\<in>set ls. clean_line l \<Longrightarrow>
     readlns (open_read (write_file ls)) = (ls, \<lparr> io_rest = [], io_crc32 = crc_lines 0 ls, io_crcOK = True \<rparr>)"
  using readlns_clean [of ls "open_read (write_file ls)" "crc_lines 0 ls"] crc_lines_fits
  by (simp add: open_read_def write_file_def)

lemma check_written: "\<forall>l\<in>set ls. clean_line l \<Longrightarrow> checkCrc (write_file ls)"
  by (simp add: checkCrc_def read_written)

text \<open>
  A file of clean lines is read back line by line and its checksum verified, both by the
  reading loop and by the check that precedes it.
\<close>

theorem write_file_read:
  assumes "\<forall>l\<in>set ls. clean_line l"
  shows "fst (readlns (open_read (write_file ls))) = ls \<and> checkCrc (write_file ls)"
  using assms by (simp add: read_written check_written)

theorem write_file_read_witness:
  "checkCrc (write_file [''Value;1'', [], ''b''])"
  using write_file_read [of "[''Value;1'', [], ''b'']"]
  by (simp add: clean_line_def NL_def schar_def)

section \<open>Torn files\<close>

lemma readlns_prefix:
  "\<forall>l\<in>set ls. clean_line l \<Longrightarrow> io_rest st = concat (map (\<lambda>l. l @ [NL]) ls) @ r \<Longrightarrow>
     readlns st = (let (ls', st') = readlns (st\<lparr> io_rest := r, io_crc32 := crc_lines (io_crc32 st) ls \<rparr>)
       in (ls @ ls', st'))"
proof (induction ls arbitrary: st)
  case Nil
  then have "st\<lparr> io_rest := r, io_crc32 := crc_lines (io_crc32 st) [] \<rparr> = st"
    by (simp add: crc_lines_def)
  then show ?case by (simp add: case_prod_beta)
next
  case (Cons l ls)
  define st' where "st' = st\<lparr> io_rest := concat (map (\<lambda>l. l @ [NL]) ls) @ r,
    io_crc32 := updateCrc32 (io_crc32 st) l \<rparr>"
  have 1: "readln st = (Some l, st')" unfolding st'_def
    using Cons.prems by (intro readln_clean) auto
  have 2: "readlns st' = (let (ls', st'') = readlns (st'\<lparr> io_rest := r, io_crc32 := crc_lines (io_crc32 st') ls \<rparr>)
       in (ls @ ls', st''))"
    using Cons.prems by (intro Cons.IH) (auto simp: st'_def)
  have 3: "st'\<lparr> io_rest := r, io_crc32 := crc_lines (io_crc32 st') ls \<rparr>
      = st\<lparr> io_rest := r, io_crc32 := crc_lines (io_crc32 st) (l # ls) \<rparr>"
    by (simp add: st'_def crc_lines_def)
  show ?case unfolding readlns.simps [of st] 1 using 2 3 by (simp add: case_prod_beta Let_def)
qed

lemma readlns_end: "io_rest st = [] \<Longrightarrow> readlns st = ([], st)"
  by (subst readlns.simps) (simp add: readln_def fgets_def)

lemma fgets_last: "r \<noteq> [] \<Longrightarrow> NL \<notin> set r \<Longrightarrow> length r < 799 \<Longrightarrow> fgets MAX_LINE_LEN r = Some (r, [])"
  by (simp add: fgets_def MAX_LINE_LEN_def Let_def takeWhile_nosep)

lemma strip_line_prefix: "\<exists>t. r = strip_line r @ t"
proof -
  let ?u = "takeWhile (\<lambda>c. code c \<noteq> 0) r" and ?P = "\<lambda>c. schar c < 32"
  have "?u = strip_line r @ rev (takeWhile ?P (rev ?u))"
    unfolding strip_line_def by (metis rev_append rev_rev_ident takeWhile_dropWhile_id)
  moreover have "r = ?u @ dropWhile (\<lambda>c. code c \<noteq> 0) r" by simp
  ultimately show ?thesis by (metis append.assoc)
qed

text \<open>The last line of the text is cut: the checksum is verified only if it is whole.\<close>

lemma readlns_cut_line:
  assumes "clean_line (r @ t)" "\<not> io_crcOK st" "io_rest st = r"
  shows "\<not> io_crcOK (snd (readlns st))"
proof (cases "r = []")
  case True
  then show ?thesis using assms by (simp add: readlns_end)
next
  case False
  have f: "fgets MAX_LINE_LEN r = Some (r, [])"
    using assms(1) False by (intro fgets_last) (auto simp: clean_line_def)
  obtain u where u: "r = strip_line r @ u" using strip_line_prefix by blast
  have "\<not> (length (strip_line r) > 1 \<and> hd (strip_line r) = CHR ''*'')"
  proof
    assume "length (strip_line r) > 1 \<and> hd (strip_line r) = CHR ''*''"
    then obtain cs where "strip_line r = CHR ''*'' # cs" "cs \<noteq> []" by (cases "strip_line r") auto
    with u have "r @ t = CHR ''*'' # cs @ u @ t" "cs \<noteq> []" by (metis append.assoc append_Cons)+
    then show False using assms(1) by (simp add: clean_line_def)
  qed
  then have "readln st = (Some (strip_line r), st\<lparr> io_rest := [], io_crc32 := updateCrc32 (io_crc32 st) (strip_line r) \<rparr>)"
    using f assms(3) by (simp add: readln_def Let_def)
  then show ?thesis using assms(2) by (subst readlns.simps) (simp add: readlns_end Let_def)
qed

lemma take_lines:
  "(\<exists>ls1 l r t. l \<in> set ls \<and> set ls1 \<subseteq> set ls \<and> l = r @ t \<and>
      take n (concat (map (\<lambda>l. l @ [NL]) ls) @ c) = concat (map (\<lambda>l. l @ [NL]) ls1) @ r) \<or>
   (\<exists>m. take n (concat (map (\<lambda>l. l @ [NL]) ls) @ c) = concat (map (\<lambda>l. l @ [NL]) ls) @ take m c)"
proof (induction ls arbitrary: n)
  case (Cons l ls)
  show ?case
  proof (cases "n \<le> length l")
    case True
    then have "take n (concat (map (\<lambda>l. l @ [NL]) (l # ls)) @ c) = concat (map (\<lambda>l. l @ [NL]) []) @ take n l"
      by simp
    moreover have "l = take n l @ drop n l" by simp
    ultimately show ?thesis by (metis empty_subsetI list.set(1) list.set_intros(1))
  next
    case False
    define k where "k = n - Suc (length l)"
    have k: "take n (concat (map (\<lambda>l. l @ [NL]) (l # ls)) @ c)
        = (l @ [NL]) @ take k (concat (map (\<lambda>l. l @ [NL]) ls) @ c)"
      using False by (simp add: k_def take_Cons')
    from Cons [of k] show ?thesis
    proof (elim disjE exE conjE)
      fix ls1 l' r t
      assume a: "l' \<in> set ls" "set ls1 \<subseteq> set ls" "l' = r @ t"
        "take k (concat (map (\<lambda>l. l @ [NL]) ls) @ c) = concat (map (\<lambda>l. l @ [NL]) ls1) @ r"
      then have "take n (concat (map (\<lambda>l. l @ [NL]) (l # ls)) @ c) = concat (map (\<lambda>l. l @ [NL]) (l # ls1)) @ r"
        unfolding k by simp
      moreover have "l' \<in> set (l # ls)" "set (l # ls1) \<subseteq> set (l # ls)" using a by auto
      ultimately show ?thesis using a(3) by blast
    next
      fix m assume "take k (concat (map (\<lambda>l. l @ [NL]) ls) @ c) = concat (map (\<lambda>l. l @ [NL]) ls) @ take m c"
      then have "take n (concat (map (\<lambda>l. l @ [NL]) (l # ls)) @ c) = concat (map (\<lambda>l. l @ [NL]) (l # ls)) @ take m c"
        unfolding k by simp
      then show ?thesis by blast
    qed
  qed
qed auto

lemma readlns_crc_cut:
  assumes "io_rest st = take m (writeCrc c)" "\<not> io_crcOK st" "io_crc32 st = c"
    "io_crcOK (snd (readlns st))"
  shows "fst (readlns st) = []"
proof -
  let ?h = "fmt_lX (unat c)"
  have len: "length ?h \<le> 8" by (rule crc_length)
  have w: "writeCrc c = (CHR ''*'' # ?h) @ [NL]" by (simp add: writeCrc_def)
  show ?thesis
  proof (cases "m \<ge> length (writeCrc c)")
    case True
    then have "io_rest st = ''*'' @ ?h @ [NL]" using assms(1) by (simp add: w)
    from readln_crc [OF this] len show ?thesis by (subst readlns.simps) simp
  next
    case False
    define r where "r = take m (CHR ''*'' # ?h)"
    have "m - length (CHR ''*'' # ?h) = 0" using False by (simp add: w)
    then have r: "io_rest st = r" using assms(1) unfolding r_def w take_append by simp
    show ?thesis
    proof (cases "m \<le> 1")
      case True
      then have "clean_line (r @ [])" by (cases m) (auto simp: r_def clean_line_def NL_def schar_def)
      from readlns_cut_line [OF this assms(2) r] assms(4) show ?thesis by simp
    next
      case False
      then obtain k where k: "r = CHR ''*'' # take (Suc k) ?h"
        by (cases m) (auto simp: r_def gr0_conv_Suc not_le)
      have p: "\<forall>x\<in>set r. 42 \<le> code x \<and> code x < 128"
        using fmt_lX_plain [of _ "unat c"] by (fastforce simp: k dest: in_set_takeD)
      have f: "fgets MAX_LINE_LEN r = Some (r, [])"
        using p len by (intro fgets_last) (auto simp: k NL_def)
      have "r \<noteq> []" by (simp add: k)
      then have "last r \<in> set r" by simp
      then have l: "\<not> schar (last r) < 32" using p by (fastforce simp: schar_def)
      have "takeWhile (\<lambda>c. code c \<noteq> 0) r = r" using p by (fastforce simp: takeWhile_eq_all_conv)
      moreover have "dropWhile (\<lambda>c. schar c < 32) (rev r) = rev r"
        using l \<open>r \<noteq> []\<close> by (cases r rule: rev_cases) auto
      ultimately have sl: "strip_line r = r" unfolding strip_line_def by (simp only: rev_rev_ident)
      have "length r > 1" using k by (cases ?h) auto
      then have "\<exists>st'. readln st = (None, st')" using f sl r k by (simp add: readln_def Let_def)
      then show ?thesis by (subst readlns.simps) auto
    qed
  qed
qed

lemma torn_file:
  assumes "\<forall>l\<in>set ls. clean_line l" "io_crcOK (snd (readlns (open_read (take n (write_file ls)))))"
  shows "fst (readlns (open_read (take n (write_file ls)))) = ls"
proof -
  let ?st = "open_read (take n (write_file ls))" and ?c = "writeCrc (crc_lines 0 ls)"
  have st: "io_rest ?st = take n (concat (map (\<lambda>l. l @ [NL]) ls) @ ?c)" "\<not> io_crcOK ?st" "io_crc32 ?st = 0"
    by (simp_all add: open_read_def write_file_def)
  from take_lines [of ls n ?c] show ?thesis
  proof (elim disjE exE conjE)
    fix ls1 l r t
    assume a: "l \<in> set ls" "set ls1 \<subseteq> set ls" "l = r @ t"
      "take n (concat (map (\<lambda>l. l @ [NL]) ls) @ ?c) = concat (map (\<lambda>l. l @ [NL]) ls1) @ r"
    have c1: "\<forall>l\<in>set ls1. clean_line l" "clean_line (r @ t)" using a assms(1) by auto
    let ?st1 = "?st\<lparr> io_rest := r, io_crc32 := crc_lines (io_crc32 ?st) ls1 \<rparr>"
    have "\<not> io_crcOK (snd (readlns ?st1))"
      using st by (intro readlns_cut_line [OF c1(2)]) simp_all
    then have False
      using readlns_prefix [OF c1(1), of ?st r] st(1) a(4) assms(2) by (simp add: case_prod_beta Let_def)
    then show ?thesis ..
  next
    fix m assume m: "take n (concat (map (\<lambda>l. l @ [NL]) ls) @ ?c) = concat (map (\<lambda>l. l @ [NL]) ls) @ take m ?c"
    let ?st1 = "?st\<lparr> io_rest := take m ?c, io_crc32 := crc_lines (io_crc32 ?st) ls \<rparr>"
    have e: "readlns ?st = (ls @ fst (readlns ?st1), snd (readlns ?st1))"
      using readlns_prefix [OF assms(1), of ?st "take m ?c"] st(1) m by (simp add: case_prod_beta Let_def)
    then have "io_crcOK (snd (readlns ?st1))" using assms(2) by simp
    from readlns_crc_cut [OF _ _ _ this, of m "crc_lines 0 ls"] st have "fst (readlns ?st1) = []" by simp
    with e show ?thesis by simp
  qed
qed

text \<open>
  A torn file is detected: when the writing of a file stops anywhere, what is read back
  either fails the checksum or has all of the lines.
\<close>

theorem torn_file_detected:
  assumes "\<forall>l\<in>set ls. clean_line l"
  shows "\<not> io_crcOK (snd (readlns (open_read (take n (write_file ls))))) \<or>
    fst (readlns (open_read (take n (write_file ls)))) = ls"
  using torn_file [OF assms] by blast

theorem torn_file_detected_witness:
  "if io_crcOK (snd (readlns (open_read (take 3 (write_file [''ab''])))))
   then fst (readlns (open_read (take 3 (write_file [''ab''])))) = [''ab''] else True"
proof -
  have "\<forall>l\<in>set [''ab'']. clean_line l" by (simp add: clean_line_def NL_def schar_def)
  from torn_file_detected [OF this, of 3] show ?thesis by auto
qed

end
