(* ===== verification/Store.thy ===== *)
theory Store
  imports Param Crc
begin

text \<open>
  The parameter list of \<open>DM_DAT1_ParameterData.c\<close> in memory: search, insertion, creation of an
  object instance from its prototype and deletions.

  The linked list with its counter and the flag \<open>_dataChanged\<close> of \<open>DM_ENG_Parameter.c\<close> is the
  record \<open>store\<close>.  The interface \<open>name_map\<close> is what the engine relies on: a map from names to
  parameters; it is interpreted on the list, under the invariant that names are distinct and
  counted.
\<close>

section \<open>A map from names\<close>

locale name_map =
  fixes lookup :: "'s \<Rightarrow> string \<Rightarrow> 'p option"
    and put :: "'p \<Rightarrow> 's \<Rightarrow> 's"
    and cut :: "string \<Rightarrow> 's \<Rightarrow> 's"
    and name_of :: "'p \<Rightarrow> string"
    and inv :: "'s \<Rightarrow> bool"
  assumes put_inv: "inv s \<Longrightarrow> inv (put p s)"
    and cut_inv: "inv s \<Longrightarrow> inv (cut n s)"
    and lookup_put: "inv s \<Longrightarrow> lookup (put p s) n = (if n = name_of p then Some p else lookup s n)"
    and lookup_cut: "inv s \<Longrightarrow> lookup (cut n s) m = (if prefixb n m then None else lookup s m)"
    and lookup_name: "inv s \<Longrightarrow> lookup s n = Some p \<Longrightarrow> name_of p = n"
begin

lemma puts_inv: "inv s \<Longrightarrow> inv (foldl (\<lambda>s p. put p s) s ps)"
  by (induction ps arbitrary: s) (auto intro: put_inv)

lemma lookup_puts:
  "inv s \<Longrightarrow> distinct (map name_of ps) \<Longrightarrow>
     lookup (foldl (\<lambda>s p. put p s) s ps) n
       = (case find (\<lambda>p. name_of p = n) ps of Some p \<Rightarrow> Some p | None \<Rightarrow> lookup s n)"
proof (induction ps arbitrary: s)
  case (Cons p ps)
  have "find (\<lambda>q. name_of q = n) ps = None" if "name_of p = n"
    unfolding find_None_iff using Cons.prems(2) that by (force simp: image_iff)
  with Cons show ?case by (auto simp: put_inv lookup_put split: option.split)
qed simp

lemma cut_puts:
  assumes "inv s" "distinct (map name_of ps)" "\<forall>p\<in>set ps. prefixb n (name_of p)"
    "\<forall>m. prefixb n m \<longrightarrow> lookup s m = None"
  shows "lookup (cut n (foldl (\<lambda>s p. put p s) s ps)) = lookup s"
proof
  fix m
  have "find (\<lambda>p. name_of p = m) ps = None" if "\<not> prefixb n m"
    using assms(3) that by (auto simp: find_None_iff)
  then show "lookup (cut n (foldl (\<lambda>s p. put p s) s ps)) m = lookup s m"
    using assms by (auto simp: lookup_cut puts_inv lookup_puts)
qed

end

section \<open>The list of parameters\<close>

record store =
  parameters :: "param list"
  nbParameters :: int
  dataChanged :: bool

definition getParameter :: "store \<Rightarrow> string \<Rightarrow> param option" where
  "getParameter s name = find (\<lambda>p. p_name p = name) (parameters s)"

fun put_list :: "param \<Rightarrow> param list \<Rightarrow> param list" where
  "put_list p [] = [p]"
| "put_list p (q # qs) = (if p_name p = p_name q then p # qs else q # put_list p qs)"

definition putParameter :: "param \<Rightarrow> store \<Rightarrow> store" where
  "putParameter p s =
     s\<lparr> parameters := put_list p (parameters s),
        nbParameters := nbParameters s + (if p_name p \<in> p_name ` set (parameters s) then 0 else 1) \<rparr>"

definition addParameter :: "param \<Rightarrow> store \<Rightarrow> store" where
  "addParameter p s = s\<lparr> parameters := parameters s @ [p], nbParameters := nbParameters s + 1,
     dataChanged := True \<rparr>"

text \<open>
  \<open>createInstance\<close>: the prototype of an object \<open>X.\<close> is described by the parameters whose name
  continues with a second dot.  Their copies have the instance number instead; they go to the
  end of the list, where the loop meets them without taking them for prototypes.  The names are
  built in the buffer of 800 bytes.
\<close>

definition is_proto_of :: "string \<Rightarrow> param \<Rightarrow> bool" where
  "is_proto_of obj p \<longleftrightarrow> length (p_name p) > length obj \<and> prefixb obj (p_name p) \<and>
     p_name p ! length obj = CHR ''.''"

definition inst_name :: "string \<Rightarrow> 32 word \<Rightarrow> string \<Rightarrow> string" where
  "inst_name obj n name = obj @ dec (unat n) @ drop (length obj) name"

definition instances :: "param \<Rightarrow> 32 word \<Rightarrow> param list \<Rightarrow> param list" where
  "instances param n ps =
     DM_ENG_newInstanceParameter (p_name param @ dec (unat n) @ ''.'') param #
     map (\<lambda>p. DM_ENG_newInstanceParameter (inst_name (p_name param) n (p_name p)) p)
       (filter (is_proto_of (p_name param)) ps)"

definition createInstance :: "param \<Rightarrow> 32 word \<Rightarrow> store \<Rightarrow> ub + store" where
  "createInstance param n s =
     (let new = instances param n (parameters s)
      in if \<exists>p\<in>set new. length (p_name p) \<ge> MAX_LINE_LEN then Inl BufOverflow
         else Inr ((foldl (\<lambda>s p. putParameter p s) s new)\<lparr> dataChanged := True \<rparr>))"

definition deleteObject :: "string \<Rightarrow> store \<Rightarrow> store" where
  "deleteObject objectName s =
     (let kept = filter (\<lambda>p. \<not> prefixb objectName (p_name p)) (parameters s);
          nbSupp = length (parameters s) - length kept
      in if nbSupp \<noteq> 0
         then s\<lparr> parameters := kept, nbParameters := nbParameters s - int nbSupp, dataChanged := True \<rparr>
         else s)"

subsection \<open>Deletion by configuration key\<close>

text \<open>
  The loop of \<open>deleteParameters\<close>.  It stays on a parameter that lost the key but has others, so
  that every occurrence of the key is removed; it stops at the first match of a parameter name.
\<close>

definition key_count :: "cstr \<Rightarrow> nat" where
  "key_count k = (if k = Null then 0 else length (fields_of CHR '','' (ctext k)))"

lemma key_count_delete:
  assumes "DM_ENG_deleteFromCommaSeparatedList csl ch = (True, csl')"
  shows "key_count csl' < key_count csl"
proof -
  define l where "l = map trim (fields_of CHR '','' (ctext csl))"
  have nn: "csl \<noteq> Null" "ctext ch \<in> set l"
    and c: "csl' = DM_ENG_buildCommaSeparatedList (Some (remove1 (ctext ch) l))"
    using assms by (auto simp: DM_ENG_deleteFromCommaSeparatedList_def del_first_remove1 split_fields
        l_def Let_def split: if_splits prod.splits)
  have "\<forall>x\<in>set l. CHR '','' \<notin> set x"
    using fields_sep_free [of _ "CHR '',''" "ctext csl"]
    by (fastforce simp: l_def trim_def rtrim_def dest: set_dropWhileD)
  then have s: "\<forall>x\<in>set (remove1 (ctext ch) l). CHR '','' \<notin> set x"
    by (meson in_mono set_remove1_subset)
  have len: "length (remove1 (ctext ch) l) = length l - 1" "l \<noteq> []"
    using nn(2) by (auto simp: length_remove1)
  have "key_count csl' = length (remove1 (ctext ch) l)"
    unfolding c key_count_def using s
    by (cases "remove1 (ctext ch) l") (simp_all add: DM_ENG_buildCommaSeparatedList_def fields_join)
  then show ?thesis using len nn by (simp add: key_count_def l_def)
qed

definition name_matches :: "string \<Rightarrow> param \<Rightarrow> bool" where
  "name_matches name p \<longleftrightarrow>
     (if last name = CHR ''.'' then prefixb name (p_name p) else p_name p = name)"

function deleteParameters_loop :: "string \<Rightarrow> cstr \<Rightarrow> param list \<Rightarrow> bool \<times> param list" where
  "deleteParameters_loop name key [] = (False, [])"
| "deleteParameters_loop name key (p # ps) =
     (if p_configKey p = Null \<or> \<not> name_matches name p
      then let (res, qs) = deleteParameters_loop name key ps in (res, p # qs)
      else if key = Null
      then (True, if last name = CHR ''.'' then snd (deleteParameters_loop name key ps) else ps)
      else case DM_ENG_deleteFromCommaSeparatedList (p_configKey p) key of
          (False, k) \<Rightarrow> let (res, qs) = deleteParameters_loop name key ps in (res, p # qs)
        | (True, k) \<Rightarrow>
            let rest = (if k = Null then ps else p\<lparr> p_configKey := k \<rparr> # ps)
            in (True, if last name = CHR ''.'' then snd (deleteParameters_loop name key rest) else rest))"
  by pat_completeness auto
termination
proof (relation "measures [\<lambda>(n, k, ps). sum_list (map (\<lambda>p. Suc (key_count (p_configKey p))) ps)]")
  fix name key p ps x xa y rest
  assume "(x, y) = DM_ENG_deleteFromCommaSeparatedList (p_configKey p) key"
    "(x :: bool) = True" "rest = (if y = Null then ps else p\<lparr> p_configKey := y \<rparr> # ps)"
  then have "key_count y < key_count (p_configKey p)" using key_count_delete by metis
  then show "((name, key, rest), name, key, p # ps)
     \<in> measures [\<lambda>(n, k, ps). sum_list (map (\<lambda>p. Suc (key_count (p_configKey p))) ps)]"
    using \<open>rest = _\<close> by auto
qed auto

text \<open>The key is decoded first, in the buffer of \<open>DM_ENG_decodeValue\<close>.\<close>

definition deleteParameters :: "cstr \<Rightarrow> cstr \<Rightarrow> store \<Rightarrow> ub + bool \<times> store" where
  "deleteParameters name configKey s =
     (if ctext name = [] then Inr (False, s)
      else case DM_ENG_decodeValue configKey of
        Inl e \<Rightarrow> Inl e
      | Inr d \<Rightarrow>
          let key = (case d of None \<Rightarrow> configKey | Some k \<Rightarrow> Str k);
              (res, ps) = deleteParameters_loop (ctext name) key (parameters s)
          in Inr (res, s\<lparr> parameters := ps, dataChanged := dataChanged s \<or> res \<rparr>))"

section \<open>The list implements the map\<close>

definition store_inv :: "store \<Rightarrow> bool" where
  "store_inv s \<longleftrightarrow> distinct (map p_name (parameters s)) \<and> nbParameters s = int (length (parameters s))"

lemma names_put_list:
  "map p_name (put_list p ps) = (if p_name p \<in> p_name ` set ps then map p_name ps else map p_name ps @ [p_name p])"
  by (induction ps) auto

lemma length_put_list:
  "length (put_list p ps) = length ps + (if p_name p \<in> p_name ` set ps then 0 else 1)"
  using arg_cong [OF names_put_list, of length p ps] by (simp split: if_splits)

lemma find_put_list:
  "find (\<lambda>q. p_name q = n) (put_list p ps) = (if n = p_name p then Some p else find (\<lambda>q. p_name q = n) ps)"
  by (induction ps) auto

lemma find_filter:
  "find P (filter Q xs) = find (\<lambda>x. P x \<and> Q x) xs"
  by (induction xs) auto

lemma find_prefix:
  "find (\<lambda>q. p_name q = m) (filter (\<lambda>p. \<not> prefixb n (p_name p)) ps)
     = (if prefixb n m then None else find (\<lambda>q. p_name q = m) ps)"
  by (induction ps) auto

lemma putParameter_inv: "store_inv s \<Longrightarrow> store_inv (putParameter p s)"
  using length_put_list [of p "parameters s"]
  by (auto simp: store_inv_def putParameter_def names_put_list)

lemma filter_all: "length xs = length (filter P xs) \<Longrightarrow> filter P xs = xs"
  by (metis filter_id_conv length_filter_less less_irrefl)

lemma filter_length_cases:
  "\<not> length (filter P xs) < length xs \<Longrightarrow> filter P xs = xs \<and> length (filter P xs) = length xs"
  using filter_all [of xs P] length_filter_le [of P xs] by simp

lemma deleteObject_parameters:
  "parameters (deleteObject n s) = filter (\<lambda>p. \<not> prefixb n (p_name p)) (parameters s)"
  using filter_length_cases [of "\<lambda>p. \<not> prefixb n (p_name p)" "parameters s"]
  by (auto simp: deleteObject_def Let_def)

lemma deleteObject_inv: "store_inv s \<Longrightarrow> store_inv (deleteObject n s)"
proof -
  assume s: "store_inv s"
  have "nbParameters (deleteObject n s) = int (length (parameters (deleteObject n s)))"
    using s filter_length_cases [of "\<lambda>p. \<not> prefixb n (p_name p)" "parameters s"]
    unfolding deleteObject_parameters by (auto simp: deleteObject_def Let_def store_inv_def of_nat_diff)
  with s show ?thesis by (simp add: store_inv_def deleteObject_parameters distinct_map_filter)
qed

interpretation params: name_map getParameter putParameter deleteObject p_name store_inv
proof unfold_locales
  show "store_inv s \<Longrightarrow> store_inv (putParameter p s)" for s p by (rule putParameter_inv)
  show "store_inv s \<Longrightarrow> store_inv (deleteObject n s)" for s n by (rule deleteObject_inv)
  show "store_inv s \<Longrightarrow> getParameter (putParameter p s) n = (if n = p_name p then Some p else getParameter s n)" for s p n
    by (simp add: getParameter_def putParameter_def find_put_list)
  show "store_inv s \<Longrightarrow> getParameter (deleteObject n s) m = (if prefixb n m then None else getParameter s m)" for s n m
    by (simp add: getParameter_def deleteObject_parameters find_prefix)
  show "store_inv s \<Longrightarrow> getParameter s n = Some p \<Longrightarrow> p_name p = n" for s n p
    by (auto simp: getParameter_def find_Some_iff)
qed

section \<open>Instances\<close>

lemma getParameter_changed [simp]: "getParameter (s\<lparr> dataChanged := b \<rparr>) = getParameter s"
  by (rule ext) (simp add: getParameter_def)

lemma store_inv_changed [simp]: "store_inv (s\<lparr> dataChanged := b \<rparr>) = store_inv s"
  by (simp add: store_inv_def)

lemma name_newInstance [simp]: "p_name (DM_ENG_newInstanceParameter n p) = n"
  by (simp add: DM_ENG_newInstanceParameter_def)

lemma is_proto_name: "is_proto_of obj p \<Longrightarrow> \<exists>r. p_name p = obj @ CHR ''.'' # r"
proof -
  assume p: "is_proto_of obj p"
  then obtain r where r: "p_name p = obj @ r" by (auto simp: is_proto_of_def prefixb_iff)
  with p show ?thesis by (cases r) (auto simp: is_proto_of_def)
qed

lemma inst_name_proto: "p_name p = obj @ CHR ''.'' # r \<Longrightarrow> inst_name obj n (p_name p) = obj @ dec (unat n) @ CHR ''.'' # r"
  by (simp add: inst_name_def)

lemma instances_names:
  "p \<in> set (instances param n ps) \<Longrightarrow> prefixb (p_name param @ dec (unat n) @ ''.'') (p_name p)"
  by (auto simp: instances_def prefixb_iff inst_name_def dest!: is_proto_name)

text \<open>The copies are not prototypes: the loop over the growing list does not visit them twice.\<close>

lemma instances_not_protos: "p \<in> set (instances param n ps) \<Longrightarrow> \<not> is_proto_of (p_name param) p"
proof
  assume a: "p \<in> set (instances param n ps)" "is_proto_of (p_name param) p"
  obtain r where r: "p_name p = p_name param @ dec (unat n) @ ''.'' @ r"
    using instances_names [OF a(1)] by (auto simp: prefixb_iff)
  obtain r' where "p_name p = p_name param @ CHR ''.'' # r'" using is_proto_name [OF a(2)] by blast
  with r have "dec (unat n) @ ''.'' @ r = CHR ''.'' # r'" by simp
  then have "hd (dec (unat n)) = CHR ''.''" by (cases "dec (unat n)") auto
  then show False using hd_dec [of "unat n"] by (simp add: isdigit_def)
qed

lemma instances_distinct:
  assumes "distinct (map p_name ps)" "\<forall>p\<in>set ps. p_name p \<noteq> p_name param @ ''.''"
  shows "distinct (map p_name (instances param n ps))"
proof -
  let ?obj = "p_name param"
  have "inj_on (\<lambda>p. inst_name ?obj n (p_name p)) (set (filter (is_proto_of ?obj) ps))"
  proof (rule inj_onI)
    fix p q assume a: "p \<in> set (filter (is_proto_of ?obj) ps)" "q \<in> set (filter (is_proto_of ?obj) ps)"
      "inst_name ?obj n (p_name p) = inst_name ?obj n (p_name q)"
    then obtain r r' where "p_name p = ?obj @ CHR ''.'' # r" "p_name q = ?obj @ CHR ''.'' # r'"
      using is_proto_name by (metis mem_Collect_eq set_filter)
    with a(3) have "p_name p = p_name q" by (simp add: inst_name_def)
    with a assms(1) show "p = q" by (auto simp: distinct_map dest: inj_onD)
  qed
  moreover have "distinct (filter (is_proto_of ?obj) ps)" using assms(1) by (simp add: distinct_map)
  ultimately have "distinct (map (\<lambda>p. inst_name ?obj n (p_name p)) (filter (is_proto_of ?obj) ps))"
    by (simp add: distinct_map)
  moreover have "?obj @ dec (unat n) @ ''.'' \<noteq> inst_name ?obj n (p_name p)"
    if a: "p \<in> set ps" "is_proto_of ?obj p" for p
  proof -
    obtain r where r: "p_name p = ?obj @ CHR ''.'' # r" using is_proto_name [OF a(2)] by blast
    then have "r \<noteq> []" using assms(2) a(1) by auto
    with r show ?thesis by (simp add: inst_name_def)
  qed
  ultimately show ?thesis by (auto simp: instances_def comp_def)
qed


lemma put_list_new: "p_name p \<notin> p_name ` set ps \<Longrightarrow> put_list p ps = ps @ [p]"
  by (induction ps) auto

lemma deleteObject_puts:
  assumes "\<forall>p\<in>set new. prefixb n (p_name p)" "\<forall>p\<in>set (parameters s). \<not> prefixb n (p_name p)"
  shows "parameters (deleteObject n (foldl (\<lambda>s p. putParameter p s) s new)) = parameters s"
proof -
  have "filter (\<lambda>p. \<not> prefixb n (p_name p)) (put_list q ps) = filter (\<lambda>p. \<not> prefixb n (p_name p)) ps"
    if "prefixb n (p_name q)" for q ps
    using that by (induction ps) auto
  then have "filter (\<lambda>p. \<not> prefixb n (p_name p)) (parameters (foldl (\<lambda>s p. putParameter p s) s new))
      = filter (\<lambda>p. \<not> prefixb n (p_name p)) (parameters s)"
    using assms(1) by (induction new arbitrary: s) (auto simp: putParameter_def)
  then show ?thesis using assms(2) by (simp add: deleteObject_parameters filter_id_conv)
qed

definition sample_store :: store where
  "sample_store =
     (let new = (\<lambda>n. DM_ENG_newDefinedParameter n PT_STRING Null False)
      in \<lparr> parameters = [new ''Device.'', new ''Device.X.'', new ''Device.X..'', new ''Device.X..y''],
           nbParameters = 4, dataChanged = False \<rparr>)"

definition sample_proto :: param where
  "sample_proto = DM_ENG_newDefinedParameter ''Device.Y.'' PT_ANY Null False"

lemma dec_Suc_0: "dec (Suc 0) = ''1''"
  by code_simp

lemma sample_store_inv: "store_inv sample_store"
  by (simp add: store_inv_def sample_store_def DM_ENG_newDefinedParameter_def Let_def)

lemma sample_create: "\<exists>s'. createInstance sample_proto 1 sample_store = Inr s'"
proof -
  have "instances sample_proto 1 (parameters sample_store) = [DM_ENG_newInstanceParameter ''Device.Y.1.'' sample_proto]"
    by (simp add: instances_def sample_store_def sample_proto_def DM_ENG_newDefinedParameter_def
        is_proto_of_def Let_def dec_Suc_0)
  then show ?thesis by (simp add: createInstance_def MAX_LINE_LEN_def)
qed




section \<open>Deletion of extensions\<close>

lemma deleteParameters_loop_keeps:
  "p \<in> set ps \<Longrightarrow> p_configKey p = Null \<or> \<not> name_matches name p \<Longrightarrow>
     p \<in> set (snd (deleteParameters_loop name key ps))"
proof (induction name key ps rule: deleteParameters_loop.induct)
  case (2 name key q ps)
  obtain f k where del: "DM_ENG_deleteFromCommaSeparatedList (p_configKey q) key = (f, k)"
    by (cases "DM_ENG_deleteFromCommaSeparatedList (p_configKey q) key")
  consider (no) "p_configKey q = Null \<or> \<not> name_matches name q"
    | (all) "\<not> (p_configKey q = Null \<or> \<not> name_matches name q)" "key = Null"
    | (key) "\<not> (p_configKey q = Null \<or> \<not> name_matches name q)" "key \<noteq> Null" by blast
  then show ?case
  proof cases
    case no
    from 2(1) [OF no] 2(5,6) no show ?thesis by (auto simp: case_prod_beta Let_def)
  next
    case all
    with 2(5,6) have "p \<in> set ps" by auto
    with 2(2) [OF all] 2(6) all show ?thesis by auto
  next
    case key
    with 2(5,6) have p: "p \<in> set ps" by auto
    show ?thesis
    proof (cases f)
      case True
      let ?rest = "if k = Null then ps else q\<lparr> p_configKey := k \<rparr> # ps"
      have "p \<in> set ?rest" using p by simp
      with 2(3,4) [OF key del [symmetric]] 2(6) key del True show ?thesis by (auto simp: Let_def)
    next
      case False
      with 2(3,4) [OF key del [symmetric]] 2(6) key del p show ?thesis by (auto simp: case_prod_beta Let_def)
    qed
  qed
qed simp

lemma deleteParameters_loop_null:
  "fst (deleteParameters_loop name Null ps) \<Longrightarrow>
     length (snd (deleteParameters_loop name Null ps)) < length ps"
  "length (snd (deleteParameters_loop name Null ps)) \<le> length ps"
proof (induction ps)
  case (Cons p ps)
  { case 1 with Cons show ?case by (auto split: prod.splits simp: le_imp_less_Suc) }
  { case 2 with Cons show ?case by (auto split: prod.splits) }
qed auto

text \<open>
  \<open>deleteParameters\<close> deletes extensions only: a parameter without configuration key, or whose
  name does not match, stays as it is.  But it does not count its deletions: when it deletes
  parameters whatever their key, the counter of parameters is wrong afterwards.
\<close>

theorem deleteParameters_extensions:
  assumes "store_inv s" "deleteParameters name key s = Inr (res, s')"
  shows "(\<forall>p\<in>set (parameters s). p_configKey p = Null \<or> \<not> name_matches (ctext name) p \<longrightarrow>
      p \<in> set (parameters s')) \<and>
    (key = Null \<and> res \<longrightarrow> nbParameters s' > int (length (parameters s')))"
proof (cases "ctext name = []")
  case True
  then show ?thesis using assms by (simp add: deleteParameters_def)
next
  case False
  obtain d where d: "DM_ENG_decodeValue key = Inr d"
    using assms(2) False by (cases "DM_ENG_decodeValue key") (simp_all add: deleteParameters_def)
  define k where "k = (case d of None \<Rightarrow> key | Some k \<Rightarrow> Str k)"
  have r: "res = fst (deleteParameters_loop (ctext name) k (parameters s))"
    "parameters s' = snd (deleteParameters_loop (ctext name) k (parameters s))" "nbParameters s' = nbParameters s"
    using assms(2) False d by (auto simp: deleteParameters_def k_def Let_def split: prod.splits)
  have "k = Null" if "key = Null" using that d by (auto simp: k_def DM_ENG_decodeValue_def)
  then show ?thesis using deleteParameters_loop_keeps deleteParameters_loop_null(1) r assms(1)
    by (auto simp: store_inv_def)
qed

theorem deleteParameters_extensions_witness:
  "let p = (DM_ENG_newDefinedParameter ''Device.E'' PT_ANY Null False)\<lparr> p_configKey := Str ''k'' \<rparr>;
       s = addParameter p sample_store
   in \<exists>s'. deleteParameters (Str ''Device.E'') Null s = Inr (True, s') \<and>
        nbParameters s' > int (length (parameters s'))"
proof -
  define p where "p = (DM_ENG_newDefinedParameter ''Device.E'' PT_ANY Null False)\<lparr> p_configKey := Str ''k'' \<rparr>"
  define s where "s = addParameter p sample_store"
  have i: "store_inv s" unfolding s_def p_def by code_simp
  have "\<exists>s'. deleteParameters (Str ''Device.E'') Null s = Inr (True, s')"
  proof -
    have "fst (deleteParameters_loop ''Device.E'' Null (parameters s))" unfolding s_def p_def
      by (simp add: addParameter_def sample_store_def DM_ENG_newDefinedParameter_def Let_def name_matches_def)
    then show ?thesis
      by (cases "deleteParameters_loop ''Device.E'' Null (parameters s)")
        (simp add: deleteParameters_def DM_ENG_decodeValue_def)
  qed
  then obtain s' where "deleteParameters (Str ''Device.E'') Null s = Inr (True, s')" by blast
  with deleteParameters_extensions [OF i this] show ?thesis
    unfolding Let_def p_def [symmetric] s_def [symmetric] by blast
qed

end
