(* ===== verification/TimedQueue.thy ===== *)
theory TimedQueue
  imports Main "HOL-Library.Multiset"
begin

text \<open>
  The interface of a queue of dated requests, as the engine relies on it for its scheduled informs
  and for its pending transfers: a request is inserted after those that are due no later, the
  first one is looked at, then dropped.  The lemmas of the locale are what a client gets from any
  provider: whatever the order of the insertions, the requests come out by date, those of the same
  date in the order of their insertion.
\<close>

definition insert_timed :: "int \<Rightarrow> 'k \<Rightarrow> (int \<times> 'k) list \<Rightarrow> (int \<times> 'k) list" where
  "insert_timed t k xs =
     takeWhile (\<lambda>x. fst x \<le> t) xs @ (t, k) # dropWhile (\<lambda>x. fst x \<le> t) xs"

lemma mset_insert_timed [simp]: "mset (insert_timed t k xs) = add_mset (t, k) (mset xs)"
proof -
  have "mset xs = mset (takeWhile (\<lambda>x. fst x \<le> t) xs) + mset (dropWhile (\<lambda>x. fst x \<le> t) xs)"
    unfolding mset_append [symmetric] by simp
  then show ?thesis by (simp add: insert_timed_def)
qed

lemma set_insert_timed [simp]: "set (insert_timed t k xs) = insert (t, k) (set xs)"
  unfolding set_mset_mset [symmetric] mset_insert_timed by simp

lemma takeWhile_le_sorted:
  "sorted (map fst xs) \<Longrightarrow> x \<in> set (dropWhile (\<lambda>x. fst x \<le> (t :: int)) xs) \<Longrightarrow> t < fst x"
  by (induction xs) (auto split: if_splits)

lemma sorted_insert_timed:
  "sorted (map fst xs) \<Longrightarrow> sorted (map fst (insert_timed t k xs))"
proof -
  assume s: "sorted (map fst xs)"
  let ?b = "takeWhile (\<lambda>x. fst x \<le> t) xs" and ?a = "dropWhile (\<lambda>x. fst x \<le> t) xs"
  have "sorted (map fst ?b @ map fst ?a)" using s unfolding map_append [symmetric] by simp
  then have "sorted (map fst ?b)" "sorted (map fst ?a)" unfolding sorted_append by blast+
  moreover have "\<forall>x\<in>set ?b. fst x \<le> t" by (auto dest: set_takeWhileD)
  moreover have "\<forall>x\<in>set ?a. t \<le> fst x" using takeWhile_le_sorted [OF s] by fastforce
  ultimately show ?thesis unfolding insert_timed_def map_append sorted_append list.map
    by (fastforce intro: order_trans)
qed

lemma filter_insert_timed:
  assumes "sorted (map fst xs)"
  shows "filter (\<lambda>x. fst x = d) (insert_timed t k xs)
    = filter (\<lambda>x. fst x = d) xs @ (if t = d then [(t, k)] else [])"
proof -
  let ?b = "takeWhile (\<lambda>x. fst x \<le> t) xs" and ?a = "dropWhile (\<lambda>x. fst x \<le> t) xs"
  have "filter (\<lambda>x. fst x = d) xs = filter (\<lambda>x. fst x = d) ?b @ filter (\<lambda>x. fst x = d) ?a"
    by (metis filter_append takeWhile_dropWhile_id)
  moreover have "filter (\<lambda>x. fst x = d) ?a = []" if "t = d"
    using takeWhile_le_sorted [OF assms] that by (fastforce simp: filter_empty_conv)
  ultimately show ?thesis by (auto simp: insert_timed_def)
qed

text \<open>All the requests, inserted one after the other.\<close>

definition insert_all :: "(int \<times> 'k) list \<Rightarrow> (int \<times> 'k) list \<Rightarrow> (int \<times> 'k) list" where
  "insert_all xs q = foldl (\<lambda>q (t, k). insert_timed t k q) q xs"

lemma insert_all_append:
  "sorted (map fst q) \<Longrightarrow>
     sorted (map fst (insert_all xs q)) \<and> mset (insert_all xs q) = mset q + mset xs \<and>
     filter (\<lambda>x. fst x = d) (insert_all xs q)
       = filter (\<lambda>x. fst x = d) q @ filter (\<lambda>x. fst x = d) xs"
proof (induction xs arbitrary: q)
  case (Cons x xs)
  obtain t k where x: "x = (t, k)" by (cases x)
  have "sorted (map fst (insert_timed t k q))" using Cons.prems by (rule sorted_insert_timed)
  from Cons.IH [OF this] show ?case
    by (auto simp: x insert_all_def filter_insert_timed [OF Cons.prems])
qed (simp add: insert_all_def)

lemma insert_all_sorts: "insert_all xs [] = sort_key fst xs"
proof (rule sym, rule properties_for_sort_key)
  have "sorted (map fst ([] :: (int \<times> 'a) list))" by simp
  note a = insert_all_append [OF this, of xs]
  show "mset (insert_all xs []) = mset xs" using a by simp
  show "sorted (map fst (insert_all xs []))" using a by simp
  fix k assume "k \<in> set (insert_all xs [])"
  have "(\<lambda>x. fst k = fst x) = (\<lambda>x :: int \<times> 'a. fst x = fst k)" by auto
  then show "filter (\<lambda>x. fst k = fst x) (insert_all xs []) = filter (\<lambda>x. fst k = fst x) xs"
    using a [of "fst k"] by simp
qed

locale timed_queue =
  fixes contents :: "'q \<Rightarrow> (int \<times> 'k) list"
    and inv :: "'q \<Rightarrow> bool"
    and ok :: "int \<Rightarrow> 'k \<Rightarrow> bool"
    and add :: "int \<Rightarrow> 'k \<Rightarrow> 'q \<Rightarrow> 'q"
    and remove_first :: "'q \<Rightarrow> 'q"
    and first_time :: "'q \<Rightarrow> int option"
  assumes add_inv: "inv q \<Longrightarrow> ok t k \<Longrightarrow> inv (add t k q)"
    and add_contents: "inv q \<Longrightarrow> ok t k \<Longrightarrow> contents (add t k q) = insert_timed t k (contents q)"
    and remove_inv: "inv q \<Longrightarrow> inv (remove_first q)"
    and remove_contents: "inv q \<Longrightarrow> contents (remove_first q) = tl (contents q)"
    and first_contents: "inv q \<Longrightarrow>
      first_time q = (case contents q of [] \<Rightarrow> None | x # _ \<Rightarrow> Some (fst x))"
begin

lemma add_all_contents:
  "inv q \<Longrightarrow> \<forall>(t, k)\<in>set xs. ok t k \<Longrightarrow>
     inv (foldl (\<lambda>q (t, k). add t k q) q xs) \<and>
     contents (foldl (\<lambda>q (t, k). add t k q) q xs) = insert_all xs (contents q)"
proof (induction xs arbitrary: q)
  case (Cons x xs)
  obtain t k where x: "x = (t, k)" by (cases x)
  have i: "inv (add t k q)" using Cons.prems x by (auto intro: add_inv)
  from Cons.IH [OF i] Cons.prems show ?case
    by (auto simp: x insert_all_def add_contents)
qed (simp add: insert_all_def)

lemma add_all_sorts:
  "inv q \<Longrightarrow> contents q = [] \<Longrightarrow> \<forall>(t, k)\<in>set xs. ok t k \<Longrightarrow>
     contents (foldl (\<lambda>q (t, k). add t k q) q xs) = sort_key fst xs"
  using add_all_contents [of q xs] by (simp add: insert_all_sorts)

lemma removes_contents:
  "inv q \<Longrightarrow> inv ((remove_first ^^ n) q) \<and> contents ((remove_first ^^ n) q) = drop n (contents q)"
  by (induction n) (auto simp: remove_inv remove_contents drop_Suc tl_drop)

lemma add_sorted:
  "inv q \<Longrightarrow> ok t k \<Longrightarrow> sorted (map fst (contents q)) \<Longrightarrow> sorted (map fst (contents (add t k q)))"
  by (simp add: add_contents sorted_insert_timed)

lemma first_after_adds:
  "inv q \<Longrightarrow> contents q = [] \<Longrightarrow> \<forall>(t, k)\<in>set xs. ok t k \<Longrightarrow> n < length xs \<Longrightarrow>
     first_time ((remove_first ^^ n) (foldl (\<lambda>q (t, k). add t k q) q xs))
       = Some (fst (sort_key fst xs ! n))"
proof -
  assume a: "inv q" "contents q = []" "\<forall>(t, k)\<in>set xs. ok t k" "n < length xs"
  let ?q = "foldl (\<lambda>q (t, k). add t k q) q xs"
  have i: "inv ?q" using add_all_contents [of q xs] a by blast
  note r = removes_contents [OF i, of n] add_all_sorts [OF a(1-3)]
  have "drop n (sort_key fst xs) = sort_key fst xs ! n # drop (Suc n) (sort_key fst xs)"
    using a(4) by (simp add: Cons_nth_drop_Suc)
  then show ?thesis using first_contents [of "(remove_first ^^ n) ?q"] r by simp
qed

end

end
