(* ===== verification/Ctrl.thy ===== *)
theory Ctrl
  imports Common TimedQueue
begin

text \<open>
  The control data of \<open>DM_DAT1_ParameterData.c\<close> in memory: events, periodic and scheduled
  informs, reboot command key, transfer and download queues and retry count, with the structs of
  \<open>DM_ENG_EventStruct.c\<close>, \<open>DM_ENG_TransferRequest.c\<close> and \<open>DM_ENG_DownloadRequest.c\<close>.

  The static variables of the file are the record \<open>ctrl\<close>; an allocated string or NULL is a
  \<^typ>\<open>string option\<close>.  Event codes are compared by pointer in the code: \<open>evcode\<close> tells the
  static constants of the standard codes from the codes allocated elsewhere.
\<close>

section \<open>Events\<close>

datatype evcode = Const string | Heap string

fun code_text :: "evcode \<Rightarrow> string" where
  "code_text (Const s) = s"
| "code_text (Heap s) = s"

text \<open>Equality of pointers.  A code allocated by the caller is never the copy kept in an event.\<close>

fun same_pointer :: "evcode \<Rightarrow> evcode \<Rightarrow> bool" where
  "same_pointer (Const a) (Const b) = (a = b)"
| "same_pointer _ _ = False"

definition standard_codes :: "string list" where
  "standard_codes =
    [''0 BOOTSTRAP'', ''1 BOOT'', ''2 PERIODIC'', ''3 SCHEDULED'', ''4 VALUE CHANGE'', ''5 KICKED'',
     ''6 CONNECTION REQUEST'', ''7 TRANSFER COMPLETE'', ''8 DIAGNOSTICS COMPLETE'',
     ''9 REQUEST DOWNLOAD'', ''10 AUTONOMOUS TRANSFER COMPLETE'', ''M Reboot'',
     ''M ScheduleInform'', ''M Download'', ''M Upload'']"

definition internEventCode :: "string \<Rightarrow> evcode" where
  "internEventCode ec = (if ec \<in> set standard_codes then Const ec else Heap ec)"

record event =
  ev_code :: evcode
  ev_key :: "string option"

definition DM_ENG_newEventStruct :: "string \<Rightarrow> string option \<Rightarrow> event" where
  "DM_ENG_newEventStruct ec ck = \<lparr> ev_code = internEventCode ec, ev_key = ck \<rparr>"

section \<open>Transfer and download requests\<close>

record transfer =
  tr_isDownload :: bool
  tr_state :: int
  tr_transferTime :: int
  tr_fileType :: "string option"
  tr_url :: "string option"
  tr_username :: "string option"
  tr_password :: "string option"
  tr_fileSize :: "32 word"
  tr_targetFileName :: "string option"
  tr_successURL :: "string option"
  tr_failureURL :: "string option"
  tr_commandKey :: "string option"
  tr_announceURL :: "string option"
  tr_faultCode :: "32 word"
  tr_startTime :: int
  tr_completeTime :: int
  tr_transferId :: "32 word"

definition DM_ENG_newTransferRequest where
  "DM_ENG_newTransferRequest d s t ft u un pw fs tfn su fu ck au =
     \<lparr> tr_isDownload = d, tr_state = s, tr_transferTime = t, tr_fileType = ft, tr_url = u,
       tr_username = un, tr_password = pw, tr_fileSize = fs, tr_targetFileName = tfn,
       tr_successURL = su, tr_failureURL = fu, tr_commandKey = ck, tr_announceURL = au,
       tr_faultCode = 0, tr_startTime = 0, tr_completeTime = 0, tr_transferId = 0 \<rparr>"

text \<open>The insertion used while the control file is read: never before the first element.\<close>

fun DM_ENG_addTransferRequest :: "transfer list \<Rightarrow> transfer \<Rightarrow> transfer list" where
  "DM_ENG_addTransferRequest [] n = [n]"
| "DM_ENG_addTransferRequest (d # ds) n =
     d # takeWhile (\<lambda>x. tr_transferTime x \<le> tr_transferTime n) ds @
       n # dropWhile (\<lambda>x. tr_transferTime x \<le> tr_transferTime n) ds"

record download =
  dl_fileType :: string
  dl_args :: "(string \<times> string option) list option"

section \<open>The control data\<close>

record ctrl =
  events :: "event list"
  periodicInformTime :: int
  sScheduledInformTime :: "string option"
  sScheduledInformCommandKey :: "string option"
  sRebootCommandKey :: "string option"
  transferRequests :: "transfer list"
  lastTransferId :: "32 word"
  downloadRequests :: "download list"
  retryCount :: int
  controlDataChanged :: bool

definition ctrl_init :: ctrl where
  "ctrl_init = \<lparr> events = [], periodicInformTime = 0, sScheduledInformTime = None,
     sScheduledInformCommandKey = None, sRebootCommandKey = None, transferRequests = [],
     lastTransferId = 0, downloadRequests = [], retryCount = 0, controlDataChanged = False \<rparr>"

text \<open>\<open>_releaseCtrl\<close> keeps the download requests, the retry count and the last identifier.\<close>

definition releaseCtrl :: "ctrl \<Rightarrow> ctrl" where
  "releaseCtrl c = c\<lparr> events := [], periodicInformTime := 0, sScheduledInformTime := None,
     sScheduledInformCommandKey := None, sRebootCommandKey := None, transferRequests := [] \<rparr>"

definition setPeriodicInformTime :: "int \<Rightarrow> ctrl \<Rightarrow> ctrl" where
  "setPeriodicInformTime t c = c\<lparr> periodicInformTime := t, controlDataChanged := True \<rparr>"

subsection \<open>Scheduled informs\<close>

definition before_comma :: "string \<Rightarrow> string" where
  "before_comma s = takeWhile (\<lambda>c. c \<noteq> CHR '','') s"

definition after_comma :: "string \<Rightarrow> string option" where
  "after_comma s = (if CHR '','' \<in> set s then Some (tl (dropWhile (\<lambda>c. c \<noteq> CHR '','') s)) else None)"

definition getScheduledInformTime :: "ctrl \<Rightarrow> int" where
  "getScheduledInformTime c =
     (case sScheduledInformTime c of None \<Rightarrow> 0 | Some s \<Rightarrow> atol (before_comma s))"

definition getScheduledInformCommandKey :: "ctrl \<Rightarrow> string option" where
  "getScheduledInformCommandKey c = map_option before_comma (sScheduledInformCommandKey c)"

definition nextScheduledInformCommand :: "ctrl \<Rightarrow> ctrl" where
  "nextScheduledInformCommand c =
     (case (sScheduledInformTime c, sScheduledInformCommandKey c) of
        (Some t, Some k) \<Rightarrow> c\<lparr> sScheduledInformTime := after_comma t,
           sScheduledInformCommandKey := after_comma k, controlDataChanged := True \<rparr>
      | _ \<Rightarrow> c)"

text \<open>
  The loop of \<open>addScheduledInformCommand\<close> moves the earlier commands to the new lists.  It
  dereferences NULL (None) when the list of keys is shorter than the list of times.
\<close>

lemma after_comma_shorter: "after_comma s = Some r \<Longrightarrow> length r < length s"
proof -
  assume h: "after_comma s = Some r"
  then have "dropWhile (\<lambda>c. c \<noteq> CHR '','') s \<noteq> []" "r = tl (dropWhile (\<lambda>c. c \<noteq> CHR '','') s)"
    by (auto simp: after_comma_def split: if_splits)
  moreover have "length (dropWhile (\<lambda>c. c \<noteq> CHR '','') s) \<le> length s" by (rule length_dropWhile_le)
  ultimately show ?thesis by (cases "dropWhile (\<lambda>c. c \<noteq> CHR '','') s") auto
qed

definition olen :: "string option \<Rightarrow> nat" where
  "olen o1 = (case o1 of None \<Rightarrow> 0 | Some s \<Rightarrow> Suc (length s))"

function move_loop :: "int \<Rightarrow> ctrl \<Rightarrow> string \<Rightarrow> string \<Rightarrow> (ctrl \<times> string \<times> string) option" where
  "move_loop time c nt nk =
     (let prev = getScheduledInformTime c
      in if prev \<noteq> 0 \<and> prev \<le> time
         then (case getScheduledInformCommandKey c of
                 None \<Rightarrow> None
               | Some k \<Rightarrow> move_loop time (nextScheduledInformCommand c)
                   (nt @ DM_ENG_longToString prev @ '','') (nk @ k @ '',''))
         else Some (c, nt, nk))"
  by pat_completeness auto
termination
  apply (relation "measure (\<lambda>(_, c, _, _). olen (sScheduledInformTime c))")
   apply simp
  apply (auto simp: getScheduledInformTime_def getScheduledInformCommandKey_def
      nextScheduledInformCommand_def olen_def split: option.splits dest: after_comma_shorter)
  done

declare move_loop.simps [simp del]

definition addScheduledInformCommand :: "int \<Rightarrow> string option \<Rightarrow> ctrl \<Rightarrow> ub + ctrl" where
  "addScheduledInformCommand time commandKey c =
     (case commandKey of
        None \<Rightarrow> Inr c
      | Some key \<Rightarrow>
        if time \<le> 0 then Inr c
        else let sTime = DM_ENG_longToString time
        in case (sScheduledInformTime c, sScheduledInformCommandKey c) of
          (None, _) \<Rightarrow> Inr (c\<lparr> sScheduledInformTime := Some sTime,
             sScheduledInformCommandKey := Some key, controlDataChanged := True \<rparr>)
        | (Some _, None) \<Rightarrow> Inl NullDeref
        | _ \<Rightarrow> (case move_loop time c [] [] of
             None \<Rightarrow> Inl NullDeref
           | Some (c', nt, nk) \<Rightarrow>
               if getScheduledInformTime c' = 0
               then Inr (c'\<lparr> sScheduledInformTime := Some (nt @ sTime),
                  sScheduledInformCommandKey := Some (nk @ key), controlDataChanged := True \<rparr>)
               else case (sScheduledInformTime c', sScheduledInformCommandKey c') of
                 (Some t, Some k) \<Rightarrow> Inr (c'\<lparr> sScheduledInformTime := Some (nt @ sTime @ '','' @ t),
                    sScheduledInformCommandKey := Some (nk @ key @ '','' @ k), controlDataChanged := True \<rparr>)
               | _ \<Rightarrow> Inl NullDeref))"

subsection \<open>Event queue\<close>

definition isInEvents :: "string \<Rightarrow> ctrl \<Rightarrow> bool" where
  "isInEvents evCode c \<longleftrightarrow> (\<exists>e\<in>set (events c). code_text (ev_code e) = evCode)"

definition addEvent :: "evcode \<Rightarrow> string option \<Rightarrow> ctrl \<Rightarrow> ctrl" where
  "addEvent ec ck c =
     (if \<exists>e\<in>set (events c). same_pointer (ev_code e) ec \<and> ev_key e = ck then c
      else c\<lparr> events := events c @ [DM_ENG_newEventStruct (code_text ec) ck], controlDataChanged := True \<rparr>)"

definition deleteEvent :: "evcode \<Rightarrow> ctrl \<Rightarrow> ctrl" where
  "deleteEvent ec c =
     (if \<exists>e\<in>set (events c). same_pointer (ev_code e) ec
      then c\<lparr> events := filter (\<lambda>e. \<not> same_pointer (ev_code e) ec) (events c), controlDataChanged := True \<rparr>
      else c)"

definition deleteAllEvents :: "ctrl \<Rightarrow> ctrl" where
  "deleteAllEvents c = c\<lparr> events := [], controlDataChanged := True \<rparr>"

subsection \<open>Transfer queue\<close>

definition insertTransferRequest :: "transfer \<Rightarrow> ctrl \<Rightarrow> ctrl" where
  "insertTransferRequest tr c =
     (let i = lastTransferId c + 1; n = tr\<lparr> tr_transferId := i \<rparr>;
          before = (\<lambda>x. tr_transferTime x \<le> tr_transferTime tr)
      in c\<lparr> controlDataChanged := True, lastTransferId := i,
            transferRequests := takeWhile before (transferRequests c) @ n # dropWhile before (transferRequests c) \<rparr>)"

fun remove_first_id :: "32 word \<Rightarrow> transfer list \<Rightarrow> transfer list" where
  "remove_first_id i [] = []"
| "remove_first_id i (t # ts) = (if tr_transferId t = i then ts else t # remove_first_id i ts)"

definition removeTransferRequest :: "32 word \<Rightarrow> ctrl \<Rightarrow> ctrl" where
  "removeTransferRequest i c =
     (if \<exists>t\<in>set (transferRequests c). tr_transferId t = i
      then c\<lparr> transferRequests := remove_first_id i (transferRequests c), controlDataChanged := True \<rparr>
      else c)"

fun update_first_id :: "32 word \<Rightarrow> (transfer \<Rightarrow> transfer) \<Rightarrow> transfer list \<Rightarrow> transfer list" where
  "update_first_id i f [] = []"
| "update_first_id i f (t # ts) = (if tr_transferId t = i then f t # ts else t # update_first_id i f ts)"

definition updateTransferRequest ::
    "32 word \<Rightarrow> int \<Rightarrow> 32 word \<Rightarrow> int \<Rightarrow> int \<Rightarrow> ctrl \<Rightarrow> transfer option \<times> ctrl" where
  "updateTransferRequest i state cd start cmp c =
     (let f = (\<lambda>t. t\<lparr> tr_state := state, tr_faultCode := cd, tr_startTime := start, tr_completeTime := cmp \<rparr>)
      in case find (\<lambda>t. tr_transferId t = i) (transferRequests c) of
           None \<Rightarrow> (None, c)
         | Some t \<Rightarrow> (Some (f t), c\<lparr> transferRequests := update_first_id i f (transferRequests c),
                                      controlDataChanged := True \<rparr>))"

subsection \<open>Download queue, reboot key and retry count\<close>

definition addDownloadRequest :: "download \<Rightarrow> ctrl \<Rightarrow> ctrl" where
  "addDownloadRequest dr c = c\<lparr> downloadRequests := downloadRequests c @ [dr], controlDataChanged := True \<rparr>"

definition removeFirstDownloadRequest :: "ctrl \<Rightarrow> ctrl" where
  "removeFirstDownloadRequest c =
     (case downloadRequests c of [] \<Rightarrow> c | _ # ds \<Rightarrow> c\<lparr> downloadRequests := ds, controlDataChanged := True \<rparr>)"

definition setRebootCommandKey :: "string option \<Rightarrow> ctrl \<Rightarrow> ctrl" where
  "setRebootCommandKey key c =
     (if sRebootCommandKey c = None \<and> key = None then c
      else c\<lparr> sRebootCommandKey := key, controlDataChanged := True \<rparr>)"

text \<open>A key that begins with a star overwrites the first byte of the stored key, its NUL if empty.\<close>

definition addRebootCommandKey :: "string option \<Rightarrow> ctrl \<Rightarrow> ub + ctrl" where
  "addRebootCommandKey key c =
     (case key of
        None \<Rightarrow> Inr c
      | Some k \<Rightarrow>
        (case sRebootCommandKey c of
           None \<Rightarrow> Inr (c\<lparr> sRebootCommandKey := Some k, controlDataChanged := True \<rparr>)
         | Some old \<Rightarrow>
             if k \<noteq> [] \<and> hd k = CHR ''*''
             then if old = [] then Inl BufOverflow
                  else Inr (c\<lparr> sRebootCommandKey := Some (CHR ''*'' # tl old), controlDataChanged := True \<rparr>)
             else Inr (c\<lparr> sRebootCommandKey := Some (old @ '','' @ k), controlDataChanged := True \<rparr>)))"

definition resetRetryCount :: "ctrl \<Rightarrow> ctrl" where
  "resetRetryCount c = c\<lparr> retryCount := 0, controlDataChanged := True \<rparr>"

definition incRetryCount :: "ctrl \<Rightarrow> int \<times> ctrl" where
  "incRetryCount c = (let n = sint (word_of_int (retryCount c + 1) :: 32 word)
     in (n, c\<lparr> retryCount := n, controlDataChanged := True \<rparr>))"

section \<open>The scheduled informs are a queue of dated keys\<close>

text \<open>
  The two comma separated lists represent a list of pairs as long as the command keys have no
  comma: \<open>sched_repr\<close> is the representation, \<open>sched_contents\<close> reads it back.
\<close>

definition sched_ok :: "int \<Rightarrow> string \<Rightarrow> bool" where
  "sched_ok t k \<longleftrightarrow> 0 < t \<and> t \<le> LONG_MAX \<and> CHR '','' \<notin> set k"

definition times_text :: "(int \<times> string) list \<Rightarrow> string" where
  "times_text xs = join CHR '','' (map DM_ENG_longToString (map fst xs))"

definition keys_text :: "(int \<times> string) list \<Rightarrow> string" where
  "keys_text xs = join CHR '','' (map snd xs)"

definition opt_list :: "string \<Rightarrow> (int \<times> string) list \<Rightarrow> string option" where
  "opt_list s xs = (if xs = [] then None else Some s)"

definition sched_repr :: "(int \<times> string) list \<Rightarrow> ctrl \<Rightarrow> bool" where
  "sched_repr xs c \<longleftrightarrow> (\<forall>(t, k)\<in>set xs. sched_ok t k) \<and>
     sScheduledInformTime c = opt_list (times_text xs) xs \<and>
     sScheduledInformCommandKey c = opt_list (keys_text xs) xs"

definition sched_contents :: "ctrl \<Rightarrow> (int \<times> string) list" where
  "sched_contents c =
     (case (sScheduledInformTime c, sScheduledInformCommandKey c) of
        (Some t, Some k) \<Rightarrow> zip (map atol (fields_of CHR '','' t)) (fields_of CHR '','' k)
      | _ \<Rightarrow> [])"

lemma long_no_comma: "0 < t \<Longrightarrow> t \<le> LONG_MAX \<Longrightarrow> CHR '','' \<notin> set (DM_ENG_longToString t)"
  by (rule long_codec.pr_no_sep) (auto simp: LONG_MIN_def isdigit_def)

lemma atol_long: "0 < t \<Longrightarrow> t \<le> LONG_MAX \<Longrightarrow> atol (DM_ENG_longToString t) = t"
  using atol_codec.rd_pr [of t] by (simp add: LONG_MIN_def)

lemma after_comma_nosep: "CHR '','' \<notin> set s \<Longrightarrow> after_comma s = None"
  by (simp add: after_comma_def)

lemma after_comma_sep: "CHR '','' \<notin> set s \<Longrightarrow> after_comma (s @ CHR '','' # r) = Some r"
  by (simp add: after_comma_def)

lemma before_comma_nosep: "CHR '','' \<notin> set s \<Longrightarrow> before_comma s = s"
  by (simp add: before_comma_def takeWhile_nosep)

lemma before_comma_sep: "CHR '','' \<notin> set s \<Longrightarrow> before_comma (s @ CHR '','' # r) = s"
  by (simp add: before_comma_def)

lemmas comma_simps = after_comma_nosep after_comma_sep before_comma_nosep before_comma_sep
lemmas sched_texts = times_text_def keys_text_def opt_list_def

lemma sched_contents_repr: "sched_repr xs c \<Longrightarrow> sched_contents c = xs"
proof -
  assume r: "sched_repr xs c"
  show ?thesis
  proof (cases "xs = []")
    case False
    have ok: "\<forall>x\<in>set xs. 0 < fst x \<and> fst x \<le> LONG_MAX \<and> CHR '','' \<notin> set (snd x)"
      using r by (auto simp: sched_repr_def sched_ok_def)
    have "fields_of CHR '','' (times_text xs) = map (DM_ENG_longToString \<circ> fst) xs"
      unfolding times_text_def using ok False long_no_comma by (subst fields_join) auto
    moreover have "fields_of CHR '','' (keys_text xs) = map snd xs"
      unfolding keys_text_def using ok False by (subst fields_join) auto
    moreover have "map atol (map (DM_ENG_longToString \<circ> fst) xs) = map fst xs"
      using ok atol_long by auto
    moreover have "sched_contents c
        = zip (map atol (fields_of CHR '','' (times_text xs))) (fields_of CHR '','' (keys_text xs))"
      using r False by (simp add: sched_contents_def sched_repr_def opt_list_def)
    ultimately show ?thesis by (simp only: zip_map_fst_snd)
  qed (use r in \<open>simp add: sched_contents_def sched_repr_def opt_list_def\<close>)
qed

lemma sched_repr_first:
  "sched_repr ((t, k) # xs) c \<Longrightarrow> getScheduledInformTime c = t \<and> getScheduledInformCommandKey c = Some k"
  using long_no_comma [of t] atol_long [of t]
  by (cases xs) (auto simp: sched_repr_def sched_ok_def sched_texts getScheduledInformTime_def
      getScheduledInformCommandKey_def comma_simps)

lemma sched_repr_empty: "sched_repr [] c \<Longrightarrow> getScheduledInformTime c = 0"
  by (simp add: sched_repr_def opt_list_def getScheduledInformTime_def)

lemma sched_repr_next:
  "sched_repr (x # xs) c \<Longrightarrow> sched_repr xs (nextScheduledInformCommand c)"
  using long_no_comma [of "fst x"]
  by (cases xs) (auto simp: sched_repr_def sched_ok_def sched_texts nextScheduledInformCommand_def comma_simps)

lemma sched_repr_next_empty: "sched_repr [] c \<Longrightarrow> nextScheduledInformCommand c = c"
  by (simp add: sched_repr_def opt_list_def nextScheduledInformCommand_def)

text \<open>The text moved by the loop: every element followed by a comma.\<close>

definition each_comma :: "string list \<Rightarrow> string" where
  "each_comma fs = concat (map (\<lambda>f. f @ '','') fs)"

lemma each_comma_join: "gs \<noteq> [] \<Longrightarrow> each_comma fs @ join CHR '','' gs = join CHR '','' (fs @ gs)"
  by (induction fs) (auto simp: each_comma_def join_Cons)

lemma move_loop_repr:
  "sched_repr xs c \<Longrightarrow>
     \<exists>c'. move_loop time c nt nk = Some (c',
        nt @ each_comma (map DM_ENG_longToString (map fst (takeWhile (\<lambda>x. fst x \<le> time) xs))),
        nk @ each_comma (map snd (takeWhile (\<lambda>x. fst x \<le> time) xs))) \<and>
      sched_repr (dropWhile (\<lambda>x. fst x \<le> time) xs) c'"
proof (induction xs arbitrary: c nt nk)
  case Nil
  then show ?case using sched_repr_empty [OF Nil]
    by (subst move_loop.simps) (simp add: each_comma_def)
next
  case (Cons x xs)
  obtain t k where x: "x = (t, k)" by (cases x)
  have f: "getScheduledInformTime c = t" "getScheduledInformCommandKey c = Some k" "t \<noteq> 0"
    using sched_repr_first [of t k xs c] Cons.prems x by (auto simp: sched_repr_def sched_ok_def)
  show ?case
  proof (cases "t \<le> time")
    case True
    from Cons.IH [OF sched_repr_next [OF Cons.prems],
        of "nt @ DM_ENG_longToString t @ '',''" "nk @ k @ '',''"]
    show ?thesis using True f x by (subst move_loop.simps) (simp add: each_comma_def)
  next
    case False
    then show ?thesis using f x Cons.prems by (subst move_loop.simps) (simp add: each_comma_def)
  qed
qed

lemma addScheduledInformCommand_repr:
  assumes "sched_repr xs c" "sched_ok t k"
  shows "\<exists>c'. addScheduledInformCommand t (Some k) c = Inr c' \<and> sched_repr (insert_timed t k xs) c'"
proof (cases "xs = []")
  case True
  then show ?thesis using assms
    by (simp add: addScheduledInformCommand_def sched_repr_def sched_ok_def sched_texts insert_timed_def)
next
  case False
  let ?b = "takeWhile (\<lambda>x. fst x \<le> t) xs" and ?a = "dropWhile (\<lambda>x. fst x \<le> t) xs"
  obtain c' where c': "move_loop t c [] [] = Some (c', each_comma (map DM_ENG_longToString (map fst ?b)),
      each_comma (map snd ?b))" "sched_repr ?a c'"
    using move_loop_repr [OF assms(1), of t "[]" "[]"] by auto
  have s: "sScheduledInformTime c \<noteq> None" "sScheduledInformCommandKey c \<noteq> None" "0 < t"
    using assms False by (auto simp: sched_repr_def opt_list_def sched_ok_def)
  have ok: "\<forall>(t, k)\<in>set (insert_timed t k xs). sched_ok t k"
    using assms by (auto simp: sched_repr_def)
  have tt: "times_text (insert_timed t k xs)
      = each_comma (map DM_ENG_longToString (map fst ?b)) @ join CHR '','' (DM_ENG_longToString t # map DM_ENG_longToString (map fst ?a))"
    "keys_text (insert_timed t k xs) = each_comma (map snd ?b) @ join CHR '','' (k # map snd ?a)"
    by (simp_all add: times_text_def keys_text_def insert_timed_def each_comma_join)
  have ne: "insert_timed t k xs \<noteq> []" by (simp add: insert_timed_def)
  show ?thesis
  proof (cases ?a)
    case Nil
    from sched_repr_empty [OF c'(2) [unfolded Nil]] have "getScheduledInformTime c' = 0" .
    then show ?thesis using c' s ok tt Nil ne
      by (auto simp: addScheduledInformCommand_def sched_repr_def opt_list_def)
  next
    case (Cons y ys)
    obtain t' k' where y: "y = (t', k')" by (cases y)
    have "getScheduledInformTime c' \<noteq> 0"
      using c'(2) sched_repr_first [of t' k' ys c'] Cons y by (auto simp: sched_repr_def sched_ok_def)
    then show ?thesis using c' s ok tt Cons ne
      by (auto simp: addScheduledInformCommand_def sched_repr_def opt_list_def sched_texts join_Cons)
  qed
qed

text \<open>The provider of the interface: the two strings of the control data.\<close>

definition sched_inv :: "ctrl \<Rightarrow> bool" where
  "sched_inv c \<longleftrightarrow> sched_repr (sched_contents c) c"

definition sched_add :: "int \<Rightarrow> string \<Rightarrow> ctrl \<Rightarrow> ctrl" where
  "sched_add t k c = (case addScheduledInformCommand t (Some k) c of Inr c' \<Rightarrow> c' | Inl e \<Rightarrow> c)"

definition sched_first :: "ctrl \<Rightarrow> int option" where
  "sched_first c = (let t = getScheduledInformTime c in if t = 0 then None else Some t)"

lemma sched_invI: "sched_repr xs c \<Longrightarrow> sched_inv c \<and> sched_contents c = xs"
  using sched_contents_repr [of xs c] by (simp add: sched_inv_def)

lemma sched_add_repr:
  "sched_inv c \<Longrightarrow> sched_ok t k \<Longrightarrow> sched_repr (insert_timed t k (sched_contents c)) (sched_add t k c)"
  using addScheduledInformCommand_repr [of "sched_contents c" c t k]
  by (auto simp: sched_inv_def sched_add_def)

lemma sched_next_repr:
  "sched_inv c \<Longrightarrow> sched_repr (tl (sched_contents c)) (nextScheduledInformCommand c)"
  unfolding sched_inv_def
  by (cases "sched_contents c") (auto simp: sched_repr_next sched_repr_next_empty)

lemma sched_first_contents:
  "sched_inv c \<Longrightarrow> sched_first c = (case sched_contents c of [] \<Rightarrow> None | x # _ \<Rightarrow> Some (fst x))"
proof -
  assume i: "sched_inv c"
  show ?thesis
  proof (cases "sched_contents c")
    case Nil
    then show ?thesis using i sched_repr_empty [of c] by (simp add: sched_inv_def sched_first_def)
  next
    case (Cons x xs)
    obtain t k where x: "x = (t, k)" by (cases x)
    then have r: "sched_repr ((t, k) # xs) c" using i Cons by (simp add: sched_inv_def)
    then have "t \<noteq> 0" by (auto simp: sched_repr_def sched_ok_def)
    then show ?thesis using sched_repr_first [OF r] Cons x by (simp add: sched_first_def)
  qed
qed

interpretation scheduled: timed_queue sched_contents sched_inv sched_ok sched_add
    nextScheduledInformCommand sched_first
  by unfold_locales
    (use sched_add_repr sched_next_repr sched_invI sched_first_contents in blast)+

text \<open>
  C16: Scheduled informs are a priority queue.  Whatever the order in which commands with keys free
  of commas are added to the two comma separated strings, they come out by date, and in their
  order of arrival for equal dates: the n-th one due is the n-th of the stable sort.
\<close>

theorem scheduled_informs_by_date:
  assumes "sScheduledInformTime c = None" "sScheduledInformCommandKey c = None"
    "\<forall>(t, k)\<in>set xs. sched_ok t k" "n < length xs"
  shows "let c' = (nextScheduledInformCommand ^^ n) (foldl (\<lambda>c (t, k). sched_add t k c) c xs)
    in getScheduledInformTime c' = fst (sort_key fst xs ! n) \<and>
       getScheduledInformCommandKey c' = Some (snd (sort_key fst xs ! n))"
proof -
  have r: "sched_repr [] c" using assms by (simp add: sched_repr_def opt_list_def)
  note i = sched_invI [OF r]
  define c' where "c' = (nextScheduledInformCommand ^^ n) (foldl (\<lambda>c (t, k). sched_add t k c) c xs)"
  have "sched_inv (foldl (\<lambda>c (t, k). sched_add t k c) c xs)"
    using scheduled.add_all_contents [of c xs] i assms(3) by blast
  from scheduled.removes_contents [OF this, of n]
  have c': "sched_inv c' \<and> sched_contents c' = drop n (sort_key fst xs)"
    using scheduled.add_all_sorts [of c xs] i assms(3) unfolding c'_def by simp
  moreover have "drop n (sort_key fst xs) = sort_key fst xs ! n # drop (Suc n) (sort_key fst xs)"
    using assms(4) by (simp add: Cons_nth_drop_Suc)
  ultimately have "sched_repr (sort_key fst xs ! n # drop (Suc n) (sort_key fst xs)) c'"
    by (metis sched_inv_def)
  moreover obtain t k where tk: "sort_key fst xs ! n = (t, k)" by fastforce
  ultimately have "sched_repr ((t, k) # drop (Suc n) (sort_key fst xs)) c'" by simp
  from sched_repr_first [OF this] tk show ?thesis unfolding Let_def c'_def [symmetric] by simp
qed

theorem scheduled_informs_by_date_witness:
  "getScheduledInformCommandKey (nextScheduledInformCommand
     (sched_add 50 ''b'' (sched_add 70 ''c'' (sched_add 50 ''a'' ctrl_init)))) = Some ''b''"
proof -
  have "sort_key fst [(50 :: int, ''a''), (70, ''c''), (50, ''b'')] = [(50, ''a''), (50, ''b''), (70, ''c'')]"
    by simp
  then show ?thesis
    using scheduled_informs_by_date [of ctrl_init "[(50, ''a''), (70, ''c''), (50, ''b'')]" 1]
    by (simp add: ctrl_init_def sched_ok_def LONG_MAX_def Let_def)
qed

section \<open>The transfer queue\<close>

definition transfer_contents :: "ctrl \<Rightarrow> (int \<times> transfer) list" where
  "transfer_contents c = map (\<lambda>t. (tr_transferTime t, t\<lparr> tr_transferId := 0 \<rparr>)) (transferRequests c)"

definition remove_first_transfer :: "ctrl \<Rightarrow> ctrl" where
  "remove_first_transfer c =
     (case transferRequests c of [] \<Rightarrow> c | t # _ \<Rightarrow> removeTransferRequest (tr_transferId t) c)"

lemma insert_contents:
  "tr_transferId tr = 0 \<Longrightarrow>
     transfer_contents (insertTransferRequest tr c)
       = insert_timed (tr_transferTime tr) tr (transfer_contents c)"
  by (simp add: transfer_contents_def insertTransferRequest_def insert_timed_def Let_def
      takeWhile_map dropWhile_map comp_def)

interpretation transfers: timed_queue transfer_contents "\<lambda>_. True"
    "\<lambda>t tr. tr_transferTime tr = t \<and> tr_transferId tr = 0" "\<lambda>t. insertTransferRequest" remove_first_transfer
    "\<lambda>c. case transferRequests c of [] \<Rightarrow> None | t # _ \<Rightarrow> Some (tr_transferTime t)"
  by unfold_locales
    (auto simp: insert_contents, auto simp: transfer_contents_def remove_first_transfer_def
      removeTransferRequest_def split: list.splits)

text \<open>
  The invariant of the queue: sorted by date, with distinct identifiers, none of them above the
  last one given.
\<close>

definition transfer_inv :: "ctrl \<Rightarrow> bool" where
  "transfer_inv c \<longleftrightarrow> sorted (map tr_transferTime (transferRequests c)) \<and>
     distinct (map tr_transferId (transferRequests c)) \<and>
     (\<forall>t\<in>set (transferRequests c). tr_transferId t \<le> lastTransferId c)"

lemma insertTransferRequest_requests:
  "mset (transferRequests (insertTransferRequest tr c))
     = add_mset (tr\<lparr> tr_transferId := lastTransferId c + 1 \<rparr>) (mset (transferRequests c))"
proof -
  let ?P = "\<lambda>x. tr_transferTime x \<le> tr_transferTime tr"
  have "mset (transferRequests c) = mset (takeWhile ?P (transferRequests c)) + mset (dropWhile ?P (transferRequests c))"
    unfolding mset_append [symmetric] by simp
  then show ?thesis by (simp add: insertTransferRequest_def Let_def)
qed

lemma insertTransferRequest_sorted:
  "sorted (map tr_transferTime (transferRequests c)) \<Longrightarrow>
     sorted (map tr_transferTime (transferRequests (insertTransferRequest tr c)))"
proof -
  assume s: "sorted (map tr_transferTime (transferRequests c))"
  let ?tr = "tr\<lparr> tr_transferId := 0 \<rparr>"
  have "map fst (transfer_contents c) = map tr_transferTime (transferRequests c)" for c
    by (simp add: transfer_contents_def comp_def)
  moreover have "transferRequests (insertTransferRequest ?tr c) = transferRequests (insertTransferRequest tr c)"
    by (simp add: insertTransferRequest_def Let_def)
  ultimately show ?thesis
    using transfers.add_sorted [where q = c and t = "tr_transferTime ?tr" and k = ?tr] s by simp
qed

lemma transfer_inv_alt:
  "transfer_inv c \<longleftrightarrow> sorted (map tr_transferTime (transferRequests c)) \<and>
     distinct (map tr_transferId (transferRequests c)) \<and>
     (\<forall>i\<in>set (map tr_transferId (transferRequests c)). i \<le> lastTransferId c)"
  by (simp add: transfer_inv_def)

lemma transfer_inv_cong:
  "transfer_inv c \<Longrightarrow>
   map tr_transferId (transferRequests c') = map tr_transferId (transferRequests c) \<Longrightarrow>
   map tr_transferTime (transferRequests c') = map tr_transferTime (transferRequests c) \<Longrightarrow>
   lastTransferId c' = lastTransferId c \<Longrightarrow> transfer_inv c'"
  unfolding transfer_inv_alt by (simp only: simp_thms) blast

lemma remove_first_id_distinct:
  "distinct (map tr_transferId ts) \<Longrightarrow> remove_first_id i ts = filter (\<lambda>t. tr_transferId t \<noteq> i) ts"
proof (induction ts)
  case (Cons t ts)
  have "filter (\<lambda>t. tr_transferId t \<noteq> i) ts = ts" if "tr_transferId t = i"
    unfolding filter_id_conv using Cons.prems that by (force simp: image_iff)
  with Cons show ?case by auto
qed simp

lemma update_first_id_distinct:
  "distinct (map tr_transferId ts) \<Longrightarrow>
     update_first_id i f ts = map (\<lambda>t. if tr_transferId t = i then f t else t) ts"
proof (induction ts)
  case (Cons t ts)
  have "map (\<lambda>t. if tr_transferId t = i then f t else t) ts = ts" if "tr_transferId t = i"
    using Cons.prems that by (intro map_idI) (force simp: image_iff)
  with Cons show ?case by auto
qed simp

lemma insert_transfer_inv:
  assumes "transfer_inv c" "lastTransferId c \<noteq> - 1"
  shows "transfer_inv (insertTransferRequest tr c) \<and>
    mset (transferRequests (insertTransferRequest tr c))
      = add_mset (tr\<lparr> tr_transferId := lastTransferId c + 1 \<rparr>) (mset (transferRequests c)) \<and>
    (\<forall>t\<in>set (transferRequests c). tr_transferId t \<noteq> lastTransferId c + 1)"
proof -
  have up: "lastTransferId c < lastTransferId c + 1"
  proof -
    have "1 + lastTransferId c \<noteq> 0" using assms(2) by (metis add_eq_0_iff)
    from unatSuc [OF this] show ?thesis by (simp add: word_less_nat_alt add.commute)
  qed
  have fresh: "\<forall>t\<in>set (transferRequests c). tr_transferId t < lastTransferId c + 1"
    using assms(1) up by (auto simp: transfer_inv_def intro: le_less_trans)
  note m = insertTransferRequest_requests [of tr c]
  let ?q = "transferRequests (insertTransferRequest tr c)"
  have st: "set ?q = insert (tr\<lparr> tr_transferId := lastTransferId c + 1 \<rparr>) (set (transferRequests c))"
    unfolding set_mset_mset [symmetric] m by simp
  have "mset (map tr_transferId ?q) = mset ((lastTransferId c + 1) # map tr_transferId (transferRequests c))"
    using arg_cong [OF m, of "image_mset tr_transferId"] by simp
  moreover have "distinct ((lastTransferId c + 1) # map tr_transferId (transferRequests c))"
    using assms(1) fresh by (auto simp: transfer_inv_def)
  ultimately have "distinct (map tr_transferId ?q)"
    using mset_eq_imp_distinct_iff by blast
  moreover have "lastTransferId (insertTransferRequest tr c) = lastTransferId c + 1"
    by (simp add: insertTransferRequest_def Let_def)
  ultimately have "transfer_inv (insertTransferRequest tr c)"
    using insertTransferRequest_sorted [of c tr] assms(1) st fresh
    by (auto simp: transfer_inv_def intro: less_imp_le)
  with m fresh show ?thesis by auto
qed

text \<open>
  A transfer inserted in the queue gets a fresh identifier and leaves the other requests alone,
  and the queue stays sorted by date with distinct identifiers, until the counter wraps.
\<close>

theorem insertTransferRequest_inv:
  assumes "transfer_inv c" "lastTransferId c \<noteq> - 1"
  shows "transfer_inv (insertTransferRequest tr c) \<and>
    mset (transferRequests (insertTransferRequest tr c))
      = add_mset (tr\<lparr> tr_transferId := lastTransferId c + 1 \<rparr>) (mset (transferRequests c)) \<and>
    (\<forall>t\<in>set (transferRequests c). tr_transferId t \<noteq> lastTransferId c + 1)"
  using assms by (rule insert_transfer_inv)

theorem insertTransferRequest_inv_witness:
  "transfer_inv (insertTransferRequest
     (DM_ENG_newTransferRequest True 1 50 None None None None 0 None None None None None)
     (insertTransferRequest
       (DM_ENG_newTransferRequest True 1 60 None None None None 0 None None None None None) ctrl_init))"
proof -
  let ?n = "\<lambda>t. DM_ENG_newTransferRequest True 1 t None None None None 0 None None None None None"
  have "transfer_inv ctrl_init" by (simp add: transfer_inv_def ctrl_init_def)
  with insertTransferRequest_inv [of ctrl_init "?n 60"] have "transfer_inv (insertTransferRequest (?n 60) ctrl_init)"
    by (simp add: ctrl_init_def)
  moreover have "lastTransferId (insertTransferRequest (?n 60) ctrl_init) \<noteq> - 1"
    by (simp add: insertTransferRequest_def Let_def ctrl_init_def)
  ultimately show ?thesis using insertTransferRequest_inv by blast
qed

text \<open>
  Under the invariant an identifier designates one request: removing it deletes exactly the
  requests with this identifier, updating it changes exactly those and returns the new content,
  and both keep the invariant.
\<close>

theorem transfer_by_id:
  assumes "transfer_inv c"
  shows "transferRequests (removeTransferRequest i c)
      = filter (\<lambda>t. tr_transferId t \<noteq> i) (transferRequests c) \<and>
    transfer_inv (removeTransferRequest i c) \<and>
    transfer_inv (snd (updateTransferRequest i st cd start cmp c)) \<and>
    transferRequests (snd (updateTransferRequest i st cd start cmp c))
      = map (\<lambda>t. if tr_transferId t = i
          then t\<lparr> tr_state := st, tr_faultCode := cd, tr_startTime := start, tr_completeTime := cmp \<rparr>
          else t) (transferRequests c)"
proof -
  have d: "distinct (map tr_transferId (transferRequests c))" using assms by (simp add: transfer_inv_def)
  have r: "transferRequests (removeTransferRequest i c)
      = filter (\<lambda>t. tr_transferId t \<noteq> i) (transferRequests c)"
    using remove_first_id_distinct [OF d, of i]
    by (auto simp: removeTransferRequest_def filter_id_conv intro!: sym [OF filter_True])
  let ?f = "\<lambda>t. t\<lparr> tr_state := st, tr_faultCode := cd, tr_startTime := start, tr_completeTime := cmp \<rparr>"
  let ?g = "\<lambda>t. if tr_transferId t = i then ?f t else t"
  have u: "transferRequests (snd (updateTransferRequest i st cd start cmp c)) = map ?g (transferRequests c)"
  proof (cases "find (\<lambda>t. tr_transferId t = i) (transferRequests c)")
    case None
    then have "map ?g (transferRequests c) = transferRequests c"
      by (intro map_idI) (auto simp: find_None_iff)
    with None show ?thesis by (simp add: updateTransferRequest_def Let_def)
  next
    case (Some t)
    then show ?thesis using update_first_id_distinct [OF d, of i ?f]
      by (simp add: updateTransferRequest_def Let_def)
  qed
  have l: "lastTransferId (snd (updateTransferRequest i st cd start cmp c)) = lastTransferId c"
    "lastTransferId (removeTransferRequest i c) = lastTransferId c"
    by (auto simp: updateTransferRequest_def removeTransferRequest_def Let_def split: option.split)
  have "transfer_inv (snd (updateTransferRequest i st cd start cmp c))"
    by (rule transfer_inv_cong [OF assms]) (simp_all only: u l, auto)
  moreover have "transfer_inv (removeTransferRequest i c)"
    using assms r l
    by (auto simp: transfer_inv_def distinct_map_filter sorted_filter)
  ultimately show ?thesis using r u by blast
qed

theorem transfer_by_id_witness:
  "transferRequests (removeTransferRequest 1 (insertTransferRequest
     (DM_ENG_newTransferRequest True 1 60 None None None None 0 None None None None None) ctrl_init)) = []"
proof -
  let ?n = "DM_ENG_newTransferRequest True 1 60 None None None None 0 None None None None None"
  have "transfer_inv ctrl_init" by (simp add: transfer_inv_def ctrl_init_def)
  with insert_transfer_inv [of ctrl_init ?n] have i: "transfer_inv (insertTransferRequest ?n ctrl_init)"
    by (simp add: ctrl_init_def)
  show ?thesis using transfer_by_id [OF i, of 1]
    by (simp add: insertTransferRequest_def Let_def ctrl_init_def)
qed

section \<open>The event queue\<close>

definition same_event :: "evcode \<Rightarrow> string option \<Rightarrow> event \<Rightarrow> bool" where
  "same_event ec ck e \<longleftrightarrow> ev_code e = ec \<and> ev_key e = ck"

definition event_inv :: "ctrl \<Rightarrow> bool" where
  "event_inv c \<longleftrightarrow> (\<forall>e\<in>set (events c). ev_code e = internEventCode (code_text (ev_code e))) \<and>
     distinct (filter (\<lambda>e. code_text (ev_code e) \<in> set standard_codes) (events c))"

lemma same_pointer_Const: "same_pointer e (Const s) \<longleftrightarrow> e = Const s"
  by (cases e) auto

lemma same_pointer_Heap [simp]: "\<not> same_pointer e (Heap s)"
  by (cases e) auto

lemma distinct_filter_swap: "distinct (filter P xs) \<Longrightarrow> distinct (filter P (filter Q xs))"
proof -
  assume "distinct (filter P xs)"
  then have "distinct (filter Q (filter P xs))" by (rule distinct_filter)
  then show ?thesis by (simp add: conj_commute)
qed

text \<open>
  The events of the standard codes form a set: adding one keeps the queue free of duplicates
  and makes it pending, adding it again changes nothing, and deleting a code removes all of its
  events and no other.
\<close>

theorem standard_events_are_a_set:
  assumes "event_inv c" "s \<in> set standard_codes"
  shows "event_inv (addEvent (Const s) ck c) \<and> isInEvents s (addEvent (Const s) ck c) \<and>
    addEvent (Const s) ck (addEvent (Const s) ck c) = addEvent (Const s) ck c \<and>
    event_inv (deleteEvent (Const s) c) \<and> \<not> isInEvents s (deleteEvent (Const s) c) \<and>
    (\<forall>t. t \<noteq> s \<longrightarrow> isInEvents t (deleteEvent (Const s) c) = isInEvents t c)"
proof -
  have new: "DM_ENG_newEventStruct s ck = \<lparr> ev_code = Const s, ev_key = ck \<rparr>"
    using assms(2) by (simp add: DM_ENG_newEventStruct_def internEventCode_def)
  have cst: "ev_code e = Const s" if "e \<in> set (events c)" "code_text (ev_code e) = s" for e
    using assms that by (auto simp: event_inv_def internEventCode_def)
  have "event_inv (addEvent (Const s) ck c)"
    using assms new by (auto simp: addEvent_def event_inv_def internEventCode_def same_pointer_Const)
  moreover have "isInEvents s (addEvent (Const s) ck c)"
    using new by (auto simp: addEvent_def isInEvents_def same_pointer_Const intro: bexI [rotated])
  moreover have "addEvent (Const s) ck (addEvent (Const s) ck c) = addEvent (Const s) ck c"
    using new by (auto simp: addEvent_def same_pointer_Const)
  moreover have "event_inv (deleteEvent (Const s) c)"
    using assms(1) distinct_filter_swap unfolding event_inv_def deleteEvent_def by (auto simp del: filter_filter)
  moreover have "\<not> isInEvents s (deleteEvent (Const s) c)"
    using cst by (auto simp: deleteEvent_def isInEvents_def same_pointer_Const)
  moreover have "isInEvents t (deleteEvent (Const s) c) = isInEvents t c" if "t \<noteq> s" for t
    using that by (auto simp: deleteEvent_def isInEvents_def same_pointer_Const)
  ultimately show ?thesis by blast
qed

theorem standard_events_are_a_set_witness:
  "isInEvents ''1 BOOT'' (addEvent (Const ''1 BOOT'') None ctrl_init)"
  using standard_events_are_a_set [of ctrl_init "''1 BOOT''" None]
  by (simp add: event_inv_def ctrl_init_def standard_codes_def)

text \<open>
  The events of vendor specific codes are compared by the address of their copy: adding one
  twice queues it twice, and deleting it leaves the queue as it is.
\<close>

theorem vendor_events_not_merged:
  "events (addEvent (Heap s) ck (addEvent (Heap s) ck c))
     = events c @ [DM_ENG_newEventStruct s ck, DM_ENG_newEventStruct s ck] \<and>
   deleteEvent (Heap s) c = c"
  by (simp add: addEvent_def deleteEvent_def)

text \<open>
  A command key with a comma does not survive in the lists: it is read as its beginning, and
  the insertion of a later command drops the part after the comma.
\<close>

theorem comma_key_truncated:
  "getScheduledInformCommandKey (sched_add 50 ''a,b'' ctrl_init) = Some ''a'' \<and>
   sScheduledInformCommandKey (sched_add 70 ''c'' (sched_add 50 ''a,b'' ctrl_init)) = Some ''a,c''"
  by code_simp

end
