(* ===== verification/CtrlFile.thy ===== *)
theory CtrlFile
  imports Crc Ctrl
begin

text \<open>
  The control file of \<open>DM_DAT1_ParameterData.c\<close>: \<open>_writeDmControl\<close> prints the control data
  as lines of fields between semicolons, \<open>_readDmControl\<close> reads them with \<open>nextToken\<close>.  A
  reading that would dereference NULL is None; a line longer than the buffer of 800 bytes is a
  \<open>BufOverflow\<close>.
\<close>

section \<open>Tokens\<close>

text \<open>
  A token ends at a semicolon or at a character below the blank; characters are signed, so every
  byte from 0x80 on ends it too.  A token that begins with the code of NULL is NULL.
\<close>

definition tok_end :: "char \<Rightarrow> bool" where
  "tok_end c \<longleftrightarrow> c = CHR '';'' \<or> schar c < 32"

definition nextToken :: "string \<Rightarrow> string option \<times> string" where
  "nextToken s =
     (let t = takeWhile (\<lambda>c. \<not> tok_end c) s
      in (if t \<noteq> [] \<and> hd t = CHR ''_'' then None else Some t, tl (dropWhile (\<lambda>c. \<not> tok_end c) s)))"

fun tokens :: "nat \<Rightarrow> string \<Rightarrow> string option list" where
  "tokens 0 s = []"
| "tokens (Suc n) s = (let (t, r) = nextToken s in t # tokens n r)"

definition atoi :: "string \<Rightarrow> int" where
  "atoi s = sint (word_of_int (atol s) :: 32 word)"

section \<open>Reading\<close>

lemma nextToken_shorter: "nextToken s = (Some (c # t), r) \<Longrightarrow> length r < length s"
proof -
  assume h: "nextToken s = (Some (c # t), r)"
  then have t: "takeWhile (\<lambda>c. \<not> tok_end c) s = c # t" and r: "r = tl (dropWhile (\<lambda>c. \<not> tok_end c) s)"
    by (auto simp: nextToken_def Let_def split: if_splits)
  have "length s = length (takeWhile (\<lambda>c. \<not> tok_end c) s) + length (dropWhile (\<lambda>c. \<not> tok_end c) s)"
    by (metis length_append takeWhile_dropWhile_id)
  then show ?thesis using t r by simp
qed

lemma nextToken_le: "nextToken s = (t, r) \<Longrightarrow> length r \<le> length s"
  using length_dropWhile_le [of "\<lambda>c. \<not> tok_end c" s] by (auto simp: nextToken_def Let_def)

lemma nextToken_two:
  "nextToken s = (Some (c # t), r) \<Longrightarrow> nextToken r = (k, r') \<Longrightarrow> length r' < length s"
  using nextToken_shorter nextToken_le by (metis le_less_trans)

function setEvents_loop :: "string \<Rightarrow> event list" where
  "setEvents_loop s =
     (case nextToken s of
        (Some (c # cs), r) \<Rightarrow> let (key, r') = nextToken r
          in DM_ENG_newEventStruct (c # cs) key # setEvents_loop r'
      | _ \<Rightarrow> [])"
  by pat_completeness auto
termination
  by (relation "measure length")
    (auto dest: nextToken_two [OF sym sym])

declare setEvents_loop.simps [simp del]

definition setEvents :: "string option \<Rightarrow> ctrl \<Rightarrow> ctrl" where
  "setEvents line c =
     (case line of None \<Rightarrow> c | Some l \<Rightarrow> c\<lparr> events := events c @ setEvents_loop l \<rparr>)"

definition setOthersData :: "string option \<Rightarrow> ctrl \<Rightarrow> ctrl option" where
  "setOthersData line c =
     (case line of
        None \<Rightarrow> Some c
      | Some l \<Rightarrow>
        (case tokens 5 l of
           [Some t, st, sk, rk, rc] \<Rightarrow> Some (c\<lparr> periodicInformTime := atol t, sScheduledInformTime := st,
              sScheduledInformCommandKey := sk, sRebootCommandKey := rk,
              retryCount := (case rc of None \<Rightarrow> 0 | Some n \<Rightarrow> atoi n) \<rparr>)
         | _ \<Rightarrow> None))"

text \<open>The request of a line: NULL where a number is expected is dereferenced.\<close>

definition transfer_of_line :: "string \<Rightarrow> transfer option" where
  "transfer_of_line line =
     (case tokens 17 line of
        [Some d, Some s, Some t, ft, u, un, pw, Some sz, tfn, su, fu, ck, au, Some fc, Some st, Some cmp, Some i] \<Rightarrow>
          Some ((DM_ENG_newTransferRequest (atoi d \<noteq> 0) (atoi s) (atol t) ft u un pw (word_of_int (atol sz))
              tfn su fu ck au)
            \<lparr> tr_faultCode := word_of_int (atol fc), tr_startTime := atol st, tr_completeTime := atol cmp,
              tr_transferId := word_of_int (atol i) \<rparr>)
      | _ \<Rightarrow> None)"

definition addNewTransferRequest :: "string \<Rightarrow> ctrl \<Rightarrow> ctrl option" where
  "addNewTransferRequest line c =
     map_option (\<lambda>t. c\<lparr> lastTransferId := (if tr_transferId t > lastTransferId c then tr_transferId t else lastTransferId c),
         transferRequests := DM_ENG_addTransferRequest (transferRequests c) t \<rparr>) (transfer_of_line line)"

fun read_args :: "nat \<Rightarrow> string \<Rightarrow> (string \<times> string option) list option" where
  "read_args 0 s = Some []"
| "read_args (Suc n) s =
     (case nextToken s of
        (None, _) \<Rightarrow> None
      | (Some nm, r) \<Rightarrow> let (v, r') = nextToken r in map_option ((#) (nm, v)) (read_args n r'))"

definition download_of_line :: "string \<Rightarrow> download option" where
  "download_of_line line =
     (let (ft, r) = nextToken line; (n, r') = nextToken r
      in case (ft, n) of
           (Some f, Some k) \<Rightarrow> if atoi k < 0 then None
             else map_option (\<lambda>as. \<lparr> dl_fileType = f, dl_args = Some as \<rparr>) (read_args (nat (atoi k)) r')
         | _ \<Rightarrow> None)"

definition addNewDownloadRequest :: "string \<Rightarrow> ctrl \<Rightarrow> ctrl option" where
  "addNewDownloadRequest line c =
     map_option (\<lambda>d. c\<lparr> downloadRequests := downloadRequests c @ [d] \<rparr>) (download_of_line line)"

fun each_line :: "(string \<Rightarrow> ctrl \<Rightarrow> ctrl option) \<Rightarrow> string list \<Rightarrow> ctrl \<Rightarrow> ctrl option" where
  "each_line f [] c = Some c"
| "each_line f (l # ls) c = (case f l c of None \<Rightarrow> None | Some c' \<Rightarrow> each_line f ls c')"

definition not_hash :: "string \<Rightarrow> bool" where
  "not_hash l \<longleftrightarrow> l = [] \<or> hd l \<noteq> CHR ''#''"

text \<open>\<open>_readDmControl\<close> on the content of a file that has changed since the last reading.\<close>

definition readDmControl :: "string \<Rightarrow> ctrl \<Rightarrow> ctrl option" where
  "readDmControl content c =
     (let c0 = releaseCtrl c
      in if \<not> checkCrc content then Some c0
         else let (l1, io1) = readln (open_read content); c1 = setEvents l1 c0; (l2, io2) = readln io1
         in case setOthersData l2 c1 of
              None \<Rightarrow> None
            | Some c2 \<Rightarrow>
                let ls = fst (readlns io2)
                in case each_line addNewTransferRequest (takeWhile not_hash ls) c2 of
                     None \<Rightarrow> None
                   | Some c3 \<Rightarrow> each_line addNewDownloadRequest (tl (dropWhile not_hash ls)) c3)"

section \<open>Writing\<close>

definition opt_text :: "string option \<Rightarrow> string" where
  "opt_text s = (case s of None \<Rightarrow> ''_'' | Some t \<Rightarrow> t)"

definition event_line :: "event list \<Rightarrow> string" where
  "event_line es = join CHR '';'' (concat (map (\<lambda>e. [code_text (ev_code e), opt_text (ev_key e)]) es))"

definition others_line :: "ctrl \<Rightarrow> string" where
  "others_line c = join CHR '';'' [deci (periodicInformTime c), opt_text (sScheduledInformTime c),
     opt_text (sScheduledInformCommandKey c), opt_text (sRebootCommandKey c), deci (retryCount c)]"

definition transfer_line :: "transfer \<Rightarrow> string" where
  "transfer_line t = join CHR '';'' [deci (of_bool (tr_isDownload t)), deci (tr_state t), deci (tr_transferTime t),
     opt_text (tr_fileType t), opt_text (tr_url t), opt_text (tr_username t), opt_text (tr_password t),
     dec (unat (tr_fileSize t)), opt_text (tr_targetFileName t), opt_text (tr_successURL t),
     opt_text (tr_failureURL t), opt_text (tr_commandKey t), opt_text (tr_announceURL t),
     dec (unat (tr_faultCode t)), deci (tr_startTime t), deci (tr_completeTime t), dec (unat (tr_transferId t))]"

definition download_line :: "download \<Rightarrow> string" where
  "download_line d =
     (let as = (case dl_args d of None \<Rightarrow> [] | Some as \<Rightarrow> as)
      in join CHR '';'' (dl_fileType d # dec (length as) # concat (map (\<lambda>(n, v). [n, opt_text v]) as)))"

definition ctrl_lines :: "ctrl \<Rightarrow> string list" where
  "ctrl_lines c = [event_line (events c), others_line c] @ map transfer_line (transferRequests c) @
     (if downloadRequests c = [] then [] else ''#'' # map download_line (downloadRequests c))"

text \<open>\<open>_writeDmControl\<close>: the content of the file.\<close>

definition writeDmControl :: "ctrl \<Rightarrow> ub + string" where
  "writeDmControl c =
     (if \<exists>l\<in>set (ctrl_lines c). length l \<ge> MAX_LINE_LEN then Inl BufOverflow
      else Inr (write_file (ctrl_lines c)))"

section \<open>What is written is read back\<close>

definition tok_safe :: "string \<Rightarrow> bool" where
  "tok_safe s \<longleftrightarrow> (\<forall>c\<in>set s. \<not> tok_end c) \<and> \<not> (s \<noteq> [] \<and> hd s = CHR ''_'')"

definition opt_safe :: "string option \<Rightarrow> bool" where
  "opt_safe s \<longleftrightarrow> (case s of None \<Rightarrow> True | Some t \<Rightarrow> tok_safe t)"

lemma tok_end_semicolon [simp]: "tok_end (CHR '';'')"
  by (simp add: tok_end_def)

lemma nextToken_sep: "\<forall>c\<in>set t. \<not> tok_end c \<Longrightarrow>
    nextToken (t @ CHR '';'' # r) = (if t \<noteq> [] \<and> hd t = CHR ''_'' then None else Some t, r)"
  by (simp add: nextToken_def takeWhile_append2 dropWhile_append2)

lemma nextToken_end: "\<forall>c\<in>set t. \<not> tok_end c \<Longrightarrow>
    nextToken t = (if t \<noteq> [] \<and> hd t = CHR ''_'' then None else Some t, [])"
  by (simp add: nextToken_def takeWhile_eq_all_conv [THEN iffD2] dropWhile_eq_Nil_conv [THEN iffD2])

definition tok_read :: "string \<Rightarrow> string option" where
  "tok_read t = (if t \<noteq> [] \<and> hd t = CHR ''_'' then None else Some t)"

lemma tok_read_opt [simp]: "opt_safe s \<Longrightarrow> tok_read (opt_text s) = s"
  by (cases s) (auto simp: tok_read_def opt_text_def opt_safe_def tok_safe_def)

lemma tok_read_safe [simp]: "tok_safe s \<Longrightarrow> tok_read s = Some s"
  by (auto simp: tok_read_def tok_safe_def)

lemma opt_text_plain: "opt_safe s \<Longrightarrow> c \<in> set (opt_text s) \<Longrightarrow> \<not> tok_end c"
  by (cases s) (auto simp: opt_text_def opt_safe_def tok_safe_def tok_end_def schar_def)

lemma nextToken_join_Cons:
  "\<forall>c\<in>set t. \<not> tok_end c \<Longrightarrow> ts \<noteq> [] \<Longrightarrow>
     nextToken (join CHR '';'' (t # ts)) = (tok_read t, join CHR '';'' ts)"
  by (simp add: join_Cons nextToken_sep tok_read_def)

lemma nextToken_join_end:
  "\<forall>c\<in>set t. \<not> tok_end c \<Longrightarrow> nextToken (join CHR '';'' [t]) = (tok_read t, [])"
  by (simp add: nextToken_end tok_read_def)

lemma tokens_join:
  "ts \<noteq> [] \<Longrightarrow> \<forall>t\<in>set ts. \<forall>c\<in>set t. \<not> tok_end c \<Longrightarrow>
     tokens (length ts) (join CHR '';'' ts) = map tok_read ts"
proof (induction ts)
  case (Cons t ts)
  show ?case
  proof (cases "ts = []")
    case True
    with Cons.prems show ?thesis using nextToken_join_end [of t] by simp
  next
    case False
    with Cons show ?thesis using nextToken_join_Cons [of t ts] by (simp del: join.simps)
  qed
qed simp

lemma digit_tok: "isdigit c \<Longrightarrow> \<not> tok_end c \<and> c \<noteq> CHR ''_''"
  by (auto simp: isdigit_def tok_end_def schar_def)

lemma minus_tok: "\<not> tok_end (CHR ''-'')"
  by (simp add: tok_end_def schar_def)

lemma deci_tok: "c \<in> set (deci i) \<Longrightarrow> \<not> tok_end c \<and> c \<noteq> CHR ''_''"
  using deci_chars [of c i] digit_tok [of c] minus_tok by auto

lemma dec_tok: "c \<in> set (dec n) \<Longrightarrow> \<not> tok_end c \<and> c \<noteq> CHR ''_''"
  using dec_digits [of c n] digit_tok [of c] by auto

lemma deci_safe [simp]: "tok_safe (deci i)"
  unfolding tok_safe_def using deci_tok by (metis deci_nonempty hd_in_set)

lemma dec_safe [simp]: "tok_safe (dec n)"
  unfolding tok_safe_def using dec_tok by (metis hd_in_set)

lemma tok_safe_plain: "tok_safe s \<Longrightarrow> \<forall>c\<in>set s. \<not> tok_end c"
  by (simp add: tok_safe_def)

lemma opt_plain: "opt_safe s \<Longrightarrow> \<forall>c\<in>set (opt_text s). \<not> tok_end c"
  using opt_text_plain by blast

lemmas tok_plain = deci_tok dec_tok opt_text_plain

definition i64 :: "int \<Rightarrow> bool" where "i64 i \<longleftrightarrow> LONG_MIN \<le> i \<and> i \<le> LONG_MAX"
definition i32_range :: "int \<Rightarrow> bool" where "i32_range i \<longleftrightarrow> INT_MIN \<le> i \<and> i \<le> INT_MAX"

lemma atol_deci_all [simp]: "i64 i \<Longrightarrow> atol (deci i) = i"
  using atol_deci [of i "[]"] by (simp add: i64_def)

lemma i32_i64: "i32_range i \<Longrightarrow> i64 i"
  by (simp add: i32_range_def i64_def c_limits)

lemma atoi_deci [simp]: "i32_range i \<Longrightarrow> atoi (deci i) = i"
  using i32_i64 [of i]
  by (simp add: atoi_def i32_range_def c_limits signed_take_bit_int_eq_self_iff signed_of_int)

lemma dec_deci: "dec n = deci (int n)"
  by (simp add: deci_def)

lemma atol_dec_word [simp]: "word_of_int (atol (dec (unat w))) = (w :: 32 word)"
proof -
  have "int (unat w) < 4294967296" using unsigned_less [of w, where 'a = int] by simp
  then have "i64 (int (unat w))" unfolding i64_def c_limits by linarith
  then show ?thesis by (simp add: dec_deci)
qed

section \<open>Round trips of the lines\<close>

definition transfer_safe :: "transfer \<Rightarrow> bool" where
  "transfer_safe t \<longleftrightarrow> i32_range (tr_state t) \<and> i64 (tr_transferTime t) \<and> i64 (tr_startTime t) \<and>
     i64 (tr_completeTime t) \<and>
     list_all opt_safe [tr_fileType t, tr_url t, tr_username t, tr_password t, tr_targetFileName t,
       tr_successURL t, tr_failureURL t, tr_commandKey t, tr_announceURL t]"

lemma transfer_line_tokens:
  assumes "transfer_safe t"
  shows "tokens 17 (transfer_line t) =
    [Some (deci (of_bool (tr_isDownload t))), Some (deci (tr_state t)), Some (deci (tr_transferTime t)),
     tr_fileType t, tr_url t, tr_username t, tr_password t, Some (dec (unat (tr_fileSize t))),
     tr_targetFileName t, tr_successURL t, tr_failureURL t, tr_commandKey t, tr_announceURL t,
     Some (dec (unat (tr_faultCode t))), Some (deci (tr_startTime t)), Some (deci (tr_completeTime t)),
     Some (dec (unat (tr_transferId t)))]"
proof -
  let ?ts = "[deci (of_bool (tr_isDownload t)), deci (tr_state t), deci (tr_transferTime t),
     opt_text (tr_fileType t), opt_text (tr_url t), opt_text (tr_username t), opt_text (tr_password t),
     dec (unat (tr_fileSize t)), opt_text (tr_targetFileName t), opt_text (tr_successURL t),
     opt_text (tr_failureURL t), opt_text (tr_commandKey t), opt_text (tr_announceURL t),
     dec (unat (tr_faultCode t)), deci (tr_startTime t), deci (tr_completeTime t), dec (unat (tr_transferId t))]"
  have "\<forall>x\<in>set ?ts. \<forall>c\<in>set x. \<not> tok_end c"
    using assms by (auto simp: transfer_safe_def dest: opt_text_plain deci_tok dec_tok)
  moreover have "length ?ts = 17" by simp
  ultimately have "tokens 17 (transfer_line t) = map tok_read ?ts"
    using tokens_join [of ?ts] unfolding transfer_line_def by (metis list.distinct(1))
  then show ?thesis using assms by (simp add: transfer_safe_def)
qed

lemma transfer_round_trip: "transfer_safe t \<Longrightarrow> transfer_of_line (transfer_line t) = Some t"
  unfolding transfer_of_line_def
  by (subst transfer_line_tokens, assumption)
     (simp add: transfer_safe_def DM_ENG_newTransferRequest_def i32_range_def c_limits)

definition event_safe :: "event \<Rightarrow> bool" where
  "event_safe e \<longleftrightarrow> tok_safe (code_text (ev_code e)) \<and> code_text (ev_code e) \<noteq> [] \<and>
     opt_safe (ev_key e) \<and> ev_code e = internEventCode (code_text (ev_code e))"

lemma event_line_Cons:
  "es \<noteq> [] \<Longrightarrow> event_line (e # es)
     = code_text (ev_code e) @ CHR '';'' # opt_text (ev_key e) @ CHR '';'' # event_line es"
  by (cases es) (simp_all add: event_line_def join_Cons)

lemma event_line_single:
  "event_line [e] = code_text (ev_code e) @ CHR '';'' # opt_text (ev_key e)"
  by (simp add: event_line_def)

lemma event_round_trip: "\<forall>e\<in>set es. event_safe e \<Longrightarrow> setEvents_loop (event_line es) = es"
proof (induction es)
  case Nil
  then show ?case by (subst setEvents_loop.simps) (simp add: event_line_def nextToken_def)
next
  case (Cons e es)
  obtain c cs where c: "code_text (ev_code e) = c # cs"
    using Cons.prems by (cases "code_text (ev_code e)") (auto simp: event_safe_def)
  have safe: "tok_safe (c # cs)" "opt_safe (ev_key e)" "ev_code e = internEventCode (c # cs)"
    using Cons.prems c by (auto simp: event_safe_def)
  have t1: "nextToken ((c # cs) @ CHR '';'' # r) = (Some (c # cs), r)" for r
    using nextToken_sep [of "c # cs" r] safe(1) by (auto simp: tok_safe_def)
  have t2: "nextToken (opt_text (ev_key e) @ CHR '';'' # r) = (ev_key e, r)" for r
    using nextToken_sep [OF opt_plain [OF safe(2)]] tok_read_opt [OF safe(2)] by (simp add: tok_read_def)
  have t3: "nextToken (opt_text (ev_key e)) = (ev_key e, [])"
    using nextToken_end [OF opt_plain [OF safe(2)]] tok_read_opt [OF safe(2)] by (simp add: tok_read_def)
  have e: "DM_ENG_newEventStruct (c # cs) (ev_key e) = e"
    using safe(3) by (simp add: DM_ENG_newEventStruct_def)
  have nil: "setEvents_loop [] = []" by (subst setEvents_loop.simps) (simp add: nextToken_def)
  show ?case
  proof (cases "es = []")
    case True
    then show ?thesis using t1 [of "opt_text (ev_key e)"] t3 e nil c
      by (subst setEvents_loop.simps) (simp add: event_line_single)
  next
    case False
    with Cons show ?thesis using t1 [of "opt_text (ev_key e) @ CHR '';'' # event_line es"] t2 [of "event_line es"] e c
      by (subst setEvents_loop.simps) (simp add: event_line_Cons)
  qed
qed

definition others_safe :: "ctrl \<Rightarrow> bool" where
  "others_safe c \<longleftrightarrow> i64 (periodicInformTime c) \<and> opt_safe (sScheduledInformTime c) \<and>
     opt_safe (sScheduledInformCommandKey c) \<and> opt_safe (sRebootCommandKey c) \<and> i32_range (retryCount c)"

lemma others_round_trip:
  "others_safe d \<Longrightarrow> setOthersData (Some (others_line d)) c = Some (c\<lparr> periodicInformTime := periodicInformTime d,
     sScheduledInformTime := sScheduledInformTime d, sScheduledInformCommandKey := sScheduledInformCommandKey d,
     sRebootCommandKey := sRebootCommandKey d, retryCount := retryCount d \<rparr>)"
proof -
  assume d: "others_safe d"
  let ?ts = "[deci (periodicInformTime d), opt_text (sScheduledInformTime d),
     opt_text (sScheduledInformCommandKey d), opt_text (sRebootCommandKey d), deci (retryCount d)]"
  have "\<forall>x\<in>set ?ts. \<forall>c\<in>set x. \<not> tok_end c"
    using d by (auto simp: others_safe_def dest: opt_text_plain deci_tok)
  moreover have "length ?ts = 5" by simp
  ultimately have "tokens 5 (others_line d) = map tok_read ?ts"
    using tokens_join [of ?ts] unfolding others_line_def by (metis list.distinct(1))
  then show ?thesis using d by (simp add: setOthersData_def others_safe_def)
qed

text \<open>A request without arguments is read back with an empty list of arguments.\<close>

definition download_safe :: "download \<Rightarrow> bool" where
  "download_safe d \<longleftrightarrow> tok_safe (dl_fileType d) \<and>
     (case dl_args d of None \<Rightarrow> False
      | Some as \<Rightarrow> int (length as) \<le> INT_MAX \<and> (\<forall>(n, v)\<in>set as. tok_safe n \<and> opt_safe v))"

abbreviation args_text :: "(string \<times> string option) list \<Rightarrow> string list" where
  "args_text as \<equiv> concat (map (\<lambda>(n, v). [n, opt_text v]) as)"

lemma read_args_round_trip:
  "\<forall>(n, v)\<in>set as. tok_safe n \<and> opt_safe v \<Longrightarrow>
     read_args (length as) (join CHR '';'' (args_text as)) = Some as"
proof (induction as)
  case (Cons a as)
  obtain n v where a: "a = (n, v)" by (cases a)
  have safe: "tok_safe n" "opt_safe v" using Cons.prems a by auto
  have t1: "nextToken (join CHR '';'' (n # opt_text v # args_text as))
      = (Some n, join CHR '';'' (opt_text v # args_text as))"
    using nextToken_join_Cons [OF tok_safe_plain [OF safe(1)], of "opt_text v # args_text as"] safe by simp
  have t2: "\<exists>r. nextToken (join CHR '';'' (opt_text v # args_text as)) = (v, r) \<and>
      (as \<noteq> [] \<longrightarrow> r = join CHR '';'' (args_text as))"
  proof (cases as)
    case Nil
    then show ?thesis using nextToken_join_end [OF opt_plain [OF safe(2)]] safe by simp
  next
    case (Cons b bs)
    then have "args_text as \<noteq> []" by (cases b) auto
    from nextToken_join_Cons [OF opt_plain [OF safe(2)] this] safe show ?thesis by simp
  qed
  then obtain r where r: "nextToken (join CHR '';'' (opt_text v # args_text as)) = (v, r)"
      "as \<noteq> [] \<longrightarrow> r = join CHR '';'' (args_text as)" by blast
  have "read_args (length as) r = Some as"
    using Cons r(2) by (cases as) auto
  then show ?case using t1 r(1) by (simp add: a del: join.simps)
qed simp

lemma download_round_trip: "download_safe d \<Longrightarrow> download_of_line (download_line d) = Some d"
proof -
  assume d: "download_safe d"
  then obtain as where as: "dl_args d = Some as" "tok_safe (dl_fileType d)" "int (length as) \<le> INT_MAX"
    "\<forall>(n, v)\<in>set as. tok_safe n \<and> opt_safe v" by (auto simp: download_safe_def split: option.splits)
  have n: "tok_safe (dec (length as))" "atoi (dec (length as)) = int (length as)"
    using as(3) by (simp, simp add: dec_deci i32_range_def c_limits)
  have t1: "nextToken (join CHR '';'' (dl_fileType d # dec (length as) # args_text as))
      = (Some (dl_fileType d), join CHR '';'' (dec (length as) # args_text as))"
    using nextToken_join_Cons [OF tok_safe_plain [OF as(2)], of "dec (length as) # args_text as"] as(2) by simp
  have t2: "\<exists>r. nextToken (join CHR '';'' (dec (length as) # args_text as)) = (Some (dec (length as)), r) \<and>
      (as \<noteq> [] \<longrightarrow> r = join CHR '';'' (args_text as))"
  proof (cases as)
    case Nil
    then show ?thesis using nextToken_join_end [OF tok_safe_plain [OF n(1)]] n by simp
  next
    case (Cons b bs)
    then have "args_text as \<noteq> []" by (cases b) auto
    from nextToken_join_Cons [OF tok_safe_plain [OF n(1)] this] n show ?thesis by simp
  qed
  then obtain r where r: "nextToken (join CHR '';'' (dec (length as) # args_text as)) = (Some (dec (length as)), r)"
      "as \<noteq> [] \<longrightarrow> r = join CHR '';'' (args_text as)" by blast
  have "read_args (length as) r = Some as"
    using read_args_round_trip [OF as(4)] r(2) by (cases as) auto
  then show ?thesis using t1 r(1) n(2) as(1)
    by (simp add: download_of_line_def download_line_def del: join.simps)
qed

section \<open>Round trip of the control file\<close>

lemma schar_plain: "32 \<le> schar c \<Longrightarrow> code c \<noteq> 0 \<and> c \<noteq> NL"
  by (cases "code c = 0") (auto simp: schar_def NL_def)

lemma not_tok_end: "\<not> tok_end c \<Longrightarrow> 32 \<le> schar c"
  by (simp add: tok_end_def)

lemma join_chars:
  "c \<in> set (join d ts) \<Longrightarrow> c = d \<or> (\<exists>t\<in>set ts. c \<in> set t)"
  by (induction d ts rule: join.induct) auto

lemma join_hd: "t \<noteq> [] \<Longrightarrow> join d (t # ts) \<noteq> [] \<and> hd (join d (t # ts)) = hd t"
  by (cases ts) auto

lemma join_plain:
  "\<forall>t\<in>set ts. \<forall>c\<in>set t. \<not> tok_end c \<Longrightarrow> c \<in> set (join CHR '';'' ts) \<Longrightarrow> 32 \<le> schar c"
  using join_chars [of c "CHR '';''" ts] not_tok_end [of c] by (auto simp: schar_def [of "CHR '';''"])

lemma clean_join:
  assumes "\<forall>t\<in>set ts. \<forall>c\<in>set t. \<not> tok_end c" "length (join CHR '';'' ts) < 799"
    "join CHR '';'' ts = [] \<or> hd (join CHR '';'' ts) \<noteq> CHR ''*''"
  shows "clean_line (join CHR '';'' ts)"
  using join_plain [OF assms(1)] schar_plain last_in_set [of "join CHR '';'' ts"] assms(2,3)
  unfolding clean_line_def by fastforce

lemma number_hd: "hd (deci i) \<noteq> CHR ''*'' \<and> hd (deci i) \<noteq> CHR ''#''"
  using deci_chars [of "hd (deci i)" i] by (auto simp: isdigit_def)

definition star_free :: "string \<Rightarrow> bool" where
  "star_free s \<longleftrightarrow> s \<noteq> [] \<and> hd s \<noteq> CHR ''*''"

definition ctrl_safe :: "ctrl \<Rightarrow> bool" where
  "ctrl_safe c \<longleftrightarrow> (\<forall>e\<in>set (events c). event_safe e \<and> star_free (code_text (ev_code e))) \<and> others_safe c \<and>
     (\<forall>t\<in>set (transferRequests c). transfer_safe t) \<and>
     (\<forall>d\<in>set (downloadRequests c). download_safe d \<and> star_free (dl_fileType d)) \<and>
     (\<forall>l\<in>set (ctrl_lines c). length l < 799)"

lemma event_line_clean:
  assumes "\<forall>e\<in>set es. event_safe e \<and> star_free (code_text (ev_code e))" "length (event_line es) < 799"
  shows "clean_line (event_line es)"
  unfolding event_line_def
proof (rule clean_join)
  let ?ts = "concat (map (\<lambda>e. [code_text (ev_code e), opt_text (ev_key e)]) es)"
  show "\<forall>t\<in>set ?ts. \<forall>c\<in>set t. \<not> tok_end c"
    using assms(1) by (auto simp: event_safe_def tok_safe_def dest: opt_text_plain)
  show "length (join CHR '';'' ?ts) < 799" using assms(2) by (simp add: event_line_def)
  show "join CHR '';'' ?ts = [] \<or> hd (join CHR '';'' ?ts) \<noteq> CHR ''*''"
  proof (cases es)
    case (Cons e es')
    then show ?thesis using assms(1) join_hd [of "code_text (ev_code e)"] by (auto simp: star_free_def)
  qed simp
qed

lemma others_line_clean:
  "others_safe c \<Longrightarrow> length (others_line c) < 799 \<Longrightarrow> clean_line (others_line c)"
  unfolding others_line_def
  by (rule clean_join) (auto simp: others_safe_def number_hd dest: opt_text_plain deci_tok)

lemma transfer_line_clean:
  "transfer_safe t \<Longrightarrow> length (transfer_line t) < 799 \<Longrightarrow> clean_line (transfer_line t)"
  unfolding transfer_line_def
  by (rule clean_join) (auto simp: transfer_safe_def number_hd dest: opt_text_plain deci_tok dec_tok)

lemma transfer_line_not_hash: "not_hash (transfer_line t)"
  using join_hd [OF deci_nonempty] number_hd by (simp add: not_hash_def transfer_line_def del: join.simps)

lemma not_hash_hash: "\<not> not_hash ''#''"
  by (simp add: not_hash_def)

lemma download_line_clean:
  assumes "download_safe d" "star_free (dl_fileType d)" "length (download_line d) < 799"
  shows "clean_line (download_line d)"
  using assms join_hd [of "dl_fileType d"] unfolding download_line_def Let_def
  by (intro clean_join)
     (auto simp: download_safe_def star_free_def tok_safe_def dest: dec_tok opt_text_plain split: option.splits)

lemma ctrl_lines_clean: "ctrl_safe c \<Longrightarrow> l \<in> set (ctrl_lines c) \<Longrightarrow> clean_line l"
  by (auto simp: ctrl_safe_def ctrl_lines_def clean_line_def [of "''#''"] NL_def schar_def
      intro: event_line_clean others_line_clean transfer_line_clean download_line_clean split: if_splits)

lemma addTransferRequest_append:
  "sorted (map tr_transferTime (q @ [t])) \<Longrightarrow> DM_ENG_addTransferRequest q t = q @ [t]"
  by (cases q) (auto simp: sorted_append takeWhile_eq_all_conv [THEN iffD2] dropWhile_eq_Nil_conv [THEN iffD2])

definition max_id :: "32 word \<Rightarrow> transfer list \<Rightarrow> 32 word" where
  "max_id i ts = foldl (\<lambda>m t. if tr_transferId t > m then tr_transferId t else m) i ts"

lemma max_id_ge: "i \<le> max_id i ts \<and> (\<forall>t\<in>set ts. tr_transferId t \<le> max_id i ts)"
proof (induction ts arbitrary: i)
  case (Cons t ts)
  let ?j = "if tr_transferId t > i then tr_transferId t else i"
  have "?j \<le> max_id ?j ts" "\<forall>t\<in>set ts. tr_transferId t \<le> max_id ?j ts" using Cons [of ?j] by auto
  moreover have "i \<le> ?j" "tr_transferId t \<le> ?j" by auto
  ultimately show ?case unfolding max_id_def by (auto intro: order_trans simp del: if_split)
qed (simp add: max_id_def)

lemma read_transfers:
  "\<forall>t\<in>set ts. transfer_safe t \<Longrightarrow> sorted (map tr_transferTime (transferRequests c @ ts)) \<Longrightarrow>
     each_line addNewTransferRequest (map transfer_line ts) c
       = Some (c\<lparr> transferRequests := transferRequests c @ ts, lastTransferId := max_id (lastTransferId c) ts \<rparr>)"
proof (induction ts arbitrary: c)
  case (Cons t ts)
  have s: "sorted (map tr_transferTime (transferRequests c @ [t]))"
    using Cons.prems(2) by (auto simp: sorted_append)
  let ?c = "c\<lparr> lastTransferId := (if tr_transferId t > lastTransferId c then tr_transferId t else lastTransferId c),
      transferRequests := transferRequests c @ [t] \<rparr>"
  have "addNewTransferRequest (transfer_line t) c = Some ?c"
    using Cons.prems(1) addTransferRequest_append [OF s]
    by (simp add: addNewTransferRequest_def transfer_round_trip)
  then show ?case using Cons.IH [of ?c] Cons.prems by (simp add: max_id_def)
qed (simp add: max_id_def)

lemma read_downloads:
  "\<forall>d\<in>set ds. download_safe d \<Longrightarrow>
     each_line addNewDownloadRequest (map download_line ds) c
       = Some (c\<lparr> downloadRequests := downloadRequests c @ ds \<rparr>)"
  by (induction ds arbitrary: c) (simp_all add: addNewDownloadRequest_def download_round_trip)

text \<open>What a restarted agent, whose control data is empty, reads from the file.\<close>

lemma readDmControl_write:
  assumes safe: "ctrl_safe c" and sorted: "sorted (map tr_transferTime (transferRequests c))"
  shows "readDmControl (write_file (ctrl_lines c)) d
    = Some (c\<lparr> lastTransferId := max_id (lastTransferId d) (transferRequests c),
               downloadRequests := downloadRequests d @ downloadRequests c,
               controlDataChanged := controlDataChanged d \<rparr>)"
proof -
  define ts ds where "ts = transferRequests c" and "ds = downloadRequests c"
  define tl_lines where "tl_lines = map transfer_line ts @ (if ds = [] then [] else ''#'' # map download_line ds)"
  have lines: "ctrl_lines c = event_line (events c) # others_line c # tl_lines"
    by (simp add: ctrl_lines_def tl_lines_def ts_def ds_def)
  have clean: "\<forall>l\<in>set (ctrl_lines c). clean_line l" using ctrl_lines_clean [OF safe] by blast
  have crc: "checkCrc (write_file (ctrl_lines c))" using clean by (rule check_written)
  define crc where "crc = writeCrc (crc_lines 0 (ctrl_lines c))"
  define io1 where "io1 = \<lparr> io_rest = others_line c @ NL # concat (map (\<lambda>l. l @ [NL]) tl_lines) @ crc,
     io_crc32 = updateCrc32 0 (event_line (events c)), io_crcOK = False \<rparr>"
  define io2 where "io2 = \<lparr> io_rest = concat (map (\<lambda>l. l @ [NL]) tl_lines) @ crc,
     io_crc32 = updateCrc32 (io_crc32 io1) (others_line c), io_crcOK = False \<rparr>"
  have r1: "readln (open_read (write_file (ctrl_lines c))) = (Some (event_line (events c)), io1)"
    using clean unfolding io1_def crc_def
    by (subst readln_clean [of "event_line (events c)"])
       (auto simp: lines open_read_def write_file_def)
  have r2: "readln io1 = (Some (others_line c), io2)"
    using clean unfolding io2_def io1_def crc_def
    by (subst readln_clean [of "others_line c"]) (auto simp: lines)
  have "readlns io2 = (tl_lines, io2\<lparr> io_rest := [], io_crc32 := crc_lines (io_crc32 io2) tl_lines,
    io_crcOK := (fmt_lX (unat (crc_lines (io_crc32 io2) tl_lines))
      = fmt_lX (unat (crc_lines 0 (ctrl_lines c)))) \<rparr>)"
    by (rule readlns_clean) (use clean crc_lines_fits in \<open>auto simp: io2_def crc_def lines\<close>)
  then have r3: "fst (readlns io2) = tl_lines" by simp
  have nh: "takeWhile not_hash tl_lines = map transfer_line ts"
    "tl (dropWhile not_hash tl_lines) = map download_line ds"
    using not_hash_hash transfer_line_not_hash by (simp_all add: tl_lines_def takeWhile_append dropWhile_append)
  have ev: "setEvents_loop (event_line (events c)) = events c"
    using safe by (intro event_round_trip) (auto simp: ctrl_safe_def)
  have ot: "others_safe c" "\<forall>t\<in>set ts. transfer_safe t" "\<forall>d\<in>set ds. download_safe d"
    using safe by (auto simp: ctrl_safe_def ts_def ds_def)
  show ?thesis
    using sorted crc ot unfolding readDmControl_def
    by (simp add: r1 r2 r3 nh ev setEvents_def others_round_trip read_transfers read_downloads
        releaseCtrl_def ts_def [symmetric] ds_def [symmetric])
qed

text \<open>
  C19: Control data survives a restart.  When its strings are free of separators, what the agent
  wrote in its control file is what a restarted agent reads: the events and the requests in their
  order, the scheduled informs, the reboot key and the retry count; only the counter of
  identifiers restarts, from the greatest identifier still in use.
\<close>

theorem control_data_survives_restart:
  assumes "ctrl_safe c" "transfer_inv c"
  shows "\<exists>f c'. writeDmControl c = Inr f \<and> readDmControl f ctrl_init = Some c' \<and>
    c' = c\<lparr> lastTransferId := lastTransferId c', controlDataChanged := False \<rparr> \<and> transfer_inv c'"
proof -
  have "writeDmControl c = Inr (write_file (ctrl_lines c))"
    using assms(1) by (fastforce simp: writeDmControl_def ctrl_safe_def MAX_LINE_LEN_def)
  moreover have "readDmControl (write_file (ctrl_lines c)) ctrl_init
    = Some (c\<lparr> lastTransferId := max_id 0 (transferRequests c), controlDataChanged := False \<rparr>)"
    using readDmControl_write [OF assms(1), of ctrl_init] assms(2)
    by (simp add: transfer_inv_def ctrl_init_def)
  moreover have "transfer_inv (c\<lparr> lastTransferId := max_id 0 (transferRequests c), controlDataChanged := False \<rparr>)"
    using assms(2) max_id_ge [of 0 "transferRequests c"] by (simp add: transfer_inv_def)
  ultimately show ?thesis by (metis (no_types, lifting) ctrl.select_convs(7) ctrl.surjective ctrl.update_convs(7,10))
qed

text \<open>
  Reading the control file again, as the agent does when another process has modified it,
  appends the download requests of the file to those it already has: each of them is duplicated.
\<close>

theorem reread_duplicates_downloads:
  assumes "ctrl_safe c" "transfer_inv c" "writeDmControl c = Inr f"
  shows "map_option downloadRequests (readDmControl f c) = Some (downloadRequests c @ downloadRequests c)"
proof -
  have "f = write_file (ctrl_lines c)" using assms(3) by (simp add: writeDmControl_def split: if_splits)
  then show ?thesis using readDmControl_write [OF assms(1), of c] assms(2) by (simp add: transfer_inv_def)
qed

definition sample_ctrl :: ctrl where
  "sample_ctrl = ctrl_init\<lparr> events := [DM_ENG_newEventStruct ''1 BOOT'' None, DM_ENG_newEventStruct ''M Reboot'' (Some ''k'')],
     sRebootCommandKey := Some ''k'', lastTransferId := 7,
     transferRequests := [(DM_ENG_newTransferRequest True 1 60 (Some ''1 F'') (Some ''http://a/b'') None None 12
        None None None (Some []) None)\<lparr> tr_transferId := 7 \<rparr>],
     downloadRequests := [\<lparr> dl_fileType = ''7 E'', dl_args = Some [(''n'', None)] \<rparr>], controlDataChanged := True \<rparr>"

lemma sample_ctrl_safe: "ctrl_safe sample_ctrl"
  by code_simp

lemma sample_ctrl_inv: "transfer_inv sample_ctrl"
  by code_simp

theorem control_data_survives_restart_witness:
  "\<exists>f c'. writeDmControl sample_ctrl = Inr f \<and> readDmControl f ctrl_init = Some c' \<and>
     map ev_key (events c') = [None, Some ''k'']"
proof -
  obtain f c' where "writeDmControl sample_ctrl = Inr f" "readDmControl f ctrl_init = Some c'"
    "c' = sample_ctrl\<lparr> lastTransferId := lastTransferId c', controlDataChanged := False \<rparr>"
    using control_data_survives_restart [OF sample_ctrl_safe sample_ctrl_inv] by blast
  moreover from this(3) have "events c' = events sample_ctrl"
    by (metis ctrl.select_convs(1) ctrl.surjective ctrl.update_convs(7,10))
  ultimately show ?thesis by (auto simp: sample_ctrl_def DM_ENG_newEventStruct_def)
qed

theorem reread_duplicates_downloads_witness:
  "\<exists>f. map_option downloadRequests (readDmControl f sample_ctrl)
     = Some (downloadRequests sample_ctrl @ downloadRequests sample_ctrl)"
proof -
  have "writeDmControl sample_ctrl = Inr (write_file (ctrl_lines sample_ctrl))"
    using sample_ctrl_safe by (fastforce simp: writeDmControl_def ctrl_safe_def MAX_LINE_LEN_def)
  from reread_duplicates_downloads [OF sample_ctrl_safe sample_ctrl_inv this] show ?thesis by blast
qed

end
