(* ===== verification/ParamFile.thy ===== *)
theory ParamFile
  imports Store CtrlFile
begin

text \<open>
  The data file of \<open>DM_DAT1_ParameterData.c\<close> and the component as a whole: \<open>_writeParameters\<close>,
  \<open>_readFileParameters\<close>, \<open>DM_ENG_ParameterData_init\<close>, \<open>_sync\<close>, \<open>_restore\<close>, \<open>_tryLock\<close>
  and \<open>_unLock\<close>.

  The record \<open>data\<close> holds the static variables and the directory of the agent: the initial
  file, the data file, its backup and the control file, each with its content and its
  modification time, the lock file, and the clock that dates the files that are written.
\<close>

section \<open>The line of a parameter\<close>

definition attributes :: "param \<Rightarrow> string \<Rightarrow> string \<Rightarrow> string \<Rightarrow> string \<Rightarrow> string list" where
  "attributes p val bVal kVal sysVal =
     [drop (length PREFIX) (p_name p), DM_ENG_typeToString (p_type p) (p_minValue p) (p_maxValue p),
      deci (smode_to_int (p_storageMode p)), deci (of_bool (p_writable p)), deci (p_immediateChanges p),
      deci (nmode_to_int (p_notification p)), deci (of_bool (p_mandatoryNotification p)),
      deci (of_bool (p_activeNotificationDenied p)),
      ctext (DM_ENG_buildCommaSeparatedList (acl_list (p_accessList p))), val,
      deci (p_loadingMode p), deci (state_to_int (p_state p)), bVal, kVal, sysVal]"

definition param_line :: "param \<Rightarrow> ub + string" where
  "param_line p =
     (case (enc_field (p_value p), enc_field (p_backValue p), enc_field (p_configKey p), enc_field (p_definition p)) of
        (Inr v, Inr b, Inr k, Inr d) \<Rightarrow>
          let line = join CHR '';'' (attributes p v b k d)
          in if length line \<ge> MAX_LINE_LEN then Inl BufOverflow else Inr line
      | _ \<Rightarrow> Inl BufOverflow)"

fun mapE :: "('a \<Rightarrow> 'e + 'b) \<Rightarrow> 'a list \<Rightarrow> 'e + 'b list" where
  "mapE f [] = Inr []"
| "mapE f (x # xs) =
     (case f x of Inl e \<Rightarrow> Inl e
      | Inr y \<Rightarrow> (case mapE f xs of Inl e \<Rightarrow> Inl e | Inr ys \<Rightarrow> Inr (y # ys)))"

definition parameters_text :: "param list \<Rightarrow> ub + string" where
  "parameters_text ps =
     (case mapE param_line (filter (\<lambda>p. prefixb PREFIX (p_name p)) ps) of
        Inl e \<Rightarrow> Inl e | Inr ls \<Rightarrow> Inr (write_file ls))"

definition MAX_NB_ATTR :: nat where "MAX_NB_ATTR = 15"

text \<open>The attributes of a line: at most 15 fields, the missing ones empty.\<close>

definition split_attributes :: "string \<Rightarrow> string list" where
  "split_attributes line =
     (let fs = take MAX_NB_ATTR (fields_of CHR '';'' line)
      in fs @ replicate (MAX_NB_ATTR - length fs) [])"

definition param_of_line :: "bool \<Rightarrow> string \<Rightarrow> ub + param" where
  "param_of_line isIni line =
     (let attr = split_attributes line
      in case (dec_field (attr ! 9), dec_field (attr ! 12), dec_field (attr ! 13), dec_field (attr ! 14)) of
           (Inr v, Inr b, Inr k, Inr d) \<Rightarrow>
             Inr (DM_ENG_newParameter (attr[9 := v, 12 := b, 13 := k, 14 := d]) isIni)
         | (Inl e, _, _, _) \<Rightarrow> Inl e
         | (_, Inl e, _, _) \<Rightarrow> Inl e
         | (_, _, Inl e, _) \<Rightarrow> Inl e
         | (_, _, _, Inl e) \<Rightarrow> Inl e)"

definition data_line :: "string \<Rightarrow> bool" where
  "data_line line \<longleftrightarrow> length line > 1 \<and> hd line \<noteq> CHR ''#''"

section \<open>The directory and the static variables\<close>

type_synonym dfile = "(string \<times> int) option"

record data =
  d_store :: store
  d_ctrl :: ctrl
  lastModifData :: int
  lastModifCtrl :: int
  iniFile :: dfile
  objFile :: dfile
  backupObjFile :: dfile
  ctrlFile :: dfile
  lockFile :: bool
  now :: int

definition readFileParameters :: "bool \<Rightarrow> dfile \<Rightarrow> data \<Rightarrow> ub + int \<times> data" where
  "readFileParameters isIni f d =
     (case f of
        None \<Rightarrow> Inr (1, d)
      | Some (content, mtime) \<Rightarrow>
        if \<not> mtime > lastModifData d then Inr (0, d)
        else let s = d_store d;
                 (ps0, n0) = (if nbParameters s > 0 then ([], 0) else (parameters s, nbParameters s));
                 (ls, io) = readlns (open_read content)
        in case mapE (param_of_line isIni) (filter data_line ls) of
             Inl e \<Rightarrow> Inl e
           | Inr ps \<Rightarrow>
               Inr (if \<not> isIni \<and> \<not> io_crcOK io then 2 else 0,
                 d\<lparr> lastModifData := mtime,
                    d_store := s\<lparr> parameters := (if ps = [] then ps0 else ps),
                                 nbParameters := n0 + int (length ps) \<rparr> \<rparr>))"

definition writeParameters :: "data \<Rightarrow> ub + data" where
  "writeParameters d =
     (case parameters_text (parameters (d_store d)) of
        Inl e \<Rightarrow> Inl e
      | Inr text \<Rightarrow> Inr (d\<lparr> backupObjFile := (if objFile d = None then backupObjFile d else objFile d),
                           objFile := Some (text, now d), lastModifData := now d \<rparr>))"

definition readCtrl :: "data \<Rightarrow> ub + data" where
  "readCtrl d =
     (case ctrlFile d of
        None \<Rightarrow> Inr d
      | Some (content, mtime) \<Rightarrow>
          if \<not> mtime > lastModifCtrl d then Inr d
          else (case readDmControl content (d_ctrl d) of
                  None \<Rightarrow> Inl NullDeref
                | Some c \<Rightarrow> Inr (d\<lparr> d_ctrl := c, lastModifCtrl := mtime \<rparr>)))"

definition writeCtrl :: "data \<Rightarrow> ub + data" where
  "writeCtrl d =
     (case writeDmControl (d_ctrl d) of
        Inl e \<Rightarrow> Inl e
      | Inr text \<Rightarrow> Inr (d\<lparr> ctrlFile := Some (text, now d), lastModifCtrl := now d \<rparr>))"

text \<open>The data file is unreadable: it is removed and the backup is read, then written back.\<close>

definition recover :: "data \<Rightarrow> ub + int \<times> data" where
  "recover d =
     (let d1 = d\<lparr> objFile := None, lastModifData := 0 \<rparr>
      in case readFileParameters False (backupObjFile d1) d1 of
           Inl e \<Rightarrow> Inl e
         | Inr (res, d2) \<Rightarrow>
             if res = 0 then (case writeParameters d2 of Inl e \<Rightarrow> Inl e | Inr d3 \<Rightarrow> Inr (0, d3))
             else Inr (res, d2))"

definition readParameters :: "data \<Rightarrow> ub + int \<times> data" where
  "readParameters d =
     (case readFileParameters False (objFile d) d of
        Inl e \<Rightarrow> Inl e
      | Inr (res, d1) \<Rightarrow> if res \<noteq> 0 then recover d1 else Inr (0, d1))"

definition ParameterData_init :: "bool \<Rightarrow> data \<Rightarrow> ub + int \<times> data" where
  "ParameterData_init factoryReset d =
     (let d0 = d\<lparr> lockFile := False \<rparr>
      in if \<not> factoryReset
         then (case readParameters d0 of
                 Inl e \<Rightarrow> Inl e
               | Inr (res, d1) \<Rightarrow>
                   if res = 0 then (case readCtrl d1 of Inl e \<Rightarrow> Inl e | Inr d2 \<Rightarrow> Inr (0, d2))
                   else Inr (res, d1))
         else let d1 = d0\<lparr> objFile := None, ctrlFile := None, lastModifData := 0, lastModifCtrl := 0 \<rparr>
           in case readFileParameters True (iniFile d1) d1 of
                Inl e \<Rightarrow> Inl e
              | Inr (res, d2) \<Rightarrow>
                  if res \<noteq> 0 then Inr (1, d2)
                  else (case writeParameters d2 of Inl e \<Rightarrow> Inl e | Inr d3 \<Rightarrow> Inr (0, d3)))"

definition ParameterData_sync :: "data \<Rightarrow> ub + data" where
  "ParameterData_sync d =
     (case (if controlDataChanged (d_ctrl d)
            then map_sum id (\<lambda>d. d\<lparr> d_ctrl := (d_ctrl d)\<lparr> controlDataChanged := False \<rparr> \<rparr>) (writeCtrl d)
            else Inr d) of
        Inl e \<Rightarrow> Inl e
      | Inr d1 \<Rightarrow>
          if dataChanged (d_store d1)
          then map_sum id (\<lambda>d. d\<lparr> d_store := (d_store d)\<lparr> dataChanged := False \<rparr> \<rparr>) (writeParameters d1)
          else Inr d1)"

definition ParameterData_restore :: "data \<Rightarrow> ub + data" where
  "ParameterData_restore d = map_sum id snd (readParameters (d\<lparr> lastModifData := 0 \<rparr>))"

definition ParameterData_tryLock :: "data \<Rightarrow> ub + bool \<times> data" where
  "ParameterData_tryLock d =
     (if lockFile d then Inr (False, d)
      else case readParameters (d\<lparr> lockFile := True \<rparr>) of
             Inl e \<Rightarrow> Inl e
           | Inr (_, d1) \<Rightarrow> (case readCtrl d1 of Inl e \<Rightarrow> Inl e | Inr d2 \<Rightarrow> Inr (True, d2)))"

definition ParameterData_unLock :: "data \<Rightarrow> data" where
  "ParameterData_unLock d = d\<lparr> lockFile := False \<rparr>"

section \<open>Round trip of a parameter\<close>

definition plain :: "string \<Rightarrow> bool" where
  "plain s \<longleftrightarrow> (\<forall>c\<in>set s. 32 \<le> schar c \<and> c \<noteq> CHR '';'')"

definition value_safe :: "cstr \<Rightarrow> bool" where
  "value_safe v \<longleftrightarrow> (case v of Null \<Rightarrow> True | Empty \<Rightarrow> False | Str s \<Rightarrow> s \<noteq> [] \<and> ascii s)"

definition acl_safe :: "acl \<Rightarrow> bool" where
  "acl_safe a \<longleftrightarrow> (case a of ACL_NULL \<Rightarrow> True | ACL_DEFAULT \<Rightarrow> True
     | ACL l \<Rightarrow> l \<noteq> [] \<and> l \<noteq> [[]] \<and> l \<noteq> DM_ENG_DEFAULT_ACCESS_LIST \<and> (\<forall>s\<in>set l. csl_item s \<and> plain s))"

definition type_safe :: "DM_ENG_ParameterType \<Rightarrow> i32 \<Rightarrow> i32 \<Rightarrow> bool" where
  "type_safe t mn mx \<longleftrightarrow> proper_type t \<and>
     (t \<in> {PT_INT, PT_UINT, PT_ANY, PT_STATISTICS} \<or>
      (mx = 0 \<and> (if t = PT_STRING then sint mn \<ge> - 1 else mn = 0)))"

definition digit_safe :: "int \<Rightarrow> bool" where
  "digit_safe i \<longleftrightarrow> 0 \<le> i \<and> i \<le> 9"

definition param_safe :: "param \<Rightarrow> bool" where
  "param_safe p \<longleftrightarrow>
     (\<exists>n. p_name p = PREFIX @ n \<and> plain n \<and> (n \<noteq> [] \<longrightarrow> hd n \<noteq> CHR ''#'' \<and> hd n \<noteq> CHR ''*'')) \<and>
     type_safe (p_type p) (p_minValue p) (p_maxValue p) \<and>
     (\<forall>i. p_storageMode p \<noteq> SM_CODE i) \<and> (\<forall>i. p_notification p \<noteq> NM_CODE i) \<and>
     digit_safe (p_immediateChanges p) \<and> digit_safe (p_loadingMode p) \<and>
     digit_safe (state_to_int (p_state p)) \<and> acl_safe (p_accessList p) \<and>
     value_safe (p_value p) \<and> value_safe (p_backValue p) \<and> value_safe (p_configKey p) \<and>
     value_safe (p_definition p)"

definition enc_text :: "cstr \<Rightarrow> string" where
  "enc_text v = (case v of Str s \<Rightarrow> concat (map enc1 s) | _ \<Rightarrow> [])"

lemma enc_field_safe: "value_safe v \<Longrightarrow> enc_field v = Inr (enc_text v)"
proof (cases v)
  case Null
  then show ?thesis by (simp add: enc_text_def enc_field_def DM_ENG_encodeValue_def)
qed (auto simp: value_safe_def enc_text_def enc_field_ascii)

lemma dec_field_safe: "value_safe v \<Longrightarrow> dec_field (enc_text v) = Inr (ctext v)"
proof (cases v)
  case Null
  then show ?thesis by (simp add: enc_text_def dec_field_def DM_ENG_decodeValue_def)
qed (auto simp: value_safe_def enc_text_def dec_field_enc)

lemma str_or_null_safe: "value_safe v \<Longrightarrow> str_or_null (ctext v) = v"
  by (cases v) (auto simp: value_safe_def str_or_null_def)

lemma enc_text_plain: "value_safe v \<Longrightarrow> plain (enc_text v)"
proof -
  assume v: "value_safe v"
  show ?thesis
  proof (cases v)
    case (Str s)
    then have "ascii s" using v by (simp add: value_safe_def)
    then have l: "line_safe (enc_text v)" and a: "ascii (enc_text v)"
      using enc_line_safe [of s] enc_ascii [of s] Str by (simp_all add: enc_text_def)
    show ?thesis unfolding plain_def
    proof
      fix c assume "c \<in> set (enc_text v)"
      with l a show "32 \<le> schar c \<and> c \<noteq> CHR '';''" by (auto simp: line_safe_def ascii_def schar_def)
    qed
  qed (use v in \<open>auto simp: plain_def enc_text_def\<close>)
qed

lemma deci_plain: "plain (deci i)"
  using deci_chars [of _ i] by (fastforce simp: plain_def isdigit_def schar_def)

lemma dec_plain: "plain (dec n)"
  using dec_digits [of _ n] by (fastforce simp: plain_def isdigit_def schar_def)

lemma plain_append: "plain (a @ b) \<longleftrightarrow> plain a \<and> plain b"
  by (auto simp: plain_def)

lemma plain_Cons: "plain (c # a) \<longleftrightarrow> 32 \<le> schar c \<and> c \<noteq> CHR '';'' \<and> plain a"
  by (auto simp: plain_def)

lemma plain_Nil [simp]: "plain []"
  by (simp add: plain_def)

lemma type_plain: "plain (DM_ENG_typeToString t mn mx)"
  by (simp add: DM_ENG_typeToString_def plain_append plain_Cons deci_plain dec_plain schar_def)

lemma acl_text_plain: "acl_safe a \<Longrightarrow> plain (ctext (DM_ENG_buildCommaSeparatedList (acl_list a)))"
proof (cases a)
  case (ACL l)
  assume "acl_safe a"
  then have "\<forall>s\<in>set l. plain s" by (simp add: acl_safe_def ACL)
  then have "plain (join CHR '','' l)"
    using join_chars [of _ "CHR '',''" l] by (fastforce simp: plain_def schar_def)
  then show ?thesis by (cases l) (simp_all add: ACL DM_ENG_buildCommaSeparatedList_def)
qed (simp_all add: DM_ENG_buildCommaSeparatedList_def DM_ENG_DEFAULT_ACCESS_LIST_def plain_Cons schar_def)

lemma first_digit_deci: "digit_safe i \<Longrightarrow> first_digit (deci i) = i"
  using first_digit_dec [of "nat i"] by (auto simp: digit_safe_def deci_def)

lemma smode_digit: "(\<forall>i. m \<noteq> SM_CODE i) \<Longrightarrow> digit_safe (smode_to_int m) \<and> int_to_smode (smode_to_int m) = m"
  by (cases m) (auto simp: digit_safe_def int_to_smode_def)

lemma nmode_digit: "(\<forall>i. m \<noteq> NM_CODE i) \<Longrightarrow> digit_safe (nmode_to_int m) \<and> int_to_nmode (nmode_to_int m) = m"
  by (cases m) (auto simp: digit_safe_def int_to_nmode_def)

lemma bool_digit: "digit_safe (of_bool b)"
  by (simp add: digit_safe_def)

lemma acl_read:
  assumes "acl_safe a"
  shows "acl_of_attr False (ctext (DM_ENG_buildCommaSeparatedList (acl_list a))) = a"
proof (cases a)
  case (ACL l)
  with assms have l: "l \<noteq> []" "l \<noteq> [[]]" "l \<noteq> DM_ENG_DEFAULT_ACCESS_LIST" "\<forall>s\<in>set l. csl_item s"
    by (simp_all add: acl_safe_def)
  have t: "DM_ENG_buildCommaSeparatedList (Some l) = Str (join CHR '','' l)"
    using l(1) by (cases l) (simp_all add: DM_ENG_buildCommaSeparatedList_def)
  have sp: "DM_ENG_splitCommaSeparatedList (Str (join CHR '','' l)) = Some l"
    using split_build [OF l(1,4)] t by simp
  have "join CHR '','' l \<noteq> []"
  proof
    assume "join CHR '','' l = []"
    with sp have "DM_ENG_splitCommaSeparatedList (Str []) = Some l" by simp
    then show False using l(2) by (simp add: split_fields trim_def rtrim_def)
  qed
  moreover have "join CHR '','' l \<noteq> ''Subscriber''"
  proof
    assume "join CHR '','' l = ''Subscriber''"
    with sp have "DM_ENG_splitCommaSeparatedList (Str ''Subscriber'') = Some l" by simp
    moreover have "DM_ENG_splitCommaSeparatedList (Str ''Subscriber'') = Some [''Subscriber'']" by code_simp
    ultimately show False using l(3) by (simp add: DM_ENG_DEFAULT_ACCESS_LIST_def)
  qed
  ultimately show ?thesis using ACL t sp by (simp add: acl_of_attr_def DM_ENG_DEFAULT_ACCESS_LIST_def)
qed (simp_all add: acl_of_attr_def DM_ENG_buildCommaSeparatedList_def DM_ENG_DEFAULT_ACCESS_LIST_def)

lemma attributes_length: "length (attributes p v b k d) = 15"
  by (simp add: attributes_def)

lemma attributes_plain:
  assumes "param_safe p"
  shows "\<forall>a\<in>set (attributes p (enc_text (p_value p)) (enc_text (p_backValue p))
    (enc_text (p_configKey p)) (enc_text (p_definition p))). plain a"
proof -
  obtain n where n: "p_name p = PREFIX @ n" "plain n" using assms by (auto simp: param_safe_def)
  show ?thesis using assms n
    by (simp add: attributes_def param_safe_def deci_plain type_plain acl_text_plain enc_text_plain)
qed

lemma type_safe_read:
  "type_safe t mn mx \<Longrightarrow> DM_ENG_stringToType (DM_ENG_typeToString t mn mx) 0 0 = (t, mn, mx)"
proof -
  assume a: "type_safe t mn mx"
  have "mn = - 1" if "sint mn = - 1"
  proof -
    have "(of_int (sint mn) :: i32) = of_int (- 1)" using that by (simp only:)
    then show ?thesis by simp
  qed
  with a show ?thesis unfolding type_safe_def by (subst type_round_trip) (auto split: if_splits)
qed

lemma split_attributes_join:
  assumes "length as = 15" "\<forall>a\<in>set as. plain a"
  shows "split_attributes (join CHR '';'' as) = as"
proof -
  have "fields_of CHR '';'' (join CHR '';'' as) = as"
  proof (rule fields_join)
    show "as \<noteq> []" using assms(1) by auto
    show "\<forall>f\<in>set as. CHR '';'' \<notin> set f" using assms(2) by (simp add: plain_def) blast
  qed
  then show ?thesis using assms(1) by (simp add: split_attributes_def MAX_NB_ATTR_def)
qed

text \<open>A parameter is read back from its attributes.\<close>

lemma newParameter_attributes:
  assumes "param_safe p"
  shows "DM_ENG_newParameter (attributes p (ctext (p_value p)) (ctext (p_backValue p)) (ctext (p_configKey p))
    (ctext (p_definition p))) False = p"
proof -
  obtain n where n: "p_name p = PREFIX @ n" using assms by (auto simp: param_safe_def)
  have sm: "digit_safe (smode_to_int (p_storageMode p))" "int_to_smode (smode_to_int (p_storageMode p)) = p_storageMode p"
    and nm: "digit_safe (nmode_to_int (p_notification p))" "int_to_nmode (nmode_to_int (p_notification p)) = p_notification p"
    using assms smode_digit nmode_digit by (auto simp: param_safe_def)
  have nz: "digit_safe i \<Longrightarrow> i \<noteq> - 1" for i by (simp add: digit_safe_def)
  have ty: "DM_ENG_stringToType (DM_ENG_typeToString (p_type p) (p_minValue p) (p_maxValue p)) 0 0
      = (p_type p, p_minValue p, p_maxValue p)"
    using assms by (intro type_safe_read) (simp add: param_safe_def)
  have ac: "acl_of_attr False (ctext (DM_ENG_buildCommaSeparatedList (acl_list (p_accessList p)))) = p_accessList p"
    using assms by (intro acl_read) (simp add: param_safe_def)
  have st: "digit_safe (state_to_int (p_state p))" "digit_safe (p_immediateChanges p)" "digit_safe (p_loadingMode p)"
    using assms by (auto simp: param_safe_def)
  note d = first_digit_deci [OF sm(1)] first_digit_deci [OF nm(1)] first_digit_deci [OF st(1)]
    first_digit_deci [OF st(2)] first_digit_deci [OF st(3)] first_digit_deci [OF bool_digit]
  have v: "value_safe (p_value p)" "value_safe (p_backValue p)" "value_safe (p_configKey p)" "value_safe (p_definition p)"
    using assms by (auto simp: param_safe_def)
  have b: "code_or (of_bool x) y = x" for x y by (simp add: code_or_def)
  show ?thesis
    unfolding DM_ENG_newParameter_def attributes_def
    using ac nz [OF sm(1)] nz [OF nm(1)] nz [OF st(1)] nz [OF st(2)] nz [OF st(3)]
    by (intro param.equality) (simp_all add: nth_attr_def Let_def d ty sm(2) nm(2) b n v str_or_null_safe)
qed

lemma param_line_safe:
  "param_safe p \<Longrightarrow> length (join CHR '';'' (attributes p (enc_text (p_value p)) (enc_text (p_backValue p))
      (enc_text (p_configKey p)) (enc_text (p_definition p)))) < 799 \<Longrightarrow>
   param_line p = Inr (join CHR '';'' (attributes p (enc_text (p_value p)) (enc_text (p_backValue p))
      (enc_text (p_configKey p)) (enc_text (p_definition p))))"
  by (simp add: param_safe_def param_line_def enc_field_safe MAX_LINE_LEN_def Let_def)

lemma param_round_trip:
  assumes "param_safe p" "param_line p = Inr line"
  shows "param_of_line False line = Inr p"
proof -
  let ?as = "attributes p (enc_text (p_value p)) (enc_text (p_backValue p)) (enc_text (p_configKey p)) (enc_text (p_definition p))"
  have v: "value_safe (p_value p)" "value_safe (p_backValue p)" "value_safe (p_configKey p)" "value_safe (p_definition p)"
    using assms(1) by (auto simp: param_safe_def)
  have "line = join CHR '';'' ?as"
    using assms(2) v by (simp add: param_line_def enc_field_safe Let_def split: if_splits)
  then have sp: "split_attributes line = ?as"
    using split_attributes_join [OF attributes_length attributes_plain [OF assms(1)]] by simp
  have nth: "?as ! 9 = enc_text (p_value p)" "?as ! 12 = enc_text (p_backValue p)"
    "?as ! 13 = enc_text (p_configKey p)" "?as ! 14 = enc_text (p_definition p)"
    by (simp_all add: attributes_def)
  have up: "?as[9 := ctext (p_value p), 12 := ctext (p_backValue p), 13 := ctext (p_configKey p), 14 := ctext (p_definition p)]
    = attributes p (ctext (p_value p)) (ctext (p_backValue p)) (ctext (p_configKey p)) (ctext (p_definition p))"
    by (simp add: attributes_def)
  show ?thesis
    using newParameter_attributes [OF assms(1)]
    by (simp add: param_of_line_def sp nth up dec_field_safe v)
qed

text \<open>
  C20: A parameter survives the data file: the line that is written for it, when it fits in the
  buffer, is read back as the same parameter, with its bounds, flags, access list, values,
  configuration keys, definition and state.
\<close>

theorem parameter_survives_file:
  assumes "param_safe p" "param_line p = Inr line"
  shows "param_of_line False line = Inr p"
  using assms by (rule param_round_trip)

definition sample_param :: param where
  "sample_param = (DM_ENG_newDefinedParameter ''Device.X.Y'' PT_INT (Str ''a;b'') True)
     \<lparr> p_minValue := - 5, p_maxValue := 100, p_value := Str ''7'', p_notification := NM_ACTIVE \<rparr>"

lemma plain_code [code]: "plain s = list_all (\<lambda>c. 32 \<le> schar c \<and> c \<noteq> CHR '';'') s"
  by (simp add: plain_def list_all_iff)

lemma sample_param_safe: "param_safe sample_param"
proof -
  have "sint (- 5 :: i32) = - 5" by simp
  moreover have "csl_item ''_''" "plain ''_''" by code_simp+
  moreover have "the (DM_ENG_splitCommaSeparatedList (Str ''_'')) = [''_'']" by code_simp
  ultimately show ?thesis
    by (simp add: param_safe_def sample_param_def DM_ENG_newDefinedParameter_def PREFIX_def plain_def schar_def
      type_safe_def proper_type_def type_codes_def digit_safe_def state_to_int_def INITIAL_def acl_safe_def
      value_safe_def ascii_def DM_ENG_DEFAULT_ACCESS_LIST_def)
qed

theorem parameter_survives_file_witness:
  "\<exists>line. param_line sample_param = Inr line \<and> param_of_line False line = Inr sample_param"
proof -
  have "\<not> isl (param_line sample_param)" by code_simp
  then have "\<exists>line. param_line sample_param = Inr line" by (cases "param_line sample_param") auto
  then show ?thesis using parameter_survives_file [OF sample_param_safe] by blast
qed

section \<open>Round trip of the file\<close>

definition line_of :: "param \<Rightarrow> string" where
  "line_of p = join CHR '';'' (attributes p (enc_text (p_value p)) (enc_text (p_backValue p))
     (enc_text (p_configKey p)) (enc_text (p_definition p)))"

definition store_safe :: "param list \<Rightarrow> bool" where
  "store_safe ps \<longleftrightarrow> ps \<noteq> [] \<and> (\<forall>p\<in>set ps. param_safe p \<and> length (line_of p) < 799)"

lemma line_of_plain: "param_safe p \<Longrightarrow> c \<in> set (line_of p) \<Longrightarrow> 32 \<le> schar c"
  using join_chars [of c "CHR '';''"] attributes_plain [of p]
  unfolding line_of_def by (fastforce simp: plain_def schar_def [of "CHR '';''"])

lemma line_of_Cons: "\<exists>r. line_of p = drop (length PREFIX) (p_name p) @ CHR '';'' # r"
  by (simp add: line_of_def attributes_def)

lemma line_of_hd:
  assumes "param_safe p" shows "hd (line_of p) \<noteq> CHR ''*''" "hd (line_of p) \<noteq> CHR ''#''"
proof -
  obtain n where n: "p_name p = PREFIX @ n" "n \<noteq> [] \<longrightarrow> hd n \<noteq> CHR ''#'' \<and> hd n \<noteq> CHR ''*''"
    using assms by (auto simp: param_safe_def)
  obtain r where "line_of p = n @ CHR '';'' # r" using line_of_Cons [of p] n(1) by auto
  with n(2) show "hd (line_of p) \<noteq> CHR ''*''" "hd (line_of p) \<noteq> CHR ''#''" by (cases n; simp)+
qed

lemma line_of_long: "length (line_of p) > 1"
proof -
  obtain r where "line_of p = drop (length PREFIX) (p_name p) @ CHR '';'' # DM_ENG_typeToString (p_type p) (p_minValue p) (p_maxValue p) @ CHR '';'' # r"
    by (simp add: line_of_def attributes_def)
  then show ?thesis by simp
qed

lemma line_of_clean: "param_safe p \<Longrightarrow> length (line_of p) < 799 \<Longrightarrow> clean_line (line_of p)"
  using line_of_plain [of p] schar_plain last_in_set [of "line_of p"] line_of_hd [of p]
  unfolding clean_line_def by fastforce

lemma line_of_data: "param_safe p \<Longrightarrow> data_line (line_of p)"
  using line_of_hd line_of_long by (simp add: data_line_def)

lemma mapE_map: "\<forall>x\<in>set xs. f x = Inr (g x) \<Longrightarrow> mapE f xs = Inr (map g xs)"
  by (induction xs) auto

lemma param_line_of: "param_safe p \<Longrightarrow> length (line_of p) < 799 \<Longrightarrow> param_line p = Inr (line_of p)"
  using param_line_safe [of p] by (simp add: line_of_def)

lemma safe_prefix: "param_safe p \<Longrightarrow> prefixb PREFIX (p_name p)"
  by (auto simp: param_safe_def prefixb_iff)

lemma parameters_text_safe: "store_safe ps \<Longrightarrow> parameters_text ps = Inr (write_file (map line_of ps))"
proof -
  assume s: "store_safe ps"
  have "filter (\<lambda>p. prefixb PREFIX (p_name p)) ps = ps"
    using s by (auto simp: store_safe_def filter_id_conv safe_prefix)
  moreover have "mapE param_line ps = Inr (map line_of ps)"
    using s by (intro mapE_map) (auto simp: store_safe_def param_line_of)
  ultimately show ?thesis by (simp add: parameters_text_def)
qed

lemma mapE_lines: "store_safe ps \<Longrightarrow> mapE (param_of_line False) (filter data_line (map line_of ps)) = Inr ps"
proof -
  assume s: "store_safe ps"
  have "filter data_line (map line_of ps) = map line_of ps"
    using s by (auto simp: store_safe_def filter_id_conv line_of_data)
  moreover have "mapE (param_of_line False) (map line_of ps) = Inr ps"
    if "\<forall>p\<in>set ps. param_safe p \<and> length (line_of p) < 799" for ps
    using that by (induction ps) (auto simp: param_round_trip [OF _ param_line_of])
  moreover have "\<forall>p\<in>set ps. param_safe p \<and> length (line_of p) < 799"
    using s by (simp add: store_safe_def)
  ultimately show ?thesis by simp
qed

lemma lines_clean: "store_safe ps \<Longrightarrow> \<forall>l\<in>set (map line_of ps). clean_line l"
  by (auto simp: store_safe_def line_of_clean)

text \<open>A restarted agent: the files stay, the static variables are initialised again.\<close>

definition restart :: "data \<Rightarrow> data" where
  "restart d = d\<lparr> d_store := \<lparr> parameters = [], nbParameters = 0, dataChanged = False \<rparr>,
     d_ctrl := ctrl_init, lastModifData := 0, lastModifCtrl := 0 \<rparr>"

lemma read_file_safe:
  assumes "store_safe ps" "t > lastModifData d" "nbParameters (d_store d) \<ge> 0"
  shows "readFileParameters False (Some (write_file (map line_of ps), t)) d
    = Inr (0, d\<lparr> lastModifData := t,
        d_store := (d_store d)\<lparr> parameters := ps, nbParameters := int (length ps) \<rparr> \<rparr>)"
  using assms read_written [OF lines_clean [OF assms(1)]]
  by (auto simp: readFileParameters_def Let_def mapE_lines store_safe_def)

text \<open>
  C15: What the agent has saved is what it starts with.  After \<open>DM_ENG_ParameterData_sync\<close> a
  restarted agent finds every parameter and all of its control data, under the stated conditions
  on the strings.
\<close>

theorem sync_then_restart:
  assumes "store_safe (parameters (d_store d))" "dataChanged (d_store d)"
    "ctrl_safe (d_ctrl d)" "transfer_inv (d_ctrl d)" "controlDataChanged (d_ctrl d)" "now d > 0"
  shows "\<exists>d' d''. ParameterData_sync d = Inr d' \<and> ParameterData_init False (restart d') = Inr (0, d'') \<and>
    parameters (d_store d'') = parameters (d_store d) \<and>
    nbParameters (d_store d'') = int (length (parameters (d_store d))) \<and>
    d_ctrl d'' = (d_ctrl d)\<lparr> lastTransferId := max_id 0 (transferRequests (d_ctrl d)), controlDataChanged := False \<rparr>"
proof -
  define ct where "ct = write_file (ctrl_lines (d_ctrl d))"
  define pt where "pt = write_file (map line_of (parameters (d_store d)))"
  have w: "writeDmControl (d_ctrl d) = Inr ct"
    using assms(3) by (fastforce simp: writeDmControl_def ctrl_safe_def MAX_LINE_LEN_def ct_def)
  have p: "parameters_text (parameters (d_store d)) = Inr pt"
    unfolding pt_def by (rule parameters_text_safe [OF assms(1)])
  obtain d' where d': "ParameterData_sync d = Inr d'" "objFile d' = Some (pt, now d)" "ctrlFile d' = Some (ct, now d)"
    using assms w p by (simp add: ParameterData_sync_def writeCtrl_def writeParameters_def)
  have r: "readDmControl ct ctrl_init = Some ((d_ctrl d)\<lparr> lastTransferId := max_id 0 (transferRequests (d_ctrl d)),
      controlDataChanged := False \<rparr>)"
    unfolding ct_def using readDmControl_write [OF assms(3), of ctrl_init] assms(4)
    by (simp add: transfer_inv_def ctrl_init_def)
  have "\<exists>d''. ParameterData_init False (restart d') = Inr (0, d'') \<and>
    parameters (d_store d'') = parameters (d_store d) \<and>
    nbParameters (d_store d'') = int (length (parameters (d_store d))) \<and>
    d_ctrl d'' = (d_ctrl d)\<lparr> lastTransferId := max_id 0 (transferRequests (d_ctrl d)), controlDataChanged := False \<rparr>"
    using read_file_safe [OF assms(1), of "(restart d')\<lparr> lockFile := False \<rparr>" "now d"] assms(6) d' r
    by (simp add: ParameterData_init_def readParameters_def readCtrl_def restart_def pt_def [symmetric])
  with d'(1) show ?thesis by blast
qed

section \<open>Interrupted writings\<close>

text \<open>
  \<open>_writeParameters\<close> renames the data file to the backup and writes a new one.  When it is
  interrupted, the new file is missing (None) or holds a beginning of the text.
\<close>

definition interrupted_write :: "nat option \<Rightarrow> data \<Rightarrow> ub + data" where
  "interrupted_write k d =
     (case parameters_text (parameters (d_store d)) of
        Inl e \<Rightarrow> Inl e
      | Inr text \<Rightarrow> Inr (d\<lparr> backupObjFile := (if objFile d = None then backupObjFile d else objFile d),
           objFile := map_option (\<lambda>n. (take n text, now d)) k \<rparr>))"

lemma read_torn:
  assumes "store_safe ps" "t > lastModifData d" "nbParameters (d_store d) \<ge> 0"
    "readFileParameters False (Some (take n (write_file (map line_of ps)), t)) d = Inr (res, d')"
  shows "res = 0 \<and> parameters (d_store d') = ps \<or>
    res \<noteq> 0 \<and> nbParameters (d_store d') \<ge> 0 \<and> backupObjFile d' = backupObjFile d \<and> now d' = now d"
proof -
  let ?c = "take n (write_file (map line_of ps))"
  obtain ls io where r: "readlns (open_read ?c) = (ls, io)" by (cases "readlns (open_read ?c)")
  show ?thesis
  proof (cases "io_crcOK io")
    case True
    then have "ls = map line_of ps"
      using torn_file [OF lines_clean [OF assms(1)], of n] r by simp
    then show ?thesis using assms(1-4) r True mapE_lines [OF assms(1)]
      by (auto simp: readFileParameters_def Let_def store_safe_def split: if_splits)
  next
    case False
    then show ?thesis using assms(2-4) r
      by (auto simp: readFileParameters_def Let_def split: sum.splits if_splits)
  qed
qed

lemma recover_safe:
  assumes "store_safe ps" "backupObjFile d = Some (write_file (map line_of ps), t)" "t > 0"
    "nbParameters (d_store d) \<ge> 0"
  shows "\<exists>d'. recover d = Inr (0, d') \<and> parameters (d_store d') = ps"
  using read_file_safe [OF assms(1), of "d\<lparr> objFile := None, lastModifData := 0 \<rparr>" t] assms(2-4)
  by (simp add: recover_def writeParameters_def parameters_text_safe [OF assms(1)])

text \<open>
  C5: Saving the parameters is atomic.  If the agent stops at any point of the writing of the data
  file, over a data file that held saved parameters, then a restarted agent that can decode what
  was left starts with all of the new parameters or with all of the old ones.
\<close>

theorem interrupted_write_atomic:
  assumes "store_safe (parameters (d_store d))" "now d > 0"
    "store_safe old" "objFile d = Some (write_file (map line_of old), t)" "t > 0"
    "interrupted_write k d = Inr d'"
    "readParameters (restart d') = Inr (res, d'')"
  shows "res = 0 \<and> (parameters (d_store d'') = old \<or> parameters (d_store d'') = parameters (d_store d))"
proof -
  let ?new = "parameters (d_store d)"
  have d': "backupObjFile d' = Some (write_file (map line_of old), t)"
    "objFile d' = map_option (\<lambda>n. (take n (write_file (map line_of ?new)), now d)) k"
    using assms(6) by (auto simp: interrupted_write_def parameters_text_safe [OF assms(1)] assms(4))
  have r0: "nbParameters (d_store (restart d')) = 0" "lastModifData (restart d') = 0"
    "objFile (restart d') = objFile d'" "backupObjFile (restart d') = backupObjFile d'"
    by (simp_all add: restart_def)
  have rec: "\<exists>x. recover y = Inr (0, x) \<and> parameters (d_store x) = old"
    if "backupObjFile y = backupObjFile d'" "nbParameters (d_store y) \<ge> 0" for y
    by (rule recover_safe [OF assms(3) _ assms(5)]) (use that d' in simp_all)
  show ?thesis
  proof (cases k)
    case None
    then have "readParameters (restart d') = recover (restart d')"
      using d' r0 by (simp add: readParameters_def readFileParameters_def)
    with rec [of "restart d'"] r0 assms(7) show ?thesis by auto
  next
    case (Some n)
    obtain res1 d1 where 1: "readFileParameters False (objFile (restart d')) (restart d') = Inr (res1, d1)"
      using assms(7) by (auto simp: readParameters_def split: sum.splits)
    have "res1 = 0 \<and> parameters (d_store d1) = ?new \<or>
      res1 \<noteq> 0 \<and> nbParameters (d_store d1) \<ge> 0 \<and> backupObjFile d1 = backupObjFile (restart d') \<and> now d1 = now (restart d')"
      by (rule read_torn [OF assms(1) _ _ 1 [unfolded r0 d'(2) Some option.map]])
         (use r0 assms(2) in simp_all)
    then show ?thesis
    proof (elim disjE conjE)
      assume "res1 = 0" "parameters (d_store d1) = ?new"
      with 1 assms(7) show ?thesis by (simp add: readParameters_def)
    next
      assume a: "res1 \<noteq> 0" "nbParameters (d_store d1) \<ge> 0" "backupObjFile d1 = backupObjFile (restart d')"
      then obtain x where "recover d1 = Inr (0, x)" "parameters (d_store x) = old"
        using rec [of d1] r0 by auto
      with 1 a(1) assms(7) show ?thesis by (simp add: readParameters_def)
    qed
  qed
qed

text \<open>
  But the decoding precedes the verification of the checksum: a value cut after the percent
  sign of an encoded character has a decoded copy without room for its terminating NUL.
\<close>

theorem cut_value_overflows:
  assumes "s \<noteq> []" "CHR ''%'' \<notin> set s"
  shows "dec_field (s @ ''%'') = Inl BufOverflow"
proof -
  have d: "decode_loop (s @ ''%'') 0 = s" using assms(2) by (induction s) auto
  have f: "filter (\<lambda>c. c = CHR ''%'') s = []" using assms(2) by (auto simp: filter_empty_conv)
  then show ?thesis using assms(1)
    by (simp add: dec_field_def DM_ENG_decodeValue_def d Let_def)
qed

theorem cut_value_overflows_witness: "dec_field ''ab%'' = Inl BufOverflow"
  using cut_value_overflows [of "''ab''"] by simp

definition sample_data :: data where
  "sample_data = \<lparr> d_store = \<lparr> parameters = [sample_param], nbParameters = 1, dataChanged = True \<rparr>,
     d_ctrl = sample_ctrl, lastModifData = 5, lastModifCtrl = 5, iniFile = None,
     objFile = Some (write_file (map line_of [sample_param]), 5), backupObjFile = None, ctrlFile = None,
     lockFile = False, now = 9 \<rparr>"

lemma sample_store_safe: "store_safe [sample_param]"
proof -
  have "length (line_of sample_param) < 799" by code_simp
  then show ?thesis using sample_param_safe by (simp add: store_safe_def)
qed

theorem interrupted_write_atomic_witness:
  "\<exists>d'. interrupted_write None sample_data = Inr d' \<and>
     (\<forall>res d''. readParameters (restart d') = Inr (res, d'') \<longrightarrow> res = 0)"
proof -
  have s: "store_safe (parameters (d_store sample_data))" "now sample_data > 0"
    "objFile sample_data = Some (write_file (map line_of [sample_param]), 5)"
    using sample_store_safe by (simp_all add: sample_data_def)
  obtain d' where "interrupted_write None sample_data = Inr d'"
    by (simp add: interrupted_write_def parameters_text_safe [OF s(1)])
  with interrupted_write_atomic [OF s(1,2) sample_store_safe s(3) _ this] show ?thesis by auto
qed

theorem sync_then_restart_witness:
  "\<exists>d' d''. ParameterData_sync sample_data = Inr d' \<and> ParameterData_init False (restart d') = Inr (0, d'') \<and>
     parameters (d_store d'') = [sample_param]"
proof -
  have "store_safe (parameters (d_store sample_data))" "dataChanged (d_store sample_data)"
    "ctrl_safe (d_ctrl sample_data)" "transfer_inv (d_ctrl sample_data)"
    "controlDataChanged (d_ctrl sample_data)" "now sample_data > 0"
    using sample_store_safe sample_ctrl_safe sample_ctrl_inv
    by (simp_all add: sample_data_def sample_ctrl_def)
  from sync_then_restart [OF this] show ?thesis by (auto simp: sample_data_def)
qed

end
