(* ===== verification/Exp.thy ===== *)
theory Exp
  imports Common
begin

text \<open>
  \<open>dm_engine/src/DM_ENG_ComputedExp.c\<close>, first half: the expressions that define computed
  parameters, their lexer and their recursive descent parser.

  The parser of the code works on static variables, the rest of the text and the current token.
  A token depends on the text only, so the model reads all of them at first (\<open>lex\<close>) and the
  functions of the parser take and return the list of tokens that are left.  Each function of
  the code is a \<open>parse..._step\<close> over the functions it calls; \<open>parse\<close> ties them together with
  a fuel, and \<open>parse_enough\<close> shows that the fuel given by the entry point is always enough.
\<close>

section \<open>Expressions\<close>

datatype binop = LIST | GUARD | CONS | CONCAT | OR_OP | AND_OP | LT | LE | GT | GE | EQ | NE
  | PLUS | MINUS | TIMES | DIV_OP

datatype unop = U_PLUS | U_MINUS | NOT_OP

datatype litop = IDENT | QUOTE | STRING

text \<open>One constructor for each shape of the struct; a child that the code never sets is left out.\<close>

datatype exp =
    EBin binop exp exp
  | EUn unop exp
  | ELit litop string
  | ENum "32 word"
  | ECall string exp
  | ENil

section \<open>Lexer\<close>

definition OP_CHAR :: string where "OP_CHAR = ''!%*+-/:<=>?^|~''"

definition ident_char :: "char \<Rightarrow> bool" where
  "ident_char c \<longleftrightarrow> isalnum c \<or> c = CHR ''.'' \<or> c = CHR ''_''"

definition QUOTATION :: char where "QUOTATION = CHR 0x22"
definition APOSTROPHE :: char where "APOSTROPHE = CHR 0x27"
definition BACKSLASH :: char where "BACKSLASH = CHR 0x5C"

text \<open>The rest of a quoted token, its closing delimiter included when there is one.\<close>

fun scan_quoted :: "char \<Rightarrow> bool \<Rightarrow> string \<Rightarrow> string \<times> string" where
  "scan_quoted delim echap [] = ([], [])"
| "scan_quoted delim echap (c # s) =
     (if \<not> echap \<and> c = delim then ([c], s)
      else let (t, r) = scan_quoted delim (\<not> echap \<and> c = BACKSLASH) s in (c # t, r))"

definition getToken :: "string \<Rightarrow> (string \<times> string) option" where
  "getToken sExp =
     (let s = dropWhile isspace sExp;
          ident = takeWhile ident_char s;
          ops = takeWhile (\<lambda>c. c \<in> set OP_CHAR) s
      in if ident \<noteq> [] then Some (ident, dropWhile ident_char s)
         else if ops \<noteq> [] then Some (ops, dropWhile (\<lambda>c. c \<in> set OP_CHAR) s)
         else case s of
           [] \<Rightarrow> None
         | c # r \<Rightarrow>
             if c = QUOTATION \<or> c = APOSTROPHE
             then let (t, r') = scan_quoted c False r in Some (c # t, r')
             else Some ([c], r))"

lemma scan_quoted_append: "scan_quoted d e s = (t, r) \<Longrightarrow> s = t @ r"
  by (induction d e s arbitrary: t r rule: scan_quoted.induct) (auto split: if_splits prod.splits)

lemma getToken_shorter: "getToken s = Some (t, r) \<Longrightarrow> length r < length s \<and> t \<noteq> []"
proof -
  assume g: "getToken s = Some (t, r)"
  define s1 where "s1 = dropWhile isspace s"
  have "length s1 \<le> length s" unfolding s1_def by (rule length_dropWhile_le)
  moreover have "s1 = t @ r \<and> t \<noteq> []"
    using g unfolding getToken_def s1_def [symmetric] Let_def
    by (auto split: if_splits list.splits prod.splits dest!: scan_quoted_append)
  ultimately show ?thesis by (cases t) auto
qed

function lex :: "string \<Rightarrow> string list" where
  "lex s = (case getToken s of None \<Rightarrow> [] | Some (t, r) \<Rightarrow> t # lex r)"
  by pat_completeness auto
termination
  by (relation "measure length") (auto dest: getToken_shorter)

declare lex.simps [simp del]

section \<open>Parser\<close>

text \<open>
  The result of a parsing function: an expression or NULL with the tokens that are left, the
  comparison of a missing token by \<open>strcmp\<close>, or no fuel left.
\<close>

datatype pres = Ret "exp option" "string list" | Crash | NoFuel

fun and_then :: "pres \<Rightarrow> (exp option \<Rightarrow> string list \<Rightarrow> pres) \<Rightarrow> pres" where
  "and_then (Ret e ts) f = f e ts"
| "and_then Crash f = Crash"
| "and_then NoFuel f = NoFuel"

type_synonym parser = "string list \<Rightarrow> pres"
type_synonym left_parser = "(binop \<times> exp) option \<Rightarrow> string list \<Rightarrow> pres"

text \<open>The common form of the right associative levels.\<close>

definition parse_right :: "string \<Rightarrow> binop \<Rightarrow> parser \<Rightarrow> parser \<Rightarrow> parser" where
  "parse_right sep op self sub ts =
     and_then (sub ts) (\<lambda>e ts1.
       case e of
         None \<Rightarrow> Ret None ts1
       | Some s \<Rightarrow>
           if ts1 \<noteq> [] \<and> hd ts1 = sep
           then and_then (self (tl ts1)) (\<lambda>r ts2. Ret (map_option (EBin op s) r) ts2)
           else Ret (Some s) ts1)"

text \<open>The common form of the left associative levels, with the left operand already read.\<close>

definition parse_left :: "(string \<Rightarrow> binop option) \<Rightarrow> left_parser \<Rightarrow> parser \<Rightarrow> left_parser" where
  "parse_left ops self sub lExp ts =
     and_then (sub ts) (\<lambda>e ts1.
       case e of
         None \<Rightarrow> Ret None ts1
       | Some s \<Rightarrow>
           let s' = (case lExp of None \<Rightarrow> s | Some (op, l) \<Rightarrow> EBin op l s)
           in case (if ts1 = [] then None else ops (hd ts1)) of
                Some op \<Rightarrow> self (Some (op, s')) (tl ts1)
              | None \<Rightarrow> Ret (Some s') ts1)"

definition parseList_step :: "parser \<Rightarrow> parser \<Rightarrow> parser" where
  "parseList_step = parse_right '','' LIST"

definition parseGuard_step :: "parser \<Rightarrow> parser \<Rightarrow> parser" where
  "parseGuard_step = parse_right ''?'' GUARD"

definition parseCons_step :: "parser \<Rightarrow> parser \<Rightarrow> parser" where
  "parseCons_step = parse_right '':'' CONS"

definition parseConcat_step :: "left_parser \<Rightarrow> parser \<Rightarrow> left_parser" where
  "parseConcat_step = parse_left (\<lambda>t. if t = ''++'' then Some CONCAT else None)"

definition parseOr_step :: "left_parser \<Rightarrow> parser \<Rightarrow> left_parser" where
  "parseOr_step = parse_left (\<lambda>t. if t = ''|'' then Some OR_OP else None)"

definition parseAnd_step :: "left_parser \<Rightarrow> parser \<Rightarrow> left_parser" where
  "parseAnd_step = parse_left (\<lambda>t. if t = ''&'' then Some AND_OP else None)"

definition cond_ops :: "string \<Rightarrow> binop option" where
  "cond_ops t =
     (if t = ''<'' then Some LT else if t = ''<='' then Some LE else if t = ''>'' then Some GT
      else if t = ''>='' then Some GE else if t = ''=='' then Some EQ else if t = ''!='' then Some NE else None)"

definition parseCond_step :: "left_parser \<Rightarrow> parser \<Rightarrow> left_parser" where
  "parseCond_step = parse_left cond_ops"

definition sum_ops :: "string \<Rightarrow> binop option" where
  "sum_ops t = (if t = ''+'' then Some PLUS else if t = ''-'' then Some MINUS else None)"

definition parseSum_step :: "left_parser \<Rightarrow> parser \<Rightarrow> left_parser" where
  "parseSum_step = parse_left sum_ops"

definition prod_ops :: "string \<Rightarrow> binop option" where
  "prod_ops t = (if t = ''*'' then Some TIMES else if t = ''/'' then Some DIV_OP else None)"

definition parseProd_step :: "left_parser \<Rightarrow> parser \<Rightarrow> left_parser" where
  "parseProd_step = parse_left prod_ops"

text \<open>The text of a quoted token: an escape or a delimiter is passed, what follows it is copied.\<close>

fun unquote :: "char \<Rightarrow> string \<Rightarrow> string" where
  "unquote delim [] = []"
| "unquote delim [c] = (if c = BACKSLASH \<or> c = delim then [] else [c])"
| "unquote delim (c # d # s) =
     (if c = BACKSLASH \<or> c = delim then d # unquote delim s else c # unquote delim (d # s))"

definition closing :: "exp option \<Rightarrow> string list \<Rightarrow> (exp \<Rightarrow> exp) \<Rightarrow> pres" where
  "closing e ts f =
     (case e of
        None \<Rightarrow> Ret None ts
      | Some a \<Rightarrow>
          if ts = [] then Crash
          else if hd ts = '')'' then Ret (Some (f a)) (tl ts) else Ret None ts)"

definition parsePrim_step :: "parser \<Rightarrow> parser \<Rightarrow> parser" where
  "parsePrim_step list prim ts =
     (case ts of
        [] \<Rightarrow> Ret (Some ENil) []
      | tok # ts1 \<Rightarrow>
          if tok = ''('' then and_then (list ts1) (\<lambda>e ts2. closing e ts2 id)
          else if tok = ''!'' then and_then (prim ts1) (\<lambda>e ts2. Ret (map_option (EUn NOT_OP) e) ts2)
          else if tok = ''+'' then and_then (prim ts1) (\<lambda>e ts2. Ret (map_option (EUn U_PLUS) e) ts2)
          else if tok = ''-'' then and_then (prim ts1) (\<lambda>e ts2. Ret (map_option (EUn U_MINUS) e) ts2)
          else if hd tok = QUOTATION then Ret (Some (ELit STRING (unquote QUOTATION (tl tok)))) ts1
          else if hd tok = APOSTROPHE then Ret (Some (ELit QUOTE (unquote APOSTROPHE (tl tok)))) ts1
          else case DM_ENG_stringToUint (Str tok) of
            Some i \<Rightarrow> Ret (Some (ENum i)) ts1
          | None \<Rightarrow>
              if isalpha (hd tok) \<or> hd tok = CHR ''.'' \<or> hd tok = CHR ''_''
              then if ts1 \<noteq> [] \<and> hd ts1 = ''(''
                   then and_then (list (tl ts1)) (\<lambda>args ts2. closing args ts2 (ECall tok))
                   else Ret (Some (ELit IDENT tok)) ts1
              else Ret (Some ENil) ts)"

datatype level = L_List | L_Guard | L_Cons | L_Concat | L_Or | L_And | L_Cond | L_Sum | L_Prod | L_Prim

fun parse :: "nat \<Rightarrow> level \<Rightarrow> left_parser" where
  "parse 0 lv l ts = NoFuel"
| "parse (Suc n) L_List l ts = parseList_step (parse n L_List None) (parse n L_Guard None) ts"
| "parse (Suc n) L_Guard l ts = parseGuard_step (parse n L_Guard None) (parse n L_Cons None) ts"
| "parse (Suc n) L_Cons l ts = parseCons_step (parse n L_Cons None) (parse n L_Concat None) ts"
| "parse (Suc n) L_Concat l ts = parseConcat_step (parse n L_Concat) (parse n L_Or None) l ts"
| "parse (Suc n) L_Or l ts = parseOr_step (parse n L_Or) (parse n L_And None) l ts"
| "parse (Suc n) L_And l ts = parseAnd_step (parse n L_And) (parse n L_Cond None) l ts"
| "parse (Suc n) L_Cond l ts = parseCond_step (parse n L_Cond) (parse n L_Sum None) l ts"
| "parse (Suc n) L_Sum l ts = parseSum_step (parse n L_Sum) (parse n L_Prod None) l ts"
| "parse (Suc n) L_Prod l ts = parseProd_step (parse n L_Prod) (parse n L_Prim None) l ts"
| "parse (Suc n) L_Prim l ts = parsePrim_step (parse n L_List None) (parse n L_Prim None) ts"

definition parse_fuel :: "string list \<Rightarrow> nat" where
  "parse_fuel ts = 11 * length ts + 11"

text \<open>The entry point: an expression that leaves tokens is rejected.\<close>

definition parse_tokens :: "string list \<Rightarrow> pres" where
  "parse_tokens ts =
     and_then (parse (parse_fuel ts) L_List None ts) (\<lambda>e ts'. Ret (if ts' = [] then e else None) ts')"

definition DM_ENG_ComputedExp_parse :: "string \<Rightarrow> pres" where
  "DM_ENG_ComputedExp_parse sExp = parse_tokens (lex sExp)"

section \<open>The parser terminates\<close>

fun height :: "level \<Rightarrow> nat" where
  "height L_List = 10" | "height L_Guard = 9" | "height L_Cons = 8" | "height L_Concat = 7"
| "height L_Or = 6" | "height L_And = 5" | "height L_Cond = 4" | "height L_Sum = 3"
| "height L_Prod = 2" | "height L_Prim = 1"

lemma height_bounds: "0 < height lv" "height lv \<le> 10"
  by (cases lv; simp)+

text \<open>A call returns with fuel left, and with a rest no longer than its tokens.\<close>

definition returns :: "nat \<Rightarrow> pres \<Rightarrow> bool" where
  "returns k r \<longleftrightarrow> (case r of Ret e ts \<Rightarrow> length ts \<le> k | Crash \<Rightarrow> True | NoFuel \<Rightarrow> False)"

lemma returns_Ret [simp]: "returns k (Ret e ts) \<longleftrightarrow> length ts \<le> k"
  by (simp add: returns_def)

lemma returns_and_then:
  "returns k r \<Longrightarrow> (\<And>e ts. length ts \<le> k \<Longrightarrow> returns k (f e ts)) \<Longrightarrow> returns k (and_then r f)"
  by (cases r) (auto simp: returns_def)

lemma returns_mono: "returns k r \<Longrightarrow> k \<le> m \<Longrightarrow> returns m r"
  by (cases r) (auto simp: returns_def)

lemma returns_tl:
  "tsa \<noteq> [] \<Longrightarrow> length tsa \<le> k \<Longrightarrow> (\<And>ts'. length ts' < k \<Longrightarrow> returns (length ts') (f ts')) \<Longrightarrow>
     returns k (f (tl tsa))"
  by (rule returns_mono [of "length (tl tsa)"]) (cases tsa; auto)+

lemma returns_right:
  assumes "returns (length ts) (sub ts)" "\<And>ts'. length ts' < length ts \<Longrightarrow> returns (length ts') (self ts')"
  shows "returns (length ts) (parse_right sep op self sub ts)"
  unfolding parse_right_def
proof (rule returns_and_then [OF assms(1)])
  fix e and us :: "string list" assume us: "length us \<le> length ts"
  have s: "us \<noteq> [] \<Longrightarrow> returns (length ts) (and_then (self (tl us)) (\<lambda>r ts2. Ret (f r) ts2))" for f
    by (rule returns_and_then, rule returns_tl [OF _ us assms(2)]) (simp_all add: returns_def)
  have r: "returns (length ts) (Ret e' us)" for e' using us by (simp add: returns_def)
  show "returns (length ts) (case e of None \<Rightarrow> Ret None us
    | Some s \<Rightarrow> if us \<noteq> [] \<and> hd us = sep
        then and_then (self (tl us)) (\<lambda>r ts2. Ret (map_option (EBin op s) r) ts2) else Ret (Some s) us)"
    using s r by (simp split: option.split)
qed

lemma returns_left:
  assumes "returns (length ts) (sub ts)" "\<And>l ts'. length ts' < length ts \<Longrightarrow> returns (length ts') (self l ts')"
  shows "returns (length ts) (parse_left ops self sub l ts)"
  unfolding parse_left_def
proof (rule returns_and_then [OF assms(1)])
  fix e and us :: "string list" assume us: "length us \<le> length ts"
  have s: "us \<noteq> [] \<Longrightarrow> returns (length ts) (self l' (tl us))" for l'
    by (rule returns_tl [OF _ us assms(2)])
  have r: "returns (length ts) (Ret e' us)" for e' using us by (simp add: returns_def)
  show "returns (length ts) (case e of None \<Rightarrow> Ret None us
    | Some s \<Rightarrow> let s' = (case l of None \<Rightarrow> s | Some (op, l) \<Rightarrow> EBin op l s)
       in case (if us = [] then None else ops (hd us)) of
            Some op \<Rightarrow> self (Some (op, s')) (tl us) | None \<Rightarrow> Ret (Some s') us)"
    using s r by (cases "us = []") (simp_all add: Let_def split: option.split)
qed

lemma returns_closing: "length ts \<le> k \<Longrightarrow> returns k (closing e ts f)"
  by (auto simp: closing_def returns_def split: option.splits)

lemma returns_prim:
  assumes "\<And>ts'. length ts' < length ts \<Longrightarrow> returns (length ts') (list ts')"
    "\<And>ts'. length ts' < length ts \<Longrightarrow> returns (length ts') (prim ts')"
  shows "returns (length ts) (parsePrim_step list prim ts)"
proof (cases ts)
  case Nil
  then show ?thesis by (simp add: parsePrim_step_def returns_def)
next
  case (Cons tok ts1)
  have l: "returns (length ts) (and_then (list ts1) (\<lambda>e ts2. closing e ts2 f))" for f
    using assms(1) [of ts1] Cons
    by (intro returns_and_then returns_closing) (auto intro: returns_mono)
  have l': "returns (length ts) (and_then (list (tl ts1)) (\<lambda>e ts2. closing e ts2 f))" for f
    using Cons by (intro returns_and_then returns_closing returns_mono [OF assms(1) [of "tl ts1"]]) simp_all
  have p: "returns (length ts) (and_then (prim ts1) (\<lambda>e ts2. Ret (map_option f e) ts2))" for f
    using assms(2) [of ts1] Cons
    by (intro returns_and_then) (auto intro: returns_mono simp: returns_def [of _ "Ret _ _"])
  have r: "returns (length ts) (Ret e ts1)" "returns (length ts) (Ret e ts)" for e
    using Cons by (simp_all add: returns_def)
  show ?thesis using l l' p r unfolding Cons parsePrim_step_def list.case
    by (simp split: option.split)
qed

lemma parse_enough:
  "11 * length ts + height lv \<le> n \<Longrightarrow> returns (length ts) (parse n lv l ts)"
proof (induction n arbitrary: lv l ts)
  case 0
  then show ?case using height_bounds(1) [of lv] by simp
next
  case (Suc n)
  have same: "height lv' < height lv \<Longrightarrow> returns (length ts) (parse n lv' l' ts)" for lv' l'
    using Suc.prems by (intro Suc.IH) simp
  have less: "length ts' < length ts \<Longrightarrow> returns (length ts') (parse n lv' l' ts')" for lv' l' ts'
    using Suc.prems height_bounds [of lv] height_bounds [of lv'] by (intro Suc.IH) simp
  note steps = parseList_step_def parseGuard_step_def parseCons_step_def parseConcat_step_def parseOr_step_def
    parseAnd_step_def parseCond_step_def parseSum_step_def parseProd_step_def
  show ?case
    by (cases lv; simp add: steps; intro returns_right returns_left returns_prim same less; simp)
qed

text \<open>
  C25: The parser terminates on every text: with the fuel of the entry point it returns a result,
  an expression or a rejection, or compares a missing token.
\<close>

theorem parse_total: "DM_ENG_ComputedExp_parse s \<noteq> NoFuel"
proof -
  have "returns (length (lex s)) (parse (parse_fuel (lex s)) L_List None (lex s))"
    by (rule parse_enough) (simp add: parse_fuel_def)
  then show ?thesis
    by (cases "parse (parse_fuel (lex s)) L_List None (lex s)")
      (auto simp: DM_ENG_ComputedExp_parse_def parse_tokens_def returns_def)
qed

section \<open>Every expression has a text\<close>

fun op_text :: "binop \<Rightarrow> string" where
  "op_text LIST = '',''" | "op_text GUARD = ''?''" | "op_text CONS = '':''" | "op_text CONCAT = ''++''"
| "op_text OR_OP = ''|''" | "op_text AND_OP = ''&''" | "op_text LT = ''<''" | "op_text LE = ''<=''"
| "op_text GT = ''>''" | "op_text GE = ''>=''" | "op_text EQ = ''==''" | "op_text NE = ''!=''"
| "op_text PLUS = ''+''" | "op_text MINUS = ''-''" | "op_text TIMES = ''*''" | "op_text DIV_OP = ''/''"

fun un_text :: "unop \<Rightarrow> string" where
  "un_text U_PLUS = ''+''" | "un_text U_MINUS = ''-''" | "un_text NOT_OP = ''!''"

definition quote_text :: "char \<Rightarrow> string \<Rightarrow> string" where
  "quote_text d s = d # concat (map (\<lambda>c. if c = BACKSLASH \<or> c = d then [BACKSLASH, c] else [c]) s) @ [d]"

text \<open>The tokens of an expression, with all its parentheses.\<close>

fun prim_toks :: "exp \<Rightarrow> string list" where
  "prim_toks (EBin op l r) = [''(''] @ prim_toks l @ [op_text op] @ prim_toks r @ ['')'']"
| "prim_toks (EUn u e) = un_text u # prim_toks e"
| "prim_toks (ELit k s) = [case k of IDENT \<Rightarrow> s | STRING \<Rightarrow> quote_text QUOTATION s | QUOTE \<Rightarrow> quote_text APOSTROPHE s]"
| "prim_toks (ENum i) = [DM_ENG_uintToString i]"
| "prim_toks (ECall f a) = [f, ''(''] @ prim_toks a @ ['')'']"
| "prim_toks ENil = [''('', '')'']"

definition is_name :: "string \<Rightarrow> bool" where
  "is_name s \<longleftrightarrow> s \<noteq> [] \<and> (isalpha (hd s) \<or> hd s = CHR ''.'' \<or> hd s = CHR ''_'') \<and>
     list_all ident_char s"

fun printable :: "exp \<Rightarrow> bool" where
  "printable (EBin op l r) = (printable l \<and> printable r)"
| "printable (EUn u e) = printable e"
| "printable (ELit k s) = (k = IDENT \<longrightarrow> is_name s)"
| "printable (ENum i) = True"
| "printable (ECall f a) = (is_name f \<and> printable a)"
| "printable ENil = True"

fun ops_of :: "level \<Rightarrow> string \<Rightarrow> binop option" where
  "ops_of L_List t = (if t = '','' then Some LIST else None)"
| "ops_of L_Guard t = (if t = ''?'' then Some GUARD else None)"
| "ops_of L_Cons t = (if t = '':'' then Some CONS else None)"
| "ops_of L_Concat t = (if t = ''++'' then Some CONCAT else None)"
| "ops_of L_Or t = (if t = ''|'' then Some OR_OP else None)"
| "ops_of L_And t = (if t = ''&'' then Some AND_OP else None)"
| "ops_of L_Cond t = cond_ops t"
| "ops_of L_Sum t = sum_ops t"
| "ops_of L_Prod t = prod_ops t"
| "ops_of L_Prim t = None"

fun op_level :: "binop \<Rightarrow> level" where
  "op_level LIST = L_List" | "op_level GUARD = L_Guard" | "op_level CONS = L_Cons"
| "op_level CONCAT = L_Concat" | "op_level OR_OP = L_Or" | "op_level AND_OP = L_And"
| "op_level LT = L_Cond" | "op_level LE = L_Cond" | "op_level GT = L_Cond" | "op_level GE = L_Cond"
| "op_level EQ = L_Cond" | "op_level NE = L_Cond" | "op_level PLUS = L_Sum" | "op_level MINUS = L_Sum"
| "op_level TIMES = L_Prod" | "op_level DIV_OP = L_Prod"

lemma ops_of_text: "ops_of lv (op_text op) = (if lv = op_level op then Some op else None)"
  by (cases op; cases lv; simp add: cond_ops_def sum_ops_def prod_ops_def)

fun down :: "level \<Rightarrow> level" where
  "down L_List = L_Guard" | "down L_Guard = L_Cons" | "down L_Cons = L_Concat" | "down L_Concat = L_Or"
| "down L_Or = L_And" | "down L_And = L_Cond" | "down L_Cond = L_Sum" | "down L_Sum = L_Prod"
| "down L_Prod = L_Prim" | "down L_Prim = L_Prim"

lemma height_down: "lv \<noteq> L_Prim \<Longrightarrow> height lv = Suc (height (down lv))"
  by (cases lv) simp_all

lemma height_inj: "height lv = height lv' \<Longrightarrow> lv = lv'"
  by (cases lv; cases lv'; simp)

text \<open>With enough fuel, \<open>ts\<close> is read at a level as \<open>e\<close> up to \<open>rest\<close>.\<close>

definition yields :: "level \<Rightarrow> (binop \<times> exp) option \<Rightarrow> string list \<Rightarrow> exp \<Rightarrow> string list \<Rightarrow> bool" where
  "yields lv l ts e rest \<longleftrightarrow> (\<forall>n \<ge> 11 * length ts + height lv. parse n lv l ts = Ret (Some e) rest)"

lemmas parse_steps = parseList_step_def parseGuard_step_def parseCons_step_def parseConcat_step_def
  parseOr_step_def parseAnd_step_def parseCond_step_def parseSum_step_def parseProd_step_def
  parse_right_def parse_left_def

definition no_op :: "level \<Rightarrow> string list \<Rightarrow> bool" where
  "no_op lv rest \<longleftrightarrow> rest = [] \<or> ops_of lv (hd rest) = None"

lemma yields_up:
  assumes "yields (down lv) None ts e rest" "lv \<noteq> L_Prim" "no_op lv rest"
  shows "yields lv None ts e rest"
  unfolding yields_def
proof (intro allI impI)
  fix n assume n: "11 * length ts + height lv \<le> n"
  with height_down [OF assms(2)] obtain m where m: "n = Suc m" "11 * length ts + height (down lv) \<le> m"
    by (cases n) auto
  then have "parse m (down lv) None ts = Ret (Some e) rest" using assms(1) by (simp add: yields_def)
  then show "parse n lv None ts = Ret (Some e) rest"
    using assms(2,3) m(1) by (cases lv) (auto simp: parse_steps no_op_def split: option.split if_splits)
qed

lemma yields_to:
  "yields lv0 None ts e rest \<Longrightarrow> height lv0 \<le> height lv \<Longrightarrow>
     (\<forall>lv'. height lv0 < height lv' \<and> height lv' \<le> height lv \<longrightarrow> no_op lv' rest) \<Longrightarrow> yields lv None ts e rest"
proof (induction lv rule: measure_induct_rule [of height])
  case (less lv)
  show ?case
  proof (cases "height lv0 = height lv")
    case True
    with height_inj less.prems show ?thesis by metis
  next
    case False
    then have np: "lv \<noteq> L_Prim" using less.prems(2) height_bounds(1) [of lv0] by auto
    have "yields (down lv) None ts e rest"
      using less height_down [OF np] False by auto
    then show ?thesis using yields_up np less.prems False by auto
  qed
qed

lemma yields_prim:
  "yields L_Prim None ts e rest \<Longrightarrow> (\<forall>lv'. height lv' \<le> height lv \<longrightarrow> no_op lv' rest) \<Longrightarrow> yields lv None ts e rest"
  using yields_to [of L_Prim ts e rest lv] height_bounds(1) [of lv] by simp

lemma yields_left:
  assumes "yields (down lv) None ts e rest" "lv \<in> {L_Concat, L_Or, L_And, L_Cond, L_Sum, L_Prod}" "no_op lv rest"
  shows "yields lv (Some (op, l)) ts (EBin op l e) rest"
  unfolding yields_def
proof (intro allI impI)
  fix n assume n: "11 * length ts + height lv \<le> n"
  have "lv \<noteq> L_Prim" using assms(2) by auto
  from height_down [OF this] n obtain m where m: "n = Suc m" "11 * length ts + height (down lv) \<le> m"
    by (cases n) auto
  then have "parse m (down lv) None ts = Ret (Some e) rest" using assms(1) by (simp add: yields_def)
  then show "parse n lv (Some (op, l)) ts = Ret (Some (EBin op l e)) rest"
    using assms(2,3) m(1) by (auto simp: parse_steps no_op_def split: option.split if_splits)
qed

lemma yields_bin:
  assumes "yields L_Prim None (lt @ op_text op # rt @ rest) l (op_text op # rt @ rest)"
    "yields L_Prim None (rt @ rest) r rest" "\<forall>lv. no_op lv rest"
  shows "yields (op_level op) None (lt @ op_text op # rt @ rest) (EBin op l r) rest"
  unfolding yields_def
proof (intro allI impI)
  let ?lv = "op_level op" and ?ts = "lt @ op_text op # rt @ rest"
  fix n assume n: "11 * length ?ts + height ?lv \<le> n"
  have np: "?lv \<noteq> L_Prim" by (cases op) simp_all
  from height_down [OF np] n obtain m where m: "n = Suc m" "11 * length ?ts + height (down ?lv) \<le> m"
    by (cases n) auto
  have "no_op lv' (op_text op # rt @ rest)" if "height lv' \<le> height (down ?lv)" for lv'
    using that height_down [OF np] by (auto simp: no_op_def ops_of_text)
  from yields_prim [OF assms(1), of "down ?lv"] this
  have sub: "parse m (down ?lv) None ?ts = Ret (Some l) (op_text op # rt @ rest)"
    using m(2) by (simp add: yields_def)
  have fuel: "11 * length (rt @ rest) + height ?lv \<le> m"
    using m(2) height_down [OF np] by simp
  have right: "parse m ?lv None (rt @ rest) = Ret (Some r) rest"
    using yields_prim [OF assms(2), of ?lv] assms(3) fuel by (simp add: yields_def)
  have left: "?lv \<in> {L_Concat, L_Or, L_And, L_Cond, L_Sum, L_Prod} \<Longrightarrow>
      parse m ?lv (Some (op, l)) (rt @ rest) = Ret (Some (EBin op l r)) rest"
    using yields_left [OF yields_prim [OF assms(2), of "down ?lv"], of op l] assms(3) fuel by (simp add: yields_def)
  show "parse n ?lv None ?ts = Ret (Some (EBin op l r)) rest"
    using sub right left m(1) by (cases op) (simp_all add: parse_steps cond_ops_def sum_ops_def prod_ops_def)
qed

lemma no_op_close [simp]: "no_op lv ('')'' # rest)"
  by (cases lv) (simp_all add: no_op_def cond_ops_def sum_ops_def prod_ops_def)

lemma no_op_Nil [simp]: "no_op lv []"
  by (simp add: no_op_def)

lemma unquote_quote_text: "unquote d (tl (quote_text d s)) = s"
proof -
  have "unquote d (concat (map (\<lambda>c. if c = BACKSLASH \<or> c = d then [BACKSLASH, c] else [c]) s) @ [d]) = s"
  proof (induction s)
    case (Cons c s)
    let ?r = "concat (map (\<lambda>c. if c = BACKSLASH \<or> c = d then [BACKSLASH, c] else [c]) s) @ [d]"
    obtain x xs where x: "?r = x # xs" by (cases ?r) auto
    have "unquote d (c # x # xs) = c # unquote d (x # xs)" if "\<not> (c = BACKSLASH \<or> c = d)"
      using that by simp
    then show ?case using Cons x by (cases "c = BACKSLASH \<or> c = d") auto
  qed simp
  then show ?thesis by (simp add: quote_text_def)
qed

lemma name_token:
  "is_name s \<Longrightarrow> s \<notin> {''('', ''!'', ''+'', ''-''} \<and> hd s \<noteq> QUOTATION \<and> hd s \<noteq> APOSTROPHE \<and>
     DM_ENG_stringToUint (Str s) = None"
  by (cases s) (auto simp: is_name_def isalpha_def QUOTATION_def APOSTROPHE_def DM_ENG_stringToUint_def
      isspace_def isdigit_def)

lemma number_token:
  "DM_ENG_uintToString i \<notin> {''('', ''!'', ''+'', ''-''} \<and> hd (DM_ENG_uintToString i) \<noteq> QUOTATION \<and>
     hd (DM_ENG_uintToString i) \<noteq> APOSTROPHE"
  using hd_dec [of "unat i"]
  by (cases "dec (unat i)") (auto simp: uintToString_dec isdigit_def QUOTATION_def APOSTROPHE_def)

lemma yields_nil: "yields L_Prim None ('')'' # rest) ENil ('')'' # rest)"
  unfolding yields_def
proof (intro allI impI)
  fix n assume "11 * length ('')'' # rest) + height L_Prim \<le> n"
  then obtain m where "n = Suc m" by (cases n) auto
  moreover have "DM_ENG_stringToUint (Str '')'') = None" by code_simp
  ultimately show "parse n L_Prim None ('')'' # rest) = Ret (Some ENil) ('')'' # rest)"
    by (simp add: parsePrim_step_def QUOTATION_def APOSTROPHE_def isalpha_def)
qed

lemma yields_paren:
  assumes "yields L_List None ts e ('')'' # rest)"
  shows "yields L_Prim None (''('' # ts) e rest"
  unfolding yields_def
proof (intro allI impI)
  fix n assume n: "11 * length (''('' # ts) + height L_Prim \<le> n"
  then obtain m where m: "n = Suc m" "11 * length ts + height L_List \<le> m" by (cases n) auto
  then have "parse m L_List None ts = Ret (Some e) ('')'' # rest)" using assms by (simp add: yields_def)
  then show "parse n L_Prim None (''('' # ts) = Ret (Some e) rest"
    by (simp add: m(1) parsePrim_step_def closing_def)
qed

lemma yields_call:
  assumes "yields L_List None ts a ('')'' # rest)" "is_name f"
  shows "yields L_Prim None (f # ''('' # ts) (ECall f a) rest"
  unfolding yields_def
proof (intro allI impI)
  fix n assume n: "11 * length (f # ''('' # ts) + height L_Prim \<le> n"
  then obtain m where m: "n = Suc m" "11 * length ts + height L_List \<le> m" by (cases n) auto
  then have "parse m L_List None ts = Ret (Some a) ('')'' # rest)" using assms by (simp add: yields_def)
  then show "parse n L_Prim None (f # ''('' # ts) = Ret (Some (ECall f a)) rest"
    using name_token [OF assms(2)] assms(2) by (auto simp: m(1) parsePrim_step_def closing_def is_name_def)
qed

lemma op_text_open: "op_text op \<noteq> ''(''"
  by (cases op) simp_all

lemma yields_prim_toks:
  "printable e \<Longrightarrow> rest = [] \<or> hd rest \<noteq> ''('' \<Longrightarrow> yields L_Prim None (prim_toks e @ rest) e rest"
proof (induction e arbitrary: rest)
  case (EBin op l r)
  have "yields (op_level op) None (prim_toks l @ op_text op # prim_toks r @ '')'' # rest) (EBin op l r) ('')'' # rest)"
    using EBin op_text_open [of op] by (intro yields_bin) simp_all
  then have "yields L_List None (prim_toks l @ op_text op # prim_toks r @ '')'' # rest) (EBin op l r) ('')'' # rest)"
    by (rule yields_to) (use height_bounds [of "op_level op"] in simp_all)
  from yields_paren [OF this] show ?case by simp
next
  case (EUn u e)
  have y: "yields L_Prim None (prim_toks e @ rest) e rest" using EUn by simp
  show ?case unfolding yields_def
  proof (intro allI impI)
    fix n assume n: "11 * length (prim_toks (EUn u e) @ rest) + height L_Prim \<le> n"
    then obtain m where m: "n = Suc m" "11 * length (prim_toks e @ rest) + height L_Prim \<le> m" by (cases n) auto
    then have "parse m L_Prim None (prim_toks e @ rest) = Ret (Some e) rest" using y by (simp add: yields_def)
    then show "parse n L_Prim None (prim_toks (EUn u e) @ rest) = Ret (Some (EUn u e)) rest"
      by (cases u) (simp_all add: m(1) parsePrim_step_def)
  qed
next
  case (ELit k s)
  show ?case unfolding yields_def
  proof (intro allI impI)
    fix n assume "11 * length (prim_toks (ELit k s) @ rest) + height L_Prim \<le> n"
    then obtain m where m: "n = Suc m" by (cases n) auto
    show "parse n L_Prim None (prim_toks (ELit k s) @ rest) = Ret (Some (ELit k s)) rest"
    proof (cases k)
      case IDENT
      then show ?thesis using ELit name_token [of s]
        by (auto simp: m parsePrim_step_def is_name_def)
    qed (use unquote_quote_text in \<open>auto simp: m parsePrim_step_def quote_text_def QUOTATION_def APOSTROPHE_def\<close>)
  qed
next
  case (ENum i)
  show ?case unfolding yields_def
  proof (intro allI impI)
    fix n assume "11 * length (prim_toks (ENum i) @ rest) + height L_Prim \<le> n"
    then obtain m where m: "n = Suc m" by (cases n) auto
    show "parse n L_Prim None (prim_toks (ENum i) @ rest) = Ret (Some (ENum i)) rest"
      using number_token [of i] by (simp add: m parsePrim_step_def stringToUint_dec)
  qed
next
  case (ECall f a)
  have "yields L_Prim None (prim_toks a @ '')'' # rest) a ('')'' # rest)" using ECall by simp
  from yields_prim [OF this, of L_List] have "yields L_List None (prim_toks a @ '')'' # rest) a ('')'' # rest)" by simp
  from yields_call [OF this] ECall.prems(1) show ?case by simp
next
  case ENil
  from yields_prim [OF yields_nil [of rest], of L_List] have "yields L_List None ('')'' # rest) ENil ('')'' # rest)" by simp
  from yields_paren [OF this] show ?case by simp
qed

section \<open>Printing and reading back\<close>

definition exp_text :: "exp \<Rightarrow> string" where
  "exp_text e = join CHR '' '' (prim_toks e)"

text \<open>A token alone, or before a blank, is read as it is.\<close>

definition lexes :: "string \<Rightarrow> bool" where
  "lexes t \<longleftrightarrow> (\<forall>r. r = [] \<or> hd r = CHR '' '' \<longrightarrow> getToken (t @ r) = Some (t, r) \<and> getToken (CHR '' '' # t @ r) = Some (t, r))"

lemma blank: "isspace (CHR '' '')" "\<not> ident_char (CHR '' '')" "CHR '' '' \<notin> set OP_CHAR"
  by (simp_all add: isspace_def ident_char_def isalnum_def isalpha_def isdigit_def OP_CHAR_def)

lemma ident_not_space: "ident_char c \<Longrightarrow> \<not> isspace c"
  by (auto simp: ident_char_def isalnum_def isalpha_def isdigit_def isspace_def)

lemma getToken_space: "getToken (CHR '' '' # s) = getToken s"
  by (simp add: getToken_def blank)

lemma takeWhile_token:
  "list_all P t \<Longrightarrow> r = [] \<or> hd r = CHR '' '' \<Longrightarrow> \<not> P CHR '' '' \<Longrightarrow>
     takeWhile P (t @ r) = t \<and> dropWhile P (t @ r) = r"
  by (cases r) (auto simp: list_all_iff takeWhile_append2 dropWhile_append2)

lemma lexes_ident:
  assumes "t \<noteq> []" "list_all ident_char t" shows "lexes t"
  unfolding lexes_def getToken_space
proof (intro allI impI conjI)
  fix r :: string assume r: "r = [] \<or> hd r = CHR '' ''"
  obtain c cs where c: "t = c # cs" using assms(1) by (cases t) auto
  have "\<not> isspace c" using assms(2) c ident_not_space by simp
  then have "dropWhile isspace (t @ r) = t @ r" using c by simp
  then show "getToken (t @ r) = Some (t, r)" "getToken (t @ r) = Some (t, r)"
    using takeWhile_token [OF assms(2) r blank(2)] assms(1) unfolding getToken_def Let_def by simp_all
qed

lemma lexes_op:
  assumes "t \<noteq> []" "list_all (\<lambda>c. c \<in> set OP_CHAR) t" shows "lexes t"
  unfolding lexes_def getToken_space
proof (intro allI impI conjI)
  fix r :: string assume r: "r = [] \<or> hd r = CHR '' ''"
  obtain c cs where c: "t = c # cs" using assms(1) by (cases t) auto
  have o1: "\<not> isspace c" "\<not> ident_char c" using assms(2) c
    by (auto simp: OP_CHAR_def isspace_def ident_char_def isalnum_def isalpha_def isdigit_def)
  then have "dropWhile isspace (t @ r) = t @ r" "takeWhile ident_char (t @ r) = []" using c by simp_all
  then show "getToken (t @ r) = Some (t, r)" "getToken (t @ r) = Some (t, r)"
    using takeWhile_token [OF assms(2) r] blank(3) assms(1) unfolding getToken_def Let_def by simp_all
qed

lemma lexes_single:
  "\<not> isspace c \<Longrightarrow> \<not> ident_char c \<Longrightarrow> c \<notin> set OP_CHAR \<Longrightarrow> c \<noteq> QUOTATION \<Longrightarrow> c \<noteq> APOSTROPHE \<Longrightarrow> lexes [c]"
  unfolding lexes_def getToken_space by (simp add: getToken_def)

lemma lexes_punctuation: "lexes ''(''" "lexes '')''" "lexes '',''" "lexes ''&''"
  by (rule lexes_single; simp add: isspace_def ident_char_def isalnum_def isalpha_def isdigit_def OP_CHAR_def
      QUOTATION_def APOSTROPHE_def)+

lemma scan_quoted_text:
  "d \<noteq> BACKSLASH \<Longrightarrow>
   scan_quoted d False (concat (map (\<lambda>c. if c = BACKSLASH \<or> c = d then [BACKSLASH, c] else [c]) s) @ d # r)
     = (concat (map (\<lambda>c. if c = BACKSLASH \<or> c = d then [BACKSLASH, c] else [c]) s) @ [d], r)"
  by (induction s) (auto simp: case_prod_beta)

lemma lexes_quote:
  assumes "d = QUOTATION \<or> d = APOSTROPHE" shows "lexes (quote_text d s)"
proof -
  have d: "d \<noteq> BACKSLASH" "\<not> isspace d" "\<not> ident_char d" "d \<notin> set OP_CHAR"
    using assms by (auto simp: QUOTATION_def APOSTROPHE_def BACKSLASH_def isspace_def ident_char_def isalnum_def
        isalpha_def isdigit_def OP_CHAR_def)
  show ?thesis unfolding lexes_def getToken_space
    using assms d scan_quoted_text [OF d(1)] by (auto simp: getToken_def quote_text_def)
qed

lemma lexes_toks: "printable e \<Longrightarrow> t \<in> set (prim_toks e) \<Longrightarrow> lexes t"
proof (induction e)
  case (EBin op l r)
  have "lexes (op_text op)"
    by (cases op) (auto intro: lexes_op lexes_punctuation simp: OP_CHAR_def)
  then show ?case using EBin by (auto intro: lexes_punctuation)
next
  case (EUn u e)
  have "lexes (un_text u)" by (cases u) (auto intro: lexes_op simp: OP_CHAR_def)
  then show ?case using EUn by auto
next
  case (ELit k s)
  then show ?case by (cases k) (auto intro: lexes_ident lexes_quote simp: is_name_def)
next
  case (ENum i)
  have "list_all ident_char (DM_ENG_uintToString i)"
    by (auto simp: list_all_iff uintToString_dec ident_char_def isalnum_def dest: dec_digits)
  then show ?case using ENum by (auto simp: uintToString_dec intro!: lexes_ident)
next
  case (ECall f a)
  then show ?case by (auto intro: lexes_ident lexes_punctuation simp: is_name_def)
next
  case ENil
  then show ?case by (auto intro: lexes_punctuation)
qed

lemma lex_join:
  "\<forall>t\<in>set ts. lexes t \<Longrightarrow> lex (join CHR '' '' ts) = ts \<and> (ts \<noteq> [] \<longrightarrow> lex (CHR '' '' # join CHR '' '' ts) = ts)"
proof (induction ts)
  case Nil
  then show ?case by (subst lex.simps) (simp add: getToken_def)
next
  case (Cons t ts)
  have l: "lexes t" using Cons.prems by simp
  show ?case
  proof (cases "ts = []")
    case True
    have "lex [] = []" by (subst lex.simps) (simp add: getToken_def)
    then show ?thesis using l True unfolding lexes_def
      by (auto simp: lex.simps [of t] lex.simps [of "CHR '' '' # t"])
  next
    case False
    have j: "join CHR '' '' (t # ts) = t @ CHR '' '' # join CHR '' '' ts" using False by (simp add: join_Cons)
    have "lex (CHR '' '' # join CHR '' '' ts) = ts" using Cons False by simp
    then show ?thesis using l unfolding lexes_def j
      by (auto simp: lex.simps [of "t @ CHR '' '' # join CHR '' '' ts"]
          lex.simps [of "CHR '' '' # t @ CHR '' '' # join CHR '' '' ts"])
  qed
qed

lemma parse_printed:
  assumes "printable e"
  shows "DM_ENG_ComputedExp_parse (exp_text e) = Ret (Some e) []"
proof -
  have l: "lex (exp_text e) = prim_toks e"
    using lex_join lexes_toks [OF assms] by (simp add: exp_text_def)
  have "yields L_List None (prim_toks e) e []"
    using yields_prim [OF yields_prim_toks [OF assms, of "[]"]] by simp
  then have "parse (parse_fuel (prim_toks e)) L_List None (prim_toks e) = Ret (Some e) []"
    by (simp add: yields_def parse_fuel_def)
  then show ?thesis by (simp add: DM_ENG_ComputedExp_parse_def parse_tokens_def l)
qed

text \<open>
  C22: Every expression can be written: the text of an expression whose names are names, with its
  parentheses, is parsed as the expression, whatever its strings and quoted names.
\<close>

theorem parse_exp_text:
  assumes "printable e"
  shows "DM_ENG_ComputedExp_parse (exp_text e) = Ret (Some e) []"
  using assms by (rule parse_printed)

theorem parse_exp_text_witness:
  "DM_ENG_ComputedExp_parse (exp_text (EBin GUARD (EBin LT (ELit IDENT ''X'') (ENum 5))
     (EBin CONCAT (ELit STRING ''a b'') (ECall ''Class'' (ELit QUOTE ''y'')))))
   = Ret (Some (EBin GUARD (EBin LT (ELit IDENT ''X'') (ENum 5))
     (EBin CONCAT (ELit STRING ''a b'') (ECall ''Class'' (ELit QUOTE ''y''))))) []"
  by (rule parse_exp_text) (simp add: is_name_def ident_char_def isalnum_def isalpha_def isdigit_def)

text \<open>
  A parenthesis that is never closed makes the parser compare a missing token: after an
  opening parenthesis and an expression, the end of the text is dereferenced.
\<close>

theorem parse_unclosed_crash:
  assumes "printable e"
  shows "parse_tokens (''('' # prim_toks e) = Crash"
proof -
  have "yields L_List None (prim_toks e) e []"
    using yields_prim [OF yields_prim_toks [OF assms, of "[]"]] by simp
  then have p: "11 * length (prim_toks e) + 10 \<le> n \<Longrightarrow> parse n L_List None (prim_toks e) = Ret (Some e) []" for n
    by (simp add: yields_def)
  have prim: "parse n L_Prim None (''('' # prim_toks e) = Crash" if k: "11 * length (prim_toks e) + 12 \<le> n" for n
  proof -
    obtain m where "n = Suc m" "11 * length (prim_toks e) + 11 \<le> m" using k by (cases n) auto
    then show ?thesis using p [of m] by (simp add: parsePrim_step_def closing_def)
  qed
  have up: "parse n lv None (''('' # prim_toks e) = Crash" if "11 * length (prim_toks e) + 11 + height lv \<le> n" for n lv
    using that
  proof (induction lv arbitrary: n rule: measure_induct_rule [of height])
    case (less lv)
    show ?case
    proof (cases "lv = L_Prim")
      case True
      then show ?thesis using prim less.prems by simp
    next
      case False
      obtain m where m: "n = Suc m" "11 * length (prim_toks e) + 11 + height (down lv) \<le> m"
        using less.prems height_down [OF False] by (cases n) auto
      have "parse m (down lv) None (''('' # prim_toks e) = Crash"
        using less.IH [of "down lv" m] height_down [OF False] m(2) by simp
      then show ?thesis using m(1) False by (cases lv) (simp_all add: parse_steps)
    qed
  qed
  show ?thesis using up [of L_List "parse_fuel (''('' # prim_toks e)"]
    by (simp add: parse_tokens_def parse_fuel_def)
qed

theorem parse_unclosed_crash_witness:
  "DM_ENG_ComputedExp_parse ''(1'' = Crash"
proof -
  have "lex ''(1'' = ''('' # prim_toks (ENum 1)" by code_simp
  then show ?thesis using parse_unclosed_crash [of "ENum 1"] by (simp add: DM_ENG_ComputedExp_parse_def)
qed

end
