(* ===== verification/ExpEval.thy ===== *)
theory ExpEval
  imports Exp Dates "HOL-Library.State_Monad"
begin

text \<open>
  \<open>dm_engine/src/DM_ENG_ComputedExp.c\<close>, second half: the evaluation of expressions to an unsigned
  number, a boolean or a string, and the detection of changes.

  The callback that gives the value of a name may change the state of the caller: it is a
  computation \<open>gv\<close> of the state monad, and so are the evaluators.  Numbers and booleans are
  options; \<open>eval\<close> returns the success of the code together with the string it left in \<open>*pRes\<close>,
  which is not always NULL on failure.  \<open>tz\<close> and \<open>now\<close> are the time zone and the clock.
\<close>

section \<open>Evaluation\<close>

type_synonym ('s) getter = "string \<Rightarrow> ('s, cstr) state"

definition CLASS_FCT :: string where "CLASS_FCT = ''Class''"
definition DIFF_TIME_FCT :: string where "DIFF_TIME_FCT = ''DiffTime''"
definition INTERNAL_SEPARATOR :: string where "INTERNAL_SEPARATOR = ''!''"

definition DM_ENG_ComputedExp_isPredefinedFunction :: "string \<Rightarrow> bool" where
  "DM_ENG_ComputedExp_isPredefinedFunction name \<longleftrightarrow> name = CLASS_FCT"

fun arith :: "binop \<Rightarrow> 32 word \<Rightarrow> 32 word \<Rightarrow> 32 word option" where
  "arith PLUS x y = Some (x + y)"
| "arith MINUS x y = Some (x - y)"
| "arith TIMES x y = Some (x * y)"
| "arith DIV_OP x y = (if y = 0 then None else Some (x div y))"
| "arith _ x y = None"

definition is_arith :: "binop \<Rightarrow> bool" where
  "is_arith op \<longleftrightarrow> op \<in> {PLUS, MINUS, TIMES, DIV_OP}"

definition is_cmp :: "binop \<Rightarrow> bool" where
  "is_cmp op \<longleftrightarrow> op \<in> {LT, LE, GT, GE, EQ, NE}"

text \<open>The comparisons, on the sign of a difference.\<close>

fun cmp_op :: "binop \<Rightarrow> int \<Rightarrow> bool" where
  "cmp_op LT d = (d < 0)"
| "cmp_op LE d = (d \<le> 0)"
| "cmp_op GT d = (d > 0)"
| "cmp_op GE d = (d \<ge> 0)"
| "cmp_op EQ d = (d = 0)"
| "cmp_op NE d = (d \<noteq> 0)"
| "cmp_op _ d = False"

text \<open>A call of a function that is not predefined is the name of a parameter.\<close>

definition first_arg :: "exp \<Rightarrow> exp" where
  "first_arg a = (case a of EBin LIST l r \<Rightarrow> l | _ \<Rightarrow> a)"

definition call_name :: "string \<Rightarrow> exp \<Rightarrow> string option" where
  "call_name f a = (case first_arg a of ELit IDENT s \<Rightarrow> Some (s @ INTERNAL_SEPARATOR @ f) | _ \<Rightarrow> None)"

text \<open>The arguments of a call of the function Class, when there are two.\<close>

definition class_args :: "string \<Rightarrow> exp \<Rightarrow> (exp \<times> exp) option" where
  "class_args f a = (case a of EBin LIST l r \<Rightarrow> if f = CLASS_FCT then Some (l, r) else None | _ \<Rightarrow> None)"

lemma class_args_Some [simp]: "class_args f a = Some (l, r) \<longleftrightarrow> f = CLASS_FCT \<and> a = EBin LIST l r"
  by (auto simp: class_args_def split: exp.splits binop.splits)

definition get_as :: "'s getter \<Rightarrow> (cstr \<Rightarrow> 'a option) \<Rightarrow> string option \<Rightarrow> ('s, 'a option) state" where
  "get_as gv conv name =
     (case name of
        None \<Rightarrow> State_Monad.return None
      | Some n \<Rightarrow> do { v \<leftarrow> gv n; State_Monad.return (conv v) })"

definition both :: "('s, 'a option) state \<Rightarrow> ('s, 'b option) state \<Rightarrow> ('a \<Rightarrow> 'b \<Rightarrow> 'c option) \<Rightarrow> ('s, 'c option) state" where
  "both m1 m2 f = do {
     a \<leftarrow> m1;
     case a of None \<Rightarrow> State_Monad.return None
     | Some x \<Rightarrow> do { b \<leftarrow> m2; State_Monad.return (case b of None \<Rightarrow> None | Some y \<Rightarrow> f x y) } }"

text \<open>The date of a string that was evaluated; no string leaves the time at 0.\<close>

definition date_of :: "int \<Rightarrow> bool \<times> string option \<Rightarrow> int option" where
  "date_of tz r = (case r of (res, s) \<Rightarrow> if \<not> res then None
     else case s of None \<Rightarrow> Some 0 | Some st \<Rightarrow> DM_ENG_dateStringToTime tz (Str st))"

function
  evalUint :: "int \<Rightarrow> int \<Rightarrow> 's getter \<Rightarrow> exp \<Rightarrow> ('s, 32 word option) state" and
  evalClass :: "int \<Rightarrow> int \<Rightarrow> 's getter \<Rightarrow> 32 word \<Rightarrow> 32 word \<Rightarrow> exp \<Rightarrow> ('s, 32 word option) state" and
  evalDiffTime :: "int \<Rightarrow> int \<Rightarrow> 's getter \<Rightarrow> exp \<Rightarrow> ('s, 32 word option) state" and
  evalBool :: "int \<Rightarrow> int \<Rightarrow> 's getter \<Rightarrow> exp \<Rightarrow> ('s, bool option) state" and
  eval :: "int \<Rightarrow> int \<Rightarrow> 's getter \<Rightarrow> exp \<Rightarrow> ('s, bool \<times> string option) state"
where
  "evalUint tz now gv e =
     (case e of
        EBin op l r \<Rightarrow>
          if is_arith op then both (evalUint tz now gv l) (evalUint tz now gv r) (arith op)
          else State_Monad.return None
      | EUn U_PLUS x \<Rightarrow> evalUint tz now gv x
      | EUn U_MINUS x \<Rightarrow> do { a \<leftarrow> evalUint tz now gv x; State_Monad.return (map_option uminus a) }
      | EUn NOT_OP x \<Rightarrow> State_Monad.return None
      | ELit k s \<Rightarrow> if k = STRING then State_Monad.return None else get_as gv DM_ENG_stringToUint (Some s)
      | ENum i \<Rightarrow> State_Monad.return (Some i)
      | ECall f a \<Rightarrow>
          (case class_args f a of
             Some (l, r) \<Rightarrow> do {
               v \<leftarrow> evalUint tz now gv l;
               case v of None \<Rightarrow> State_Monad.return None | Some x \<Rightarrow> evalClass tz now gv x 0 r }
           | None \<Rightarrow> if f = DIFF_TIME_FCT then evalDiffTime tz now gv a
                  else get_as gv DM_ENG_stringToUint (call_name f a))
      | ENil \<Rightarrow> State_Monad.return None)"
| "evalClass tz now gv val c e =
     (case e of
        ENil \<Rightarrow> State_Monad.return (Some c)
      | EBin CONS l r \<Rightarrow> do {
          b \<leftarrow> (if l = ENil then State_Monad.return (Some 0xFFFFFFFF) else evalUint tz now gv l);
          case b of None \<Rightarrow> State_Monad.return None
          | Some borne \<Rightarrow> if val \<le> borne then State_Monad.return (Some c)
                           else evalClass tz now gv val (c + 1) r }
      | _ \<Rightarrow> do {
          b \<leftarrow> evalUint tz now gv e;
          State_Monad.return (map_option (\<lambda>borne. if val \<le> borne then c else c + 1) b) })"
| "evalDiffTime tz now gv arg =
     (let (arg2, arg1) = (case arg of EBin LIST l r \<Rightarrow> (l, r) | _ \<Rightarrow> (ENil, arg))
      in both
        (if arg2 = ENil then State_Monad.return (Some now)
         else do { v \<leftarrow> eval tz now gv arg2; State_Monad.return (date_of tz v) })
        (do { v \<leftarrow> eval tz now gv arg1; State_Monad.return (date_of tz v) })
        (\<lambda>t2 t1. if t2 < t1 then None else Some (word_of_int (t2 - t1))))"
| "evalBool tz now gv e =
     (case e of
        EBin op l r \<Rightarrow>
          if op = OR_OP then both (evalBool tz now gv l) (evalBool tz now gv r) (\<lambda>a b. Some (a \<or> b))
          else if op = AND_OP then both (evalBool tz now gv l) (evalBool tz now gv r) (\<lambda>a b. Some (a \<and> b))
          else if is_cmp op then do {
            n \<leftarrow> both (evalUint tz now gv l) (evalUint tz now gv r) (\<lambda>x y. Some (cmp_op op (uint x - uint y)));
            case n of
              Some b \<Rightarrow> State_Monad.return (Some b)
            | None \<Rightarrow> do {
                (_, sLeft) \<leftarrow> eval tz now gv l;
                (_, sRight) \<leftarrow> eval tz now gv r;
                State_Monad.return (case (sLeft, sRight) of
                    (Some a, Some b) \<Rightarrow> Some (cmp_op op (strcmp a b)) | _ \<Rightarrow> None) } }
          else State_Monad.return None
      | EUn NOT_OP x \<Rightarrow> do { a \<leftarrow> evalBool tz now gv x; State_Monad.return (map_option Not a) }
      | ELit IDENT s \<Rightarrow> get_as gv DM_ENG_stringToBool (Some s)
      | ECall f a \<Rightarrow> get_as gv DM_ENG_stringToBool (call_name f a)
      | _ \<Rightarrow> State_Monad.return None)"
| "eval tz now gv e =
     (let some_text = (\<lambda>o1. case o1 of None \<Rightarrow> (False, None) | Some s \<Rightarrow> (True, Some s));
          number = (\<lambda>o1. some_text (map_option DM_ENG_uintToString o1));
          text_of = (\<lambda>v. if v = Null then None else Some (ctext v))
      in case e of
        EBin op l r \<Rightarrow>
          if op = LIST then State_Monad.return (False, None)
          else if op = GUARD then do {
            g \<leftarrow> evalBool tz now gv l;
            if g = Some True then eval tz now gv r else State_Monad.return (False, None) }
          else if op = CONS \<or> op = CONCAT then do {
            (res, sLeft) \<leftarrow> eval tz now gv l;
            sRight \<leftarrow> (if res then do { (_, s) \<leftarrow> eval tz now gv r; State_Monad.return s }
                       else State_Monad.return None);
            State_Monad.return (case (sLeft, sRight) of
                (Some a, Some b) \<Rightarrow> (True, Some (a @ (if op = CONS then '':'' else []) @ b))
              | _ \<Rightarrow> (False, None)) }
          else if is_arith op then do {
            v \<leftarrow> both (evalUint tz now gv l) (evalUint tz now gv r) (\<lambda>x y. Some (arith op x y));
            State_Monad.return (case v of
                None \<Rightarrow> (False, None)
              | Some None \<Rightarrow> (False, Some (DM_ENG_uintToString 0))
              | Some (Some z) \<Rightarrow> (True, Some (DM_ENG_uintToString z))) }
          else do {
            b \<leftarrow> evalBool tz now gv e;
            State_Monad.return (some_text (map_option (\<lambda>v. if v then DM_ENG_TRUE_STRING else DM_ENG_FALSE_STRING) b)) }
      | EUn U_PLUS x \<Rightarrow> do { a \<leftarrow> evalUint tz now gv x; State_Monad.return (number a) }
      | EUn U_MINUS x \<Rightarrow> do { a \<leftarrow> evalUint tz now gv x; State_Monad.return (number (map_option uminus a)) }
      | EUn NOT_OP x \<Rightarrow> do {
            b \<leftarrow> evalBool tz now gv e;
            State_Monad.return (some_text (map_option (\<lambda>v. if v then DM_ENG_TRUE_STRING else DM_ENG_FALSE_STRING) b)) }
      | ELit k s \<Rightarrow> if k = STRING then State_Monad.return (True, Some s)
          else do { v \<leftarrow> get_as gv text_of (Some s); State_Monad.return (some_text v) }
      | ENum i \<Rightarrow> State_Monad.return (True, Some (DM_ENG_uintToString i))
      | ECall f a \<Rightarrow>
          (case class_args f a of
             Some (l, r) \<Rightarrow> do {
               v \<leftarrow> evalUint tz now gv l;
               case v of None \<Rightarrow> State_Monad.return (False, None)
               | Some x \<Rightarrow> do { c \<leftarrow> evalClass tz now gv x 0 r; State_Monad.return (number c) } }
           | None \<Rightarrow> if f = DIFF_TIME_FCT then do { d \<leftarrow> evalDiffTime tz now gv a; State_Monad.return (number d) }
                  else do { v \<leftarrow> get_as gv text_of (call_name f a); State_Monad.return (some_text v) })
      | ENil \<Rightarrow> State_Monad.return (False, None))"
  by pat_completeness auto

text \<open>
  Every call is on a smaller expression, but for those that pass the expression on: the ranks
  order the functions among themselves.
\<close>

termination
  by (relation "measure (\<lambda>x. case x of
        Inl (Inl (_, _, _, e)) \<Rightarrow> 3 * size e
      | Inl (Inr (_, _, _, _, _, e)) \<Rightarrow> 3 * size e + 1
      | Inr (Inl (_, _, _, e)) \<Rightarrow> 3 * size e + 2
      | Inr (Inr (Inl (_, _, _, e))) \<Rightarrow> 3 * size e
      | Inr (Inr (Inr (_, _, _, e))) \<Rightarrow> 3 * size e + 1)")
     (auto split: exp.splits binop.splits)

declare evalUint.simps [simp del] evalClass.simps [simp del] evalDiffTime.simps [simp del]
  evalBool.simps [simp del] eval.simps [simp del]

text \<open>The equations of the evaluators, one for each form of the expression.\<close>

lemmas evalUint_simps =
  evalUint.simps [of _ _ _ "EBin op l r", unfolded exp.case]
  evalUint.simps [of _ _ _ "EUn u x", unfolded exp.case]
  evalUint.simps [of _ _ _ "ELit k s", unfolded exp.case]
  evalUint.simps [of _ _ _ "ENum i", unfolded exp.case]
  evalUint.simps [of _ _ _ "ECall f a", unfolded exp.case]
  evalUint.simps [of _ _ _ "ENil", unfolded exp.case]
  for op l r u x k s i f a

lemmas evalClass_simps =
  evalClass.simps [of _ _ _ _ _ "EBin op l r", unfolded exp.case]
  evalClass.simps [of _ _ _ _ _ "EUn u x", unfolded exp.case]
  evalClass.simps [of _ _ _ _ _ "ELit k s", unfolded exp.case]
  evalClass.simps [of _ _ _ _ _ "ENum i", unfolded exp.case]
  evalClass.simps [of _ _ _ _ _ "ECall f a", unfolded exp.case]
  evalClass.simps [of _ _ _ _ _ "ENil", unfolded exp.case]
  for op l r u x k s i f a

lemmas evalBool_simps =
  evalBool.simps [of _ _ _ "EBin op l r", unfolded exp.case]
  evalBool.simps [of _ _ _ "EUn u x", unfolded exp.case]
  evalBool.simps [of _ _ _ "ELit k s", unfolded exp.case]
  evalBool.simps [of _ _ _ "ENum i", unfolded exp.case]
  evalBool.simps [of _ _ _ "ECall f a", unfolded exp.case]
  evalBool.simps [of _ _ _ "ENil", unfolded exp.case]
  for op l r u x k s i f a

lemmas eval_simps =
  eval.simps [of _ _ _ "EBin op l r", unfolded exp.case Let_def]
  eval.simps [of _ _ _ "EUn u x", unfolded exp.case Let_def]
  eval.simps [of _ _ _ "ELit k s", unfolded exp.case Let_def]
  eval.simps [of _ _ _ "ENum i", unfolded exp.case Let_def]
  eval.simps [of _ _ _ "ECall f a", unfolded exp.case Let_def]
  eval.simps [of _ _ _ "ENil", unfolded exp.case Let_def]
  for op l r u x k s i f a

section \<open>Changes\<close>

text \<open>
  The callback \<open>ivc\<close> says whether a parameter has changed and may set the flag of pushed changes,
  which it is given.  The result is the success of the code and the two flags.
\<close>

type_synonym 's watcher = "string \<Rightarrow> bool \<Rightarrow> ('s, bool \<times> bool) state"

primrec isChanged :: "int \<Rightarrow> int \<Rightarrow> 's getter \<Rightarrow> 's watcher \<Rightarrow> exp \<Rightarrow> bool \<Rightarrow> bool \<Rightarrow> ('s, bool \<times> bool \<times> bool) state" where
  "isChanged tz now gv ivc (EBin op l r) changed pushed =
     (if op = GUARD then do {
        g \<leftarrow> evalBool tz now gv l;
        if g = Some True then isChanged tz now gv ivc r changed pushed
        else State_Monad.return (False, changed, pushed) }
      else do {
        (res, c, p) \<leftarrow> isChanged tz now gv ivc l changed pushed;
        if res \<and> \<not> (c \<and> p) then do {
          (res', c', p') \<leftarrow> isChanged tz now gv ivc r False False;
          State_Monad.return (res', c \<or> c', p \<or> p') }
        else State_Monad.return (res, c, p) })"
| "isChanged tz now gv ivc (EUn u e) changed pushed = isChanged tz now gv ivc e changed pushed"
| "isChanged tz now gv ivc (ELit k s) changed pushed =
     (if k = IDENT then do { (c, p) \<leftarrow> ivc s pushed; State_Monad.return (True, c, p) }
      else State_Monad.return (True, False, False))"
| "isChanged tz now gv ivc (ENum i) changed pushed = State_Monad.return (True, False, False)"
| "isChanged tz now gv ivc (ECall f a) changed pushed =
     (if DM_ENG_ComputedExp_isPredefinedFunction f then isChanged tz now gv ivc a changed pushed
      else case call_name f a of
        None \<Rightarrow> State_Monad.return (False, changed, pushed)
      | Some n \<Rightarrow> do { (c, p) \<leftarrow> ivc n pushed; State_Monad.return (True, c, p) })"
| "isChanged tz now gv ivc ENil changed pushed = State_Monad.return (True, False, False)"

section \<open>Entry points\<close>

text \<open>The value None is the undefined behaviour of the parser on an unclosed parenthesis.\<close>

definition DM_ENG_ComputedExp_eval :: "int \<Rightarrow> int \<Rightarrow> string \<Rightarrow> 's getter \<Rightarrow> ('s, bool \<times> string option) state option" where
  "DM_ENG_ComputedExp_eval tz now sExp getValue =
     (case DM_ENG_ComputedExp_parse sExp of
        Ret None _ \<Rightarrow> Some (State_Monad.return (False, None))
      | Ret (Some e) _ \<Rightarrow> Some (eval tz now getValue e)
      | _ \<Rightarrow> None)"

definition DM_ENG_ComputedExp_isChanged ::
    "int \<Rightarrow> int \<Rightarrow> string \<Rightarrow> 's watcher \<Rightarrow> 's getter \<Rightarrow> bool \<Rightarrow> bool \<Rightarrow> ('s, bool \<times> bool \<times> bool) state option" where
  "DM_ENG_ComputedExp_isChanged tz now sExp isValueChanged getValue changed pushed =
     (case DM_ENG_ComputedExp_parse sExp of
        Ret None _ \<Rightarrow> Some (State_Monad.return (False, changed, pushed))
      | Ret (Some e) _ \<Rightarrow> Some (isChanged tz now getValue isValueChanged e changed pushed)
      | _ \<Rightarrow> None)"

end
