(* ===== verification/ExpProps.thy ===== *)
theory ExpProps
  imports ExpEval
begin

text \<open>
  The properties of the evaluation of \<open>dm_engine/src/DM_ENG_ComputedExp.c\<close>: its arithmetic and
  its classes against specifications on integers and lists, the names it depends on, and what
  the detection of changes sees of them.
\<close>

section \<open>Names read by an expression\<close>

text \<open>The names given to the callback by any of the evaluators.\<close>

fun names :: "exp \<Rightarrow> string set" where
  "names (EBin op l r) = names l \<union> names r"
| "names (EUn u e) = names e"
| "names (ELit k s) = (if k = STRING then {} else {s})"
| "names (ENum i) = {}"
| "names (ECall f a) = set_option (call_name f a) \<union> (if f \<in> {CLASS_FCT, DIFF_TIME_FCT} then names a else {})"
| "names ENil = {}"

lemma get_as_cong:
  "(\<And>n. name = Some n \<Longrightarrow> gv n = gv' n) \<Longrightarrow> get_as gv conv name = get_as gv' conv name"
  by (cases name) (simp_all add: get_as_def)

lemma get_as_bind_cong:
  "(\<And>n. name = Some n \<Longrightarrow> gv n = gv' n) \<Longrightarrow> get_as gv conv name \<bind> f = get_as gv' conv name \<bind> f"
  using get_as_cong [of name gv gv' conv] by auto

lemma eval_cong_all:
  assumes "\<And>n. n \<in> names e \<Longrightarrow> gv n = gv' n"
  shows "evalUint tz now gv e = evalUint tz now gv' e \<and>
    (\<forall>v c. evalClass tz now gv v c e = evalClass tz now gv' v c e) \<and>
    evalDiffTime tz now gv e = evalDiffTime tz now gv' e \<and>
    evalBool tz now gv e = evalBool tz now gv' e \<and>
    eval tz now gv e = eval tz now gv' e"
  using assms
proof (induction e rule: measure_induct_rule [of size])
  case (less e)
  have IH: "evalUint tz now gv x = evalUint tz now gv' x"
    "evalClass tz now gv v c x = evalClass tz now gv' v c x"
    "evalDiffTime tz now gv x = evalDiffTime tz now gv' x"
    "evalBool tz now gv x = evalBool tz now gv' x"
    "eval tz now gv x = eval tz now gv' x"
    if "size x < size e" "\<forall>n\<in>names x. n \<in> names e" for x v c
    using less.IH [OF that(1)] less.prems that(2) by blast+
  have U: "evalUint tz now gv e = evalUint tz now gv' e"
  proof (cases e)
    case (ECall f a)
    then show ?thesis using less.prems
      by (cases "class_args f a") (auto simp: evalUint_simps IH intro!: get_as_cong get_as_bind_cong)
  qed (use less.prems in \<open>auto simp: evalUint_simps IH intro!: get_as_cong get_as_bind_cong split: unop.splits\<close>)
  have B: "evalBool tz now gv e = evalBool tz now gv' e"
  proof (cases e)
    case (ECall f a)
    then show ?thesis using less.prems by (auto simp: evalBool_simps intro!: get_as_cong get_as_bind_cong)
  qed (use less.prems in \<open>auto simp: evalBool_simps IH intro!: get_as_cong get_as_bind_cong split: unop.splits litop.splits\<close>)
  have C: "evalClass tz now gv v c e = evalClass tz now gv' v c e" for v c
    using U by (cases e) (auto simp: evalClass_simps IH cong: if_cong split: binop.splits)
  have E: "eval tz now gv e = eval tz now gv' e"
  proof (cases e)
    case (EBin op l r)
    then show ?thesis using B by (auto simp: eval_simps IH cong: if_cong)
  next
    case (EUn u x)
    then show ?thesis using B by (cases u) (auto simp: eval_simps IH cong: if_cong)
  next
    case (ECall f a)
    then show ?thesis using less.prems
      by (cases "class_args f a") (auto simp: eval_simps IH intro!: get_as_cong get_as_bind_cong)
  qed (use less.prems in \<open>auto simp: eval_simps intro!: get_as_cong get_as_bind_cong\<close>)
  have D: "evalDiffTime tz now gv e = evalDiffTime tz now gv' e"
    using E by (cases e) (auto simp: evalDiffTime.simps IH split: binop.splits)
  show ?case using U B C D E by blast
qed

text \<open>
  The value of an expression depends only on the parameters it names, evaluated in its order:
  two callbacks that agree on these names give the same string, the same number and the same
  boolean, with the same effects on the state.
\<close>

theorem eval_depends_on_names:
  assumes "\<And>n. n \<in> names e \<Longrightarrow> gv n = gv' n"
  shows "eval tz now gv e = eval tz now gv' e \<and> evalUint tz now gv e = evalUint tz now gv' e \<and>
    evalBool tz now gv e = evalBool tz now gv' e"
  using eval_cong_all [of e gv gv' tz now] assms by blast

theorem eval_depends_on_names_witness:
  "eval 0 0 (\<lambda>n. State_Monad.return (if n = ''A'' then Str ''1'' else Null)) (ELit IDENT ''A'')
   = (eval 0 0 (\<lambda>n. State_Monad.return (Str ''1'')) (ELit IDENT ''A'') :: (nat, bool \<times> string option) state)"
  by (rule eval_depends_on_names [THEN conjunct1]) simp

section \<open>A state that does not change\<close>

definition pure :: "(string \<Rightarrow> cstr) \<Rightarrow> unit getter" where
  "pure env = (\<lambda>n. State_Monad.return (env n))"

definition result :: "(unit, 'a) state \<Rightarrow> 'a" where
  "result m = fst (run_state m ())"

lemma result_return [simp]: "result (State_Monad.return x) = x"
  by (simp add: result_def State_Monad.return_def)

lemma result_bind [simp]: "result (m \<bind> f) = result (f (result m))"
  by (simp add: result_def State_Monad.bind_def case_prod_beta)

lemma result_if [simp]: "result (if c then m1 else m2) = (if c then result m1 else result m2)"
  by simp

lemma result_option [simp]:
  "result (case x of None \<Rightarrow> m | Some y \<Rightarrow> f y) = (case x of None \<Rightarrow> result m | Some y \<Rightarrow> result (f y))"
  by (cases x) simp_all

lemma result_both [simp]:
  "result (both m1 m2 f) = (case result m1 of None \<Rightarrow> None
     | Some x \<Rightarrow> (case result m2 of None \<Rightarrow> None | Some y \<Rightarrow> f x y))"
  by (simp add: both_def split: option.splits)

lemma result_get_as [simp]:
  "result (get_as (pure env) conv n) = (case n of None \<Rightarrow> None | Some s \<Rightarrow> conv (env s))"
  by (cases n) (simp_all add: get_as_def pure_def)

section \<open>Arithmetic\<close>

text \<open>The expressions of numbers and names with sums, differences and products, and their value in
  the integers.\<close>

fun polynomial :: "exp \<Rightarrow> bool" where
  "polynomial (EBin op l r) = (op \<in> {PLUS, MINUS, TIMES} \<and> polynomial l \<and> polynomial r)"
| "polynomial (EUn u e) = (u \<noteq> NOT_OP \<and> polynomial e)"
| "polynomial (ELit k s) = (k \<noteq> STRING)"
| "polynomial (ENum i) = True"
| "polynomial _ = False"

fun int_value :: "(string \<Rightarrow> int) \<Rightarrow> exp \<Rightarrow> int" where
  "int_value \<rho> (EBin PLUS l r) = int_value \<rho> l + int_value \<rho> r"
| "int_value \<rho> (EBin MINUS l r) = int_value \<rho> l - int_value \<rho> r"
| "int_value \<rho> (EBin TIMES l r) = int_value \<rho> l * int_value \<rho> r"
| "int_value \<rho> (EUn U_MINUS e) = - int_value \<rho> e"
| "int_value \<rho> (EUn _ e) = int_value \<rho> e"
| "int_value \<rho> (ELit k s) = \<rho> s"
| "int_value \<rho> (ENum i) = uint i"
| "int_value \<rho> _ = 0"

lemma polynomial_value:
  "polynomial e \<Longrightarrow> (\<And>n. n \<in> names e \<Longrightarrow> DM_ENG_stringToUint (env n) = Some (word_of_int (\<rho> n))) \<Longrightarrow>
   result (evalUint tz now (pure env) e) = Some (word_of_int (int_value \<rho> e))"
proof (induction e)
  case (EBin op l r)
  then show ?case
    by (cases op) (auto simp: evalUint_simps is_arith_def)
next
  case (EUn u e)
  then show ?case by (cases u) (auto simp: evalUint_simps)
next
  case (ELit k s)
  then show ?case by (cases k) (auto simp: evalUint_simps)
qed (auto simp: evalUint_simps)

text \<open>
  C23: Sums, differences and products of numbers and parameters are computed modulo \<open>2 ^ 32\<close>: the
  string is the decimal form of the value that the expression has in the integers, reduced, however
  often the intermediate results wrap around.
\<close>

theorem arithmetic_mod_2_32:
  assumes "polynomial e" "\<And>n. n \<in> names e \<Longrightarrow> env n = Str (DM_ENG_uintToString (word_of_int (\<rho> n)))"
  shows "result (eval tz now (pure env) e) = (True, Some (dec (nat (int_value \<rho> e mod 2 ^ 32))))"
proof -
  have v: "result (evalUint tz now (pure env) x) = Some (word_of_int (int_value \<rho> x))"
    if "polynomial x" "names x \<subseteq> names e" for x
    by (rule polynomial_value [OF that(1)]) (use that(2) assms(2) in \<open>auto simp: stringToUint_dec\<close>)
  have w: "dec (nat (i mod 2 ^ 32)) = DM_ENG_uintToString (word_of_int i)" for i
    by (simp add: uintToString_dec unat_eq_nat_uint uint_word_of_int)
  show ?thesis
    unfolding w
  proof (cases e)
    case (EBin op l r)
    then show "result (eval tz now (pure env) e) = (True, Some (DM_ENG_uintToString (word_of_int (int_value \<rho> e))))"
      using assms(1) v [of l] v [of r] by (cases op) (auto simp: eval_simps is_arith_def)
  next
    case (EUn u x)
    then show "result (eval tz now (pure env) e) = (True, Some (DM_ENG_uintToString (word_of_int (int_value \<rho> e))))"
      using assms(1) v [of x] by (cases u) (auto simp: eval_simps)
  qed (use assms in \<open>auto simp: eval_simps\<close>)
qed

theorem arithmetic_mod_2_32_witness:
  "result (eval 0 0 (pure (\<lambda>n. Str ''5'')) (EBin MINUS (ELit IDENT ''X'') (EBin TIMES (ENum 2) (ENum 3))))
     = (True, Some (dec (nat ((-1) mod 2 ^ 32))))"
proof -
  have "DM_ENG_uintToString 5 = ''5''" by code_simp
  then show ?thesis
    using arithmetic_mod_2_32 [of "EBin MINUS (ELit IDENT ''X'') (EBin TIMES (ENum 2) (ENum 3))" "\<lambda>n. Str ''5''" "\<lambda>n. 5" 0 0]
    by simp
qed

section \<open>Classes\<close>

text \<open>The list of the bounds of a class; a missing bound is the greatest number.\<close>

fun class_bounds :: "exp \<Rightarrow> 32 word list option" where
  "class_bounds ENil = Some []"
| "class_bounds (ENum b) = Some [b]"
| "class_bounds (EBin CONS ENil r) = map_option ((#) 0xFFFFFFFF) (class_bounds r)"
| "class_bounds (EBin CONS (ENum b) r) = map_option ((#) b) (class_bounds r)"
| "class_bounds _ = None"

lemma evalClass_bounds:
  "class_bounds e = Some bs \<Longrightarrow> result (evalClass tz now gv v c e) = Some (c + of_nat (length (takeWhile (\<lambda>b. b < v) bs)))"
  by (induction e arbitrary: bs c rule: class_bounds.induct)
     (auto simp: evalClass_simps evalUint_simps not_le not_less algebra_simps)

text \<open>
  The class of a parameter is the number of bounds below its value, up to the first bound that
  is not: the text of the call, parsed and evaluated, gives this number.
\<close>

theorem class_of_value:
  assumes "env x = Str (DM_ENG_uintToString v)" "is_name x" "printable e"
    "class_bounds e = Some bs" "length bs < 2 ^ 32"
  shows "map_option result (DM_ENG_ComputedExp_eval tz now
      (exp_text (ECall CLASS_FCT (EBin LIST (ELit IDENT x) e))) (pure env))
    = Some (True, Some (dec (length (takeWhile (\<lambda>b. b < v) bs))))"
proof -
  have "length (takeWhile (\<lambda>b. b < v) bs) < 2 ^ 32"
    using length_takeWhile_le [of "\<lambda>b. b < v" bs] assms(5) by linarith
  then have u: "unat (of_nat (length (takeWhile (\<lambda>b. b < v) bs)) :: 32 word) = length (takeWhile (\<lambda>b. b < v) bs)"
    by (simp add: unat_of_nat)
  then have number: "DM_ENG_uintToString (word_of_nat (length (takeWhile (\<lambda>b. b < v) bs))) = dec (length (takeWhile (\<lambda>b. b < v) bs))"
    by (simp add: uintToString_dec)
  have "printable (ECall CLASS_FCT (EBin LIST (ELit IDENT x) e))"
    using assms(2,3) by (simp add: is_name_def CLASS_FCT_def ident_char_def isalnum_def isalpha_def)
  from parse_printed [OF this] show ?thesis
    using stringToUint_dec [of v] assms(1)
    by (simp add: DM_ENG_ComputedExp_eval_def eval_simps class_args_def evalUint_simps
        evalClass_bounds [OF assms(4)] number)
qed

theorem class_of_value_witness:
  "map_option result (DM_ENG_ComputedExp_eval 0 0
      (exp_text (ECall CLASS_FCT (EBin LIST (ELit IDENT ''Rate'') (EBin CONS (ENum 10) (EBin CONS (ENum 20) ENil)))))
      (pure (\<lambda>n. Str (DM_ENG_uintToString 15))))
    = Some (True, Some (dec 1))"
  using class_of_value [of "\<lambda>n. Str (DM_ENG_uintToString 15)" "''Rate''" 15 "EBin CONS (ENum 10) (EBin CONS (ENum 20) ENil)" "[10, 20]" 0 0]
  by (simp add: is_name_def ident_char_def isalnum_def isalpha_def)

section \<open>Comparisons\<close>

text \<open>
  Two expressions are compared as numbers when both are, as strings otherwise, and the six
  operators are consistent: when one of them has a value they all have, exactly one of less,
  equal and greater is true, and the other three are the negations.
\<close>

theorem comparisons_consistent:
  "result (evalBool tz now (pure env) (EBin NE l r)) = map_option Not (result (evalBool tz now (pure env) (EBin EQ l r))) \<and>
   result (evalBool tz now (pure env) (EBin LE l r)) = map_option Not (result (evalBool tz now (pure env) (EBin GT l r))) \<and>
   result (evalBool tz now (pure env) (EBin GE l r)) = map_option Not (result (evalBool tz now (pure env) (EBin LT l r))) \<and>
   (case (result (evalBool tz now (pure env) (EBin LT l r)), result (evalBool tz now (pure env) (EBin EQ l r)),
          result (evalBool tz now (pure env) (EBin GT l r))) of
      (None, None, None) \<Rightarrow> True
    | (Some a, Some b, Some c) \<Rightarrow> length (filter id [a, b, c]) = 1
    | _ \<Rightarrow> False)"
proof -
  have "length (filter id [d < 0, d = 0, 0 < d]) = 1" for d :: int
    by (cases d "0 :: int" rule: linorder_cases) simp_all
  then show ?thesis
    by (auto simp: evalBool_simps is_cmp_def case_prod_beta not_less not_le split: option.splits)
qed

text \<open>
  A division by zero has no number and no success, but the string 0: concatenated it succeeds,
  and compared to 0 it is equal.
\<close>

theorem division_by_zero_text:
  assumes "result (evalUint tz now (pure env) l) = Some x" "result (evalUint tz now (pure env) r) = Some 0"
  shows "result (evalUint tz now (pure env) (EBin DIV_OP l r)) = None \<and>
    result (eval tz now (pure env) (EBin DIV_OP l r)) = (False, Some ''0'') \<and>
    result (eval tz now (pure env) (EBin CONCAT (ELit STRING s) (EBin DIV_OP l r))) = (True, Some (s @ ''0'')) \<and>
    result (evalBool tz now (pure env) (EBin EQ (EBin DIV_OP l r) (ENum 0))) = Some True"
proof -
  have z: "DM_ENG_uintToString 0 = ''0''" by code_simp
  have "strcmp ''0'' ''0'' = 0" by code_simp
  then show ?thesis using assms
    by (simp add: evalUint_simps eval_simps evalBool_simps is_arith_def is_cmp_def z)
qed

theorem division_by_zero_text_witness:
  "result (eval 0 0 (pure (\<lambda>n. Null)) (EBin CONCAT (ELit STRING ''a'') (EBin DIV_OP (ENum 1) (ENum 0)))) = (True, Some ''a0'')"
  using division_by_zero_text [of 0 0 "\<lambda>n. Null" "ENum 1" 1 "ENum 0" "''a''"] by (simp add: evalUint_simps)

section \<open>Changes\<close>

text \<open>The names that the detection of changes asks for.\<close>

fun watched :: "exp \<Rightarrow> string set" where
  "watched (EBin op l r) = (if op = GUARD then watched r else watched l \<union> watched r)"
| "watched (EUn u e) = watched e"
| "watched (ELit k s) = (if k = IDENT then {s} else {})"
| "watched (ENum i) = {}"
| "watched (ECall f a) = (if DM_ENG_ComputedExp_isPredefinedFunction f then watched a else set_option (call_name f a))"
| "watched ENil = {}"

text \<open>
  The detection of changes asks about no other name than these: not about the names of a guard,
  nor about quoted names, and for a call of the function DiffTime not about its arguments, although
  the evaluation reads them all.  A change of those is reported by no answer of the callback.
\<close>

theorem isChanged_asks_watched:
  assumes "\<And>n. n \<in> watched e \<Longrightarrow> ivc n = ivc' n"
  shows "isChanged tz now gv ivc e changed pushed = isChanged tz now gv ivc' e changed pushed"
  using assms
proof (induction e arbitrary: changed pushed)
  case (EBin op l r)
  show ?case
  proof (cases "op = GUARD")
    case True
    then show ?thesis using EBin by (auto intro!: arg_cong [where f = "State_Monad.bind _"])
  next
    case False
    have "isChanged tz now gv ivc l = isChanged tz now gv ivc' l" "isChanged tz now gv ivc r = isChanged tz now gv ivc' r"
      using EBin False by (auto intro!: ext)
    then show ?thesis by (simp cong: if_cong)
  qed
qed (auto split: option.splits)

theorem isChanged_asks_watched_witness:
  "isChanged 0 0 (pure (\<lambda>n. Null)) (\<lambda>n p. State_Monad.return (n = ''A'', p)) (EBin GUARD (ELit IDENT ''A'') (ELit QUOTE ''A'')) False False
   = isChanged 0 0 (pure (\<lambda>n. Null)) (\<lambda>n p. State_Monad.return (n = ''B'', p)) (EBin GUARD (ELit IDENT ''A'') (ELit QUOTE ''A'')) False False"
  by (rule isChanged_asks_watched) simp

text \<open>The expressions whose every name is watched.\<close>

fun watchable :: "exp \<Rightarrow> bool" where
  "watchable (EBin op l r) = (op \<noteq> GUARD \<and> watchable l \<and> watchable r)"
| "watchable (EUn u e) = watchable e"
| "watchable (ELit k s) = (k \<noteq> QUOTE)"
| "watchable (ECall f a) = (f \<noteq> DIFF_TIME_FCT \<and> (f = CLASS_FCT \<longrightarrow> watchable a))"
| "watchable _ = True"

definition class_name :: "string \<Rightarrow> bool" where
  "class_name n \<longleftrightarrow> (\<exists>x. n = x @ INTERNAL_SEPARATOR @ CLASS_FCT)"

lemma predefined [simp]: "DM_ENG_ComputedExp_isPredefinedFunction f \<longleftrightarrow> f = CLASS_FCT"
  by (simp add: DM_ENG_ComputedExp_isPredefinedFunction_def)

lemma watchable_names: "watchable e \<Longrightarrow> n \<in> names e \<Longrightarrow> n \<in> watched e \<or> class_name n"
proof (induction e)
  case (ELit k s)
  then show ?case by (cases k) auto
next
  case (ECall f a)
  then show ?case
    by (auto simp: class_name_def call_name_def split: if_splits exp.splits litop.splits)
qed (auto split: if_splits)

definition watch :: "(string \<Rightarrow> bool) \<Rightarrow> (string \<Rightarrow> bool \<Rightarrow> bool) \<Rightarrow> unit watcher" where
  "watch chg psh = (\<lambda>n p. State_Monad.return (chg n, psh n p))"

lemma result_case_prod [simp]: "result (case x of (a, b) \<Rightarrow> f a b) = (case x of (a, b) \<Rightarrow> result (f a b))"
  by (cases x) simp

lemma isChanged_False:
  "watchable e \<Longrightarrow> result (isChanged tz now (pure env) (watch chg psh) e c p) = (True, False, q) \<Longrightarrow>
   n \<in> watched e \<Longrightarrow> \<not> chg n"
proof (induction e arbitrary: c p q)
  case (EBin op l r)
  obtain rs c1 p1 where l: "result (isChanged tz now (pure env) (watch chg psh) l c p) = (rs, c1, p1)"
    by (metis prod.exhaust)
  obtain rs' c2 p2 where r: "result (isChanged tz now (pure env) (watch chg psh) r False False) = (rs', c2, p2)"
    by (metis prod.exhaust)
  have "rs \<and> \<not> c1" "rs' \<and> \<not> c2"
    using EBin.prems(1,2) l r by (auto split: if_splits)
  then show ?case using EBin.IH(1) [of c p p1] EBin.IH(2) [of False False p2] EBin.prems l r by auto
next
  case (ELit k s)
  then show ?case by (cases k) (auto simp: watch_def)
next
  case (ECall f a)
  then show ?case by (auto simp: watch_def split: if_splits option.splits)
qed (auto simp: watch_def)

text \<open>
  C24: When the detection of changes succeeds and reports no change, there was none: if every
  parameter whose value differs answers that it has changed, the expression, without guards, quoted
  names or DiffTime, has the same value in both states.  (A parameter of the name of a call of Class
  is read by the evaluation of a boolean, and not watched.)
\<close>

theorem isChanged_sound:
  assumes "result (isChanged tz now (pure env') (watch chg psh) e c p) = (True, False, q)"
    "watchable e" "\<And>n. env n \<noteq> env' n \<Longrightarrow> chg n \<and> \<not> class_name n"
  shows "eval tz now (pure env) e = eval tz now (pure env') e"
proof -
  have "pure env n = pure env' n" if n: "n \<in> names e" for n
    using watchable_names [OF assms(2) n] isChanged_False [OF assms(2,1)] assms(3) [of n]
    unfolding pure_def by (metis (full_types))
  then show ?thesis using eval_cong_all [of e "pure env" "pure env'" tz now] by blast
qed

theorem isChanged_sound_witness:
  "eval 0 0 (pure (\<lambda>n. if n = ''A'' then Str ''1'' else Str n)) (EBin CONCAT (ELit IDENT ''B'') (ELit IDENT ''C''))
   = eval 0 0 (pure (\<lambda>n. Str n)) (EBin CONCAT (ELit IDENT ''B'') (ELit IDENT ''C''))"
proof (rule isChanged_sound [where chg = "\<lambda>n. n = ''A''" and psh = "\<lambda>n p. p" and c = False and p = False and q = False])
  show "result (isChanged 0 0 (pure (\<lambda>n. Str n)) (watch (\<lambda>n. n = ''A'') (\<lambda>n p. p))
      (EBin CONCAT (ELit IDENT ''B'') (ELit IDENT ''C'')) False False) = (True, False, False)"
    by (simp add: watch_def)
  show "watchable (EBin CONCAT (ELit IDENT ''B'') (ELit IDENT ''C''))" by simp
  show "n = ''A'' \<and> \<not> class_name n" if "(if n = ''A'' then Str ''1'' else Str n) \<noteq> Str n" for n
    using that by (auto simp: class_name_def CLASS_FCT_def INTERNAL_SEPARATOR_def append_eq_Cons_conv split: if_splits)
qed

text \<open>
  A guard that stops being true is not reported: the value goes from that of the guarded
  expression to none, and the detection of changes, in the new state, fails whatever has changed.
\<close>

theorem guard_change_missed:
  assumes "env x = Str ''1''" "env' x = Str ''0''"
  shows "result (eval tz now (pure env) (EBin GUARD (ELit IDENT x) (ELit STRING s))) = (True, Some s) \<and>
    result (eval tz now (pure env') (EBin GUARD (ELit IDENT x) (ELit STRING s))) = (False, None) \<and>
    result (isChanged tz now (pure env') ivc (EBin GUARD (ELit IDENT x) (ELit STRING s)) False False) = (False, False, False)"
proof -
  have "DM_ENG_stringToBool (Str ''1'') = Some True" "DM_ENG_stringToBool (Str ''0'') = Some False"
    by code_simp+
  then show ?thesis using assms by (simp add: eval_simps evalBool_simps)
qed

theorem guard_change_missed_witness:
  "result (eval 0 0 (pure (\<lambda>n. Str ''0'')) (EBin GUARD (ELit IDENT ''A'') (ELit STRING ''on''))) = (False, None)"
  using guard_change_missed [of "\<lambda>n. Str ''1''" "''A''" "\<lambda>n. Str ''0''"] by blast

end
