(* ===== verification/Engine.thy ===== *)
theory Engine
  imports ParamFile ExpEval
begin

text \<open>
  The state of the DM engine and the vocabulary in which its components are written.

  The static variables of \<open>DM_ENG_ParameterManager.c\<close>, of \<open>DM_ENG_InformMessageScheduler.c\<close> and of
  the parameter data are the record \<open>engine\<close>.  An operation is a computation of the state monad over
  it.  The record \<open>env\<close> holds what is outside: the functions of \<open>DM_ENG_Device.h\<close>, which the device
  adapter of a target provides, the callbacks that the communication module registers, and the
  time zone; they work on a state of their own, of any type, kept in \<open>e_world\<close>.  Its \<open>x_fuel\<close> bounds
  the loops over the parameters and the depth of the recursions.

  Undefined behaviour reached by an operation, the end of the fuel of a recursion, or a wait for a
  lock that another process holds is recorded in \<open>e_fault\<close>: what the operation computes from there on
  means nothing.  \<open>keeps\<close> is the
  preservation of a predicate on the state, with a rule for every construct.
\<close>

section \<open>Types of the components\<close>

datatype nstatus = NS_COMPLETED | NS_SESSION_OPENING | NS_SESSION_OPENED | NS_CANCELLED

definition int_to_nstatus :: "int \<Rightarrow> nstatus" where
  "int_to_nstatus i = (if i = 0 then NS_COMPLETED else if i = 1 then NS_SESSION_OPENING
     else if i = 2 then NS_SESSION_OPENED else NS_CANCELLED)"

datatype device_status = DS_UNINITIALIZED | DS_DOWN | DS_UP | DS_INITIALIZING | DS_ERROR | DS_DISABLED

type_synonym pvs = "string \<times> DM_ENG_ParameterType \<times> cstr"

text \<open>The notifications of the system that wait for the lock, one constructor for each type.\<close>

datatype notification =
    PATH_CHANGE string
  | DATA_VALUE_CHANGE string cstr
  | VALUES_UPDATED "(string \<times> cstr) list"
  | SAMPLE_DATA string
  | TRANSFER_COMPLETE transfer
  | REQUEST_DOWNLOAD download
  | VENDOR_SPECIFIC_EVENT string

record mgr =
  m_periodicInformChanged :: bool
  m_acsParametersToUpdate :: bool
  m_diagnosticsRequested :: "(string \<times> bool) list"
  m_pendingChanges :: "notification list"
  m_inSession :: bool
  m_open :: bool

record sched =
  s_lastStatus :: device_status
  s_sendMessageStatus :: nstatus
  s_transferIdSending :: "32 word"
  s_requestDownloadSending :: bool
  s_alive :: bool
  s_nextInformTime :: int
  s_pendingEvents :: "event list"
  s_retryOn :: bool
  s_retryDelay :: int
  s_signalled :: bool
  s_threads :: nat

text \<open>A listener of the notification interface: what it is known to know.\<close>

record listener =
  l_knownParameters :: "pvs list"
  l_knownParametersToRemove :: "string list"
  l_inform :: bool
  l_transferComplete :: bool
  l_requestDownload :: bool

record notif =
  n_mandatoryParameterList :: "string list option"
  n_acs :: "listener option"
  n_selfcare :: "listener option"
  n_updateAcs :: bool

datatype fault = UB ub | OutOfFuel | Waiting

text \<open>Calls to modules that are not modelled, in their order.\<close>

datatype call =
    StatisticsPerformSetting string string
  | StatisticsInit
  | StatisticsRestart
  | StatisticsProcessSample string
  | DiagnosticsLaunch string

record 'w engine =
  e_data :: data
  e_mgr :: mgr
  e_sched :: sched
  e_notif :: notif
  e_entities :: "string list"
  e_cursor :: "string option"
  e_current :: "nat option"
  e_world :: 'w
  e_calls :: "call list"
  e_fault :: "fault option"

text \<open>The informations of an Inform message: device identity, events, parameters, time and retry count.\<close>

record inform_msg =
  i_id :: "cstr list"
  i_events :: "event list"
  i_parameters :: "pvs list"
  i_time :: int
  i_retryCount :: int

record 'w env =
  x_tz :: int
  x_fuel :: nat
  x_getValue :: "string \<Rightarrow> cstr \<Rightarrow> 'w \<Rightarrow> (int \<times> cstr) \<times> 'w"
  x_setValues :: "(string \<times> cstr \<times> cstr) list \<Rightarrow> 'w \<Rightarrow> int \<times> 'w"
  x_getObject :: "string \<Rightarrow> cstr \<Rightarrow> 'w \<Rightarrow> (int \<times> (string \<times> cstr) list) \<times> 'w"
  x_getNames :: "string \<Rightarrow> cstr \<Rightarrow> 'w \<Rightarrow> (int \<times> string list option) \<times> 'w"
  x_addObject :: "string \<Rightarrow> 'w \<Rightarrow> (int \<times> 32 word) \<times> 'w"
  x_deleteObject :: "string \<Rightarrow> 32 word \<Rightarrow> 'w \<Rightarrow> int \<times> 'w"
  x_download :: "transfer \<Rightarrow> 'w \<Rightarrow> int \<times> 'w"
  x_upload :: "transfer \<Rightarrow> 'w \<Rightarrow> int \<times> 'w"
  x_reboot :: "bool \<Rightarrow> 'w \<Rightarrow> 'w"
  x_openSession :: "'w \<Rightarrow> 'w"
  x_closeSession :: "'w \<Rightarrow> 'w"
  x_processConfig :: "string option \<Rightarrow> 'w \<Rightarrow> int \<times> 'w"
  x_inform :: "nat \<Rightarrow> inform_msg \<Rightarrow> 'w \<Rightarrow> int \<times> 'w"
  x_transferComplete :: "nat \<Rightarrow> transfer \<Rightarrow> 'w \<Rightarrow> int \<times> 'w"
  x_requestDownload :: "nat \<Rightarrow> download \<Rightarrow> 'w \<Rightarrow> int \<times> 'w"
  x_updateAcs :: "cstr \<Rightarrow> cstr \<Rightarrow> cstr \<Rightarrow> 'w \<Rightarrow> 'w"

text \<open>The initial values of the static variables.\<close>

definition store_init :: store where
  "store_init = \<lparr> parameters = [], nbParameters = 0, dataChanged = False \<rparr>"

definition data_init :: data where
  "data_init = \<lparr> d_store = store_init, d_ctrl = ctrl_init, lastModifData = 0, lastModifCtrl = 0, iniFile = None,
     objFile = None, backupObjFile = None, ctrlFile = None, lockFile = False, now = 0 \<rparr>"

definition mgr_init :: mgr where
  "mgr_init = \<lparr> m_periodicInformChanged = False, m_acsParametersToUpdate = False, m_diagnosticsRequested = [],
     m_pendingChanges = [], m_inSession = False, m_open = False \<rparr>"

definition sched_init :: sched where
  "sched_init = \<lparr> s_lastStatus = DS_DOWN, s_sendMessageStatus = NS_COMPLETED, s_transferIdSending = 0,
     s_requestDownloadSending = False, s_alive = False, s_nextInformTime = 0, s_pendingEvents = [], s_retryOn = False,
     s_retryDelay = 0, s_signalled = False, s_threads = 0 \<rparr>"

definition notif_init :: notif where
  "notif_init = \<lparr> n_mandatoryParameterList = None, n_acs = None, n_selfcare = None, n_updateAcs = False \<rparr>"

definition engine_init :: "'w \<Rightarrow> 'w engine" where
  "engine_init w = \<lparr> e_data = data_init, e_mgr = mgr_init, e_sched = sched_init, e_notif = notif_init,
     e_entities = DM_ENG_DEFAULT_ENTITIES, e_cursor = None, e_current = None,
     e_world = w, e_calls = [], e_fault = None \<rparr>"

section \<open>Computations on the state\<close>

type_synonym ('w, 'a) m = "('w engine, 'a) state"

abbreviation ret :: "'a \<Rightarrow> ('s, 'a) state" where
  "ret \<equiv> State_Monad.return"

abbreviation update :: "('s \<Rightarrow> 's) \<Rightarrow> ('s, unit) state" where
  "update \<equiv> State_Monad.update"

definition gets :: "('s \<Rightarrow> 'a) \<Rightarrow> ('s, 'a) state" where
  "gets f = State (\<lambda>s. (f s, s))"

definition fail :: "fault \<Rightarrow> ('w, unit) m" where
  "fail f = update (\<lambda>e. e\<lparr> e_fault := Some f \<rparr>)"

definition outside :: "('w \<Rightarrow> 'a \<times> 'w) \<Rightarrow> ('w, 'a) m" where
  "outside f = State (\<lambda>e. let (x, w) = f (e_world e) in (x, e\<lparr> e_world := w \<rparr>))"

definition emit :: "call \<Rightarrow> ('w, unit) m" where
  "emit c = update (\<lambda>e. e\<lparr> e_calls := e_calls e @ [c] \<rparr>)"

definition on_data :: "(data \<Rightarrow> ub + 'a \<times> data) \<Rightarrow> 'a \<Rightarrow> ('w, 'a) m" where
  "on_data f dflt = State (\<lambda>e. case f (e_data e) of
      Inl u \<Rightarrow> (dflt, e\<lparr> e_fault := Some (UB u) \<rparr>)
    | Inr (x, d) \<Rightarrow> (x, e\<lparr> e_data := d \<rparr>))"

definition on_ctrl :: "(ctrl \<Rightarrow> ctrl) \<Rightarrow> ('w, unit) m" where
  "on_ctrl f = update (\<lambda>e. e\<lparr> e_data := (e_data e)\<lparr> d_ctrl := f (d_ctrl (e_data e)) \<rparr> \<rparr>)"

definition on_ctrl_ub :: "(ctrl \<Rightarrow> ub + ctrl) \<Rightarrow> ('w, unit) m" where
  "on_ctrl_ub f = on_data (\<lambda>d. map_sum id (\<lambda>c. ((), d\<lparr> d_ctrl := c \<rparr>)) (f (d_ctrl d))) ()"

definition on_store :: "(store \<Rightarrow> store) \<Rightarrow> ('w, unit) m" where
  "on_store f = update (\<lambda>e. e\<lparr> e_data := (e_data e)\<lparr> d_store := f (d_store (e_data e)) \<rparr> \<rparr>)"

definition on_store_ub :: "(store \<Rightarrow> ub + store) \<Rightarrow> ('w, unit) m" where
  "on_store_ub f = on_data (\<lambda>d. map_sum id (\<lambda>c. ((), d\<lparr> d_store := c \<rparr>)) (f (d_store d))) ()"

definition on_mgr :: "(mgr \<Rightarrow> mgr) \<Rightarrow> ('w, unit) m" where
  "on_mgr f = update (\<lambda>e. e\<lparr> e_mgr := f (e_mgr e) \<rparr>)"

definition on_sched :: "(sched \<Rightarrow> sched) \<Rightarrow> ('w, unit) m" where
  "on_sched f = update (\<lambda>e. e\<lparr> e_sched := f (e_sched e) \<rparr>)"

abbreviation ctrl_of :: "'w engine \<Rightarrow> ctrl" where
  "ctrl_of e \<equiv> d_ctrl (e_data e)"

abbreviation store_of :: "'w engine \<Rightarrow> store" where
  "store_of e \<equiv> d_store (e_data e)"

abbreviation time_of :: "'w engine \<Rightarrow> int" where
  "time_of e \<equiv> now (e_data e)"

abbreviation time_now :: "('w, int) m" where
  "time_now \<equiv> gets time_of"

lemmas monad_defs = gets_def fail_def outside_def emit_def on_data_def on_ctrl_def on_ctrl_ub_def on_store_def
  on_store_ub_def on_mgr_def on_sched_def State_Monad.update_def State_Monad.get_def State_Monad.set_def
  State_Monad.bind_def State_Monad.return_def

lemma run_gets [simp]: "run_state (gets f) s = (f s, s)"
  by (simp add: gets_def)

lemma run_update [simp]: "run_state (update f) s = ((), f s)"
  by (simp add: State_Monad.update_def)

lemma run_on_mgr [simp]: "run_state (on_mgr f) e = ((), e\<lparr> e_mgr := f (e_mgr e) \<rparr>)"
  by (simp add: on_mgr_def)

lemma run_on_sched [simp]: "run_state (on_sched f) e = ((), e\<lparr> e_sched := f (e_sched e) \<rparr>)"
  by (simp add: on_sched_def)

lemma run_on_ctrl [simp]:
  "run_state (on_ctrl f) e = ((), e\<lparr> e_data := (e_data e)\<lparr> d_ctrl := f (ctrl_of e) \<rparr> \<rparr>)"
  by (simp add: on_ctrl_def)

lemma run_on_store [simp]:
  "run_state (on_store f) e = ((), e\<lparr> e_data := (e_data e)\<lparr> d_store := f (store_of e) \<rparr> \<rparr>)"
  by (simp add: on_store_def)

lemma run_fail [simp]: "run_state (fail f) e = ((), e\<lparr> e_fault := Some f \<rparr>)"
  by (simp add: fail_def)

lemma run_emit [simp]: "run_state (emit c) e = ((), e\<lparr> e_calls := e_calls e @ [c] \<rparr>)"
  by (simp add: emit_def)

lemma run_outside [simp]:
  "run_state (outside f) e = (fst (f (e_world e)), e\<lparr> e_world := snd (f (e_world e)) \<rparr>)"
  by (simp add: outside_def case_prod_beta)

section \<open>Preservation\<close>

named_theorems keeps_intros \<open>preservation of a predicate by the constructs of the monad\<close>

definition keeps :: "('s \<Rightarrow> bool) \<Rightarrow> ('s, 'a) state \<Rightarrow> bool" where
  "keeps I m \<longleftrightarrow> (\<forall>s. I s \<longrightarrow> I (snd (run_state m s)))"

lemma keepsD: "keeps I m \<Longrightarrow> I s \<Longrightarrow> I (snd (run_state m s))"
  by (simp add: keeps_def)

lemma keeps_ret [keeps_intros, intro!, simp]: "keeps I (ret x)"
  by (simp add: keeps_def)

lemma keeps_gets [keeps_intros, intro!, simp]: "keeps I (gets f)"
  by (simp add: keeps_def)

lemma keeps_bind [keeps_intros, intro]: "keeps I m \<Longrightarrow> (\<And>x. keeps I (f x)) \<Longrightarrow> keeps I (m \<bind> f)"
  by (simp add: keeps_def case_prod_beta)

lemma keeps_update [keeps_intros]: "(\<And>s. I s \<Longrightarrow> I (f s)) \<Longrightarrow> keeps I (update f)"
  by (simp add: keeps_def)

lemma keeps_if [keeps_intros]: "(c \<Longrightarrow> keeps I m) \<Longrightarrow> (\<not> c \<Longrightarrow> keeps I m') \<Longrightarrow> keeps I (if c then m else m')"
  by simp

lemma keeps_option [keeps_intros]:
  "keeps I m \<Longrightarrow> (\<And>x. keeps I (f x)) \<Longrightarrow> keeps I (case a of None \<Rightarrow> m | Some x \<Rightarrow> f x)"
  by (cases a) simp_all

lemma keeps_list [keeps_intros]:
  "keeps I m \<Longrightarrow> (\<And>x xs. keeps I (f x xs)) \<Longrightarrow> keeps I (case a of [] \<Rightarrow> m | x # xs \<Rightarrow> f x xs)"
  by (cases a) simp_all

lemma keeps_prod [keeps_intros]: "(\<And>x y. keeps I (f x y)) \<Longrightarrow> keeps I (case a of (x, y) \<Rightarrow> f x y)"
  by (cases a) simp

section \<open>Parameters\<close>

text \<open>
  A pointer to a parameter is its name: an operation through the pointer works on the first
  parameter of this name, and is undefined behaviour when there is none any more.
\<close>

definition lookup :: "string \<Rightarrow> ('w, param option) m" where
  "lookup n = gets (\<lambda>e. getParameter (store_of e) n)"

fun upd_name :: "string \<Rightarrow> (param \<Rightarrow> param) \<Rightarrow> param list \<Rightarrow> param list" where
  "upd_name n f [] = []"
| "upd_name n f (p # ps) = (if p_name p = n then f p # ps else p # upd_name n f ps)"

text \<open>The result of an operation on one parameter: its value, the parameter and \<open>_dataChanged\<close>.\<close>

definition on_param :: "string \<Rightarrow> (param \<Rightarrow> 'a \<times> param \<times> bool) \<Rightarrow> 'a \<Rightarrow> ('w, 'a) m" where
  "on_param n f dflt = do {
     p \<leftarrow> lookup n;
     case p of
       None \<Rightarrow> do { fail (UB NullDeref); ret dflt }
     | Some q \<Rightarrow> (case f q of (x, q', changed) \<Rightarrow> do {
         on_store (\<lambda>s. s\<lparr> parameters := upd_name n (\<lambda>_. q') (parameters s), dataChanged := dataChanged s \<or> changed \<rparr>);
         ret x }) }"

definition upd_param :: "string \<Rightarrow> (param \<Rightarrow> param \<times> bool) \<Rightarrow> ('w, unit) m" where
  "upd_param n f = on_param n (\<lambda>p. ((), f p)) ()"

lemma upd_name_id: "getParameter s n = Some p \<Longrightarrow> upd_name n (\<lambda>_. p) (parameters s) = parameters s"
proof -
  have "find (\<lambda>q. p_name q = n) ps = Some p \<Longrightarrow> upd_name n (\<lambda>_. p) ps = ps" for ps
    by (induction ps) (auto split: if_splits)
  then show "getParameter s n = Some p \<Longrightarrow> ?thesis" by (simp add: getParameter_def)
qed

lemma filter_upd_name:
  "find (\<lambda>q. p_name q = n) ps = Some p \<Longrightarrow>
   length (filter P (upd_name n (\<lambda>_. q) ps)) + of_bool (P p) = length (filter P ps) + of_bool (P q)"
  by (induction ps) (auto split: if_splits)

lemma find_upd_name:
  "p_name q = n \<Longrightarrow> find (\<lambda>q. p_name q = n) ps = Some p \<Longrightarrow>
   find (\<lambda>q. p_name q = m) (upd_name n (\<lambda>_. q) ps) = (if m = n then Some q else find (\<lambda>q. p_name q = m) ps)"
  by (induction ps) (auto split: if_splits)

lemma find_name: "getParameter s n = Some p \<Longrightarrow> p_name p = n"
  by (auto simp: getParameter_def find_Some_iff)

lemma run_on_param:
  "run_state (on_param n f dflt) e =
    (case getParameter (store_of e) n of
       None \<Rightarrow> (dflt, e\<lparr> e_fault := Some (UB NullDeref) \<rparr>)
     | Some q \<Rightarrow> (case f q of (v, q', ch) \<Rightarrow>
         (v, e\<lparr> e_data := (e_data e)\<lparr> d_store := (store_of e)\<lparr> parameters := upd_name n (\<lambda>_. q') (parameters (store_of e)),
            dataChanged := dataChanged (store_of e) \<or> ch \<rparr> \<rparr> \<rparr>)))"
  by (simp add: on_param_def lookup_def split: option.split prod.split)

lemma run_upd_param:
  "run_state (upd_param n f) e =
    (case getParameter (store_of e) n of
       None \<Rightarrow> ((), e\<lparr> e_fault := Some (UB NullDeref) \<rparr>)
     | Some q \<Rightarrow> (case f q of (q', ch) \<Rightarrow>
         ((), e\<lparr> e_data := (e_data e)\<lparr> d_store := (store_of e)\<lparr> parameters := upd_name n (\<lambda>_. q') (parameters (store_of e)),
            dataChanged := dataChanged (store_of e) \<or> ch \<rparr> \<rparr> \<rparr>)))"
  by (simp add: upd_param_def run_on_param split: option.split prod.split)

text \<open>A loop over all the parameters whose body touches only the current one.\<close>

definition each_param :: "(param \<Rightarrow> param \<times> bool) \<Rightarrow> ('w, unit) m" where
  "each_param f = update (\<lambda>e. e\<lparr> e_cursor := None, e_data := (e_data e)\<lparr> d_store := (store_of e)\<lparr>
      parameters := map (fst \<circ> f) (parameters (store_of e)),
      dataChanged := dataChanged (store_of e) \<or> (\<exists>p\<in>set (parameters (store_of e)). snd (f p)) \<rparr> \<rparr> \<rparr>)"

subsection \<open>The cursor\<close>

definition getFirst :: "('w, param option) m" where
  "getFirst = do {
     ps \<leftarrow> gets (\<lambda>e. parameters (store_of e));
     case ps of
       [] \<Rightarrow> do { update (\<lambda>e. e\<lparr> e_cursor := None \<rparr>); ret None }
     | p # _ \<Rightarrow> do { update (\<lambda>e. e\<lparr> e_cursor := Some (p_name p) \<rparr>); ret (Some p) } }"

fun next_after :: "string \<Rightarrow> param list \<Rightarrow> param option option" where
  "next_after n [] = None"
| "next_after n (p # ps) =
     (if p_name p = n then Some (case ps of [] \<Rightarrow> None | q # _ \<Rightarrow> Some q) else next_after n ps)"

text \<open>The cursor on a parameter that was freed is undefined behaviour.\<close>

definition getNext :: "('w, param option) m" where
  "getNext = do {
     c \<leftarrow> gets e_cursor;
     case c of
       None \<Rightarrow> ret None
     | Some n \<Rightarrow> do {
         q \<leftarrow> gets (\<lambda>e. next_after n (parameters (store_of e)));
         case q of
           None \<Rightarrow> do { fail (UB NullDeref); ret None }
         | Some r \<Rightarrow> do { update (\<lambda>e. e\<lparr> e_cursor := map_option p_name r \<rparr>); ret r } } }"

definition getCurrent :: "('w, param option) m" where
  "getCurrent = do {
     c \<leftarrow> gets e_cursor;
     case c of None \<Rightarrow> ret None | Some n \<Rightarrow> lookup n }"

definition resumeParameterLoopFrom :: "string \<Rightarrow> ('w, unit) m" where
  "resumeParameterLoopFrom n = do {
     c \<leftarrow> gets e_cursor;
     p \<leftarrow> getCurrent;
     if c \<noteq> None \<and> p = None then fail (UB NullDeref)
     else update (\<lambda>e. e\<lparr> e_cursor := map_option p_name (getParameter (store_of e) n) \<rparr>) }"

text \<open>
  The loop of the code with the local variables of its body; the body tells whether it leaves the
  loop.
\<close>

fun loop_from :: "nat \<Rightarrow> param option \<Rightarrow> 'l \<Rightarrow> (param \<Rightarrow> 'l \<Rightarrow> ('w, bool \<times> 'l) m) \<Rightarrow> ('w, 'l) m" where
  "loop_from k None l body = ret l"
| "loop_from 0 (Some p) l body = do { fail OutOfFuel; ret l }"
| "loop_from (Suc k) (Some p) l body = do {
     (leave, l') \<leftarrow> body p l;
     if leave then ret l' else do { q \<leftarrow> getNext; loop_from k q l' body } }"

definition for_params :: "'w env \<Rightarrow> 'l \<Rightarrow> (param \<Rightarrow> 'l \<Rightarrow> ('w, bool \<times> 'l) m) \<Rightarrow> ('w, 'l) m" where
  "for_params x l body = do { p \<leftarrow> getFirst; loop_from (x_fuel x) p l body }"

section \<open>The data file\<close>

definition sync :: "('w, unit) m" where
  "sync = on_data (\<lambda>d. map_sum id (Pair ()) (ParameterData_sync d)) ()"

section \<open>An environment for the examples\<close>

definition demo_env :: "unit env" where
  "demo_env = \<lparr> x_tz = 0, x_fuel = 10, x_getValue = \<lambda>_ _ w. ((0, Null), w), x_setValues = \<lambda>_ w. (0, w),
     x_getObject = \<lambda>_ _ w. ((0, []), w), x_getNames = \<lambda>_ _ w. ((0, None), w), x_addObject = \<lambda>_ w. ((0, 1), w),
     x_deleteObject = \<lambda>_ _ w. (0, w), x_download = \<lambda>_ w. (0, w), x_upload = \<lambda>_ w. (0, w), x_reboot = \<lambda>_ w. w,
     x_openSession = \<lambda>w. w, x_closeSession = \<lambda>w. w, x_processConfig = \<lambda>_ w. (0, w), x_inform = \<lambda>_ _ w. (0, w),
     x_transferComplete = \<lambda>_ _ w. (0, w), x_requestDownload = \<lambda>_ _ w. (0, w), x_updateAcs = \<lambda>_ _ _ w. w \<rparr>"

end
