(* ===== verification/Load.thy ===== *)
theory Load
  imports Engine
begin

text \<open>
  \<open>dm_engine/src/DM_ENG_ParameterManager.c\<close>, the loading of the values: \<open>_getValue\<close>, the computed
  parameters, the parameters of the system, obtained from the device one by one or by object, and
  the instances that are created or deleted on the way.

  These functions call each other in circles: the value of a computed parameter is an expression
  over other parameters.  Each function of the code that is on such a circle is a definition over
  the two functions that close it, \<open>gv\<close> for \<open>_getValue\<close> and \<open>leaf\<close> for
  \<open>DM_ENG_ParameterManager_loadLeafParameterValue\<close>; \<open>getValue\<close> and \<open>loadLeaf\<close> tie the knot with a
  fuel that decreases at each of their calls.  \<open>notify\<close> carries out the calls into the inform
  scheduler of a parameter that changes; loading alone never changes the data model that way.
\<close>

section \<open>Instances\<close>

text \<open>The definition of a computed parameter of a new instance names its own instance.\<close>

definition relocate_definition :: "string \<Rightarrow> string \<Rightarrow> string \<Rightarrow> string option" where
  "relocate_definition shortObj inst def =
     (case def of
        CHR ''#'' # d \<Rightarrow>
          if prefixb shortObj d \<and> length shortObj < length d \<and> d ! length shortObj = CHR ''.''
          then Some (CHR ''#'' # inst @ drop (length shortObj + 1) d) else None
      | _ \<Rightarrow>
          if prefixb shortObj def \<and> length shortObj < length def \<and> def ! length shortObj = CHR ''.''
          then Some (inst @ drop (length shortObj + 1) def) else None)"

definition relocateInstances :: "string \<Rightarrow> 32 word \<Rightarrow> ('w, unit) m" where
  "relocateInstances objName n =
     (let shortObj = drop (length PREFIX) objName;
          inst = shortObj @ dec (unat n) @ ''.''
      in each_param (\<lambda>p.
        if prefixb inst (drop (length PREFIX) (p_name p)) \<and> p_storageMode p = COMPUTED \<and> p_definition p \<noteq> Null
        then (case relocate_definition shortObj inst (ctext (p_definition p)) of
                None \<Rightarrow> (p, False)
              | Some d \<Rightarrow> (p\<lparr> p_definition := Str d \<rparr>, True))
        else (p, False)))"

text \<open>The last position from \<open>k\<close> down where the test fails, or 0.\<close>

fun scan_back :: "(char \<Rightarrow> bool) \<Rightarrow> string \<Rightarrow> nat \<Rightarrow> nat" where
  "scan_back P s 0 = 0"
| "scan_back P s (Suc k) = (if P (s ! Suc k) then scan_back P s k else Suc k)"

lemma scan_back_le: "scan_back P s k \<le> k"
  by (induction k) auto

text \<open>
  The prototype of a missing parameter: the instance numbers are removed from the right to the
  left, until a name is known.  The result is the object to instantiate and the number.
\<close>

function find_proto :: "(string \<Rightarrow> bool) \<Rightarrow> string \<Rightarrow> nat \<Rightarrow> (string \<times> 32 word) option" where
  "find_proto known proto k0 =
     (let k = scan_back (\<lambda>c. c \<noteq> CHR ''.'') proto k0
      in if k \<le> 1 then None
      else let i = scan_back isdigit proto (k - 1)
      in if i = 0 then None
      else if proto ! i \<noteq> CHR ''.'' then find_proto known proto (i - 1)
      else if k - i = 1 then None
      else case DM_ENG_stringToUint (Str (take (k - 1 - i) (drop (Suc i) proto))) of
        None \<Rightarrow> None
      | Some n \<Rightarrow>
          let proto' = (if Suc k = length proto then take (Suc i) proto else take (Suc i) proto @ drop k proto)
          in if known proto' then Some (take (Suc i) proto', n) else find_proto known proto' (i - 1))"
  by pat_completeness auto
termination
proof (relation "measure (\<lambda>(_, _, k). k)", goal_cases)
  case (2 known proto k0 k i)
  then show ?case using scan_back_le [of isdigit proto "k - 1"] scan_back_le [of "\<lambda>c. c \<noteq> CHR ''.''" proto k0] by auto
next
  case (3 known proto k0 k i n proto')
  then show ?case using scan_back_le [of isdigit proto "k - 1"] scan_back_le [of "\<lambda>c. c \<noteq> CHR ''.''" proto k0] by auto
qed simp

declare find_proto.simps [simp del]

fun getParameter_iter :: "nat \<Rightarrow> string \<Rightarrow> ('w, param option) m" where
  "getParameter_iter 0 name = ret None"
| "getParameter_iter (Suc k) name = do {
     p \<leftarrow> lookup name;
     case p of
       Some q \<Rightarrow> ret (Some q)
     | None \<Rightarrow> do {
         pr \<leftarrow> gets (\<lambda>e. find_proto (\<lambda>n. getParameter (store_of e) n \<noteq> None) name (length name - 1));
         case pr of
           None \<Rightarrow> ret None
         | Some (obj, n) \<Rightarrow> do {
             o1 \<leftarrow> lookup obj;
             case o1 of
               None \<Rightarrow> ret None
             | Some param \<Rightarrow> do {
                 on_store_ub (createInstance param n);
                 relocateInstances obj n;
                 getParameter_iter k name } } } }"

definition getParameter_inst :: "string \<Rightarrow> ('w, param option) m" where
  "getParameter_inst name = getParameter_iter 5 name"

text \<open>
  Three functions walk through the parameters, apply \<open>f\<close> to the current one and stop at a first one to
  delete, with the parameters whose names it begins; then they start again.
\<close>

definition pass_until :: "(param \<Rightarrow> param \<times> bool) \<Rightarrow> (param \<Rightarrow> bool) \<Rightarrow> store \<Rightarrow> store" where
  "pass_until f obs s =
     (let before = takeWhile (\<lambda>p. \<not> obs p) (parameters s)
      in s\<lparr> parameters := map (fst \<circ> f) before @ drop (length before) (parameters s),
            dataChanged := dataChanged s \<or> (\<exists>p\<in>set before. snd (f p)) \<rparr>)"

lemma length_pass_until [simp]: "length (parameters (pass_until f obs s)) = length (parameters s)"
  using length_takeWhile_le [of "\<lambda>p. \<not> obs p" "parameters s"] by (simp add: pass_until_def Let_def)

function prune :: "(param \<Rightarrow> param \<times> bool) \<Rightarrow> (param \<Rightarrow> bool) \<Rightarrow> store \<Rightarrow> store" where
  "prune f obs s =
     (let s' = pass_until f obs s
      in case find obs (parameters s') of
           None \<Rightarrow> s'
         | Some p \<Rightarrow> prune f obs (deleteObject (p_name p) s'))"
  by pat_completeness auto
termination
proof (relation "measure (\<lambda>(_, _, s). length (parameters s))", goal_cases)
  case (2 f obs s s' p)
  then have "p \<in> set (parameters s')" by (auto simp: find_Some_iff)
  then have "length (filter (\<lambda>q. \<not> prefixb (p_name p) (p_name q)) (parameters s')) < length (parameters s')"
    using prefixb_append [of "p_name p" "[]"] by (auto intro: length_filter_less)
  then show ?case using 2 by (simp add: deleteObject_parameters)
qed simp

declare prune.simps [simp del]

text \<open>
  The nodes below \<open>name\<close> that are in the list are marked loaded; instances that are not are deleted.
\<close>

definition below_node :: "string \<Rightarrow> param \<Rightarrow> bool" where
  "below_node name p \<longleftrightarrow> length (p_name p) > length name \<and> prefixb name (p_name p) \<and>
     DM_ENG_Parameter_isNode (p_name p) \<and> \<not> strstrb (p_name p) ''..''"

definition referenced :: "string list \<Rightarrow> param \<Rightarrow> bool" where
  "referenced names p \<longleftrightarrow> (\<exists>n\<in>set names. prefixb (p_name p) n)"

definition obsolete :: "string \<Rightarrow> string list \<Rightarrow> param \<Rightarrow> bool" where
  "obsolete name names p \<longleftrightarrow> below_node name p \<and> \<not> referenced names p \<and> DM_ENG_Parameter_isNodeInstance (p_name p)"

definition markInstancesLoaded_store :: "string \<Rightarrow> string list \<Rightarrow> bool \<Rightarrow> store \<Rightarrow> store" where
  "markInstancesLoaded_store name names withValues =
     prune (\<lambda>p. if below_node name p \<and> referenced names p then DM_ENG_Parameter_markLoaded p withValues else (p, False))
       (obsolete name names)"

definition markInstancesLoaded :: "string \<Rightarrow> string list \<Rightarrow> bool \<Rightarrow> ('w, unit) m" where
  "markInstancesLoaded name names withValues = do {
     on_store (markInstancesLoaded_store name names withValues);
     update (\<lambda>e. e\<lparr> e_cursor := None \<rparr>) }"

section \<open>Values from outside\<close>

type_synonym 'w notifier = "sched_call \<Rightarrow> ('w, unit) m"
type_synonym 'w getval = "string \<Rightarrow> cstr \<Rightarrow> ('w, cstr) m"
type_synonym 'w leafload = "string \<Rightarrow> bool \<Rightarrow> ('w, int) m"

fun notify_all :: "'w notifier \<Rightarrow> sched_call list \<Rightarrow> ('w, unit) m" where
  "notify_all notify [] = ret ()"
| "notify_all notify (c # cs) = do { notify c; notify_all notify cs }"

definition no_notify :: "'w notifier" where
  "no_notify = (\<lambda>_. ret ())"

definition updateValue :: "'w notifier \<Rightarrow> string \<Rightarrow> cstr \<Rightarrow> bool \<Rightarrow> ('w, unit) m" where
  "updateValue notify n val newValue = do {
     calls \<leftarrow> on_param n (\<lambda>p. case DM_ENG_Parameter_updateValue p val newValue of (p', cs) \<Rightarrow> (cs, p', True)) [];
     notify_all notify calls }"

text \<open>NULL from the system is the empty string.\<close>

definition updateSystemValue :: "'w notifier \<Rightarrow> string \<Rightarrow> cstr \<Rightarrow> bool \<Rightarrow> ('w, unit) m" where
  "updateSystemValue notify n val newValue = updateValue notify n (if val = Null then Empty else val) newValue"

definition opt_cstr :: "string option \<Rightarrow> cstr" where
  "opt_cstr s = (case s of None \<Rightarrow> Null | Some t \<Rightarrow> Str t)"

text \<open>The evaluation of a definition, relative names being those of \<open>dest\<close>: success and string.\<close>

definition evalDefinition :: "'w env \<Rightarrow> 'w getval \<Rightarrow> cstr \<Rightarrow> string \<Rightarrow> ('w, bool \<times> cstr) m" where
  "evalDefinition x gv def dest = do {
     t \<leftarrow> time_now;
     case DM_ENG_ComputedExp_eval (x_tz x) t (ctext def) (\<lambda>n. gv n (Str dest)) of
       None \<Rightarrow> do { fail (UB NullDeref); ret (False, Null) }
     | Some m \<Rightarrow> do { (res, s) \<leftarrow> m; ret (res, opt_cstr s) } }"

definition systemData :: "'w env \<Rightarrow> 'w getval \<Rightarrow> param \<Rightarrow> ('w, cstr) m" where
  "systemData x gv p =
     (if p_definition p = Null \<or> ctext (p_definition p) = [] then ret Null
      else do { (_, d) \<leftarrow> evalDefinition x gv (p_definition p) (p_name p); ret d })"

definition loadSystemParameter_value :: "'w env \<Rightarrow> 'w getval \<Rightarrow> string \<Rightarrow> ('w, int \<times> cstr) m" where
  "loadSystemParameter_value x gv n = do {
     po \<leftarrow> lookup n;
     case po of
       None \<Rightarrow> do { fail (UB NullDeref); ret (0, Null) }
     | Some p \<Rightarrow>
         if (p_storageMode p = SYSTEM_ONLY \<or> p_storageMode p = MIXED) \<and> p_value p = Null
         then do {
           d \<leftarrow> systemData x gv p;
           (res, val) \<leftarrow> outside (x_getValue x n d);
           (if res = 0 then updateSystemValue no_notify n val False else ret ());
           ret (res, d) }
         else ret (0, Null) }"

definition isLoaded :: "string \<Rightarrow> bool \<Rightarrow> ('w, bool) m" where
  "isLoaded n withValues = on_param n (\<lambda>p. DM_ENG_Parameter_isLoaded p withValues) False"

definition markLoaded :: "string \<Rightarrow> bool \<Rightarrow> ('w, unit) m" where
  "markLoaded n withValues = upd_param n (\<lambda>p. DM_ENG_Parameter_markLoaded p withValues)"

section \<open>Objects\<close>

text \<open>Names given by the device are relative to the object.\<close>

definition convertNamesToLong :: "string \<Rightarrow> (string \<times> 'a) list \<Rightarrow> (string \<times> 'a) list" where
  "convertNamesToLong objName l = map (\<lambda>(n, v). (DM_ENG_Parameter_getLongName n (Str objName), v)) l"

fun updateObject_loop :: "'w notifier \<Rightarrow> (string \<times> cstr) list \<Rightarrow> bool \<Rightarrow> ('w, unit) m" where
  "updateObject_loop notify [] pushed = ret ()"
| "updateObject_loop notify ((n, v) # l) pushed = do {
     p \<leftarrow> getParameter_inst n;
     (case p of None \<Rightarrow> ret () | Some q \<Rightarrow> updateSystemValue notify n v pushed);
     updateObject_loop notify l pushed }"

definition updateObject :: "'w notifier \<Rightarrow> string \<Rightarrow> (string \<times> cstr) list \<Rightarrow> bool \<Rightarrow> ('w, unit) m" where
  "updateObject notify objName l pushed = do {
     updateObject_loop notify l pushed;
     markInstancesLoaded objName (map fst l) True }"

fun mark_names :: "string list \<Rightarrow> ('w, unit) m" where
  "mark_names [] = ret ()"
| "mark_names (n # ns) = do {
     p \<leftarrow> getParameter_inst n;
     (case p of None \<Rightarrow> ret () | Some q \<Rightarrow> markLoaded n False);
     mark_names ns }"

definition loadNames :: "'w env \<Rightarrow> string \<Rightarrow> cstr \<Rightarrow> ('w, int) m" where
  "loadNames x n d = do {
     (res, names) \<leftarrow> outside (x_getNames x n d);
     (case (res = 0, names) of
        (True, Some ns) \<Rightarrow> do {
          let ls = map (\<lambda>m. DM_ENG_Parameter_getLongName m (Str n)) ns;
          mark_names ls;
          markInstancesLoaded n ls False }
      | _ \<Rightarrow> ret ());
     ret res }"

definition loadFinal :: "'w env \<Rightarrow> 'w getval \<Rightarrow> 'w leafload \<Rightarrow> string \<Rightarrow> bool \<Rightarrow> ('w, int) m" where
  "loadFinal x gv leaf n withValues = do {
     loaded \<leftarrow> isLoaded n withValues;
     po \<leftarrow> lookup n;
     case po of
       None \<Rightarrow> ret 0
     | Some p \<Rightarrow>
       if loaded \<or> strstrb n ''..'' then ret 0
       else do {
         res \<leftarrow> (if withValues then
              (if DM_ENG_Parameter_isNode n then do {
                 d \<leftarrow> systemData x gv p;
                 (r, l) \<leftarrow> outside (x_getObject x n d);
                 (if r = 0 then updateObject no_notify n (convertNamesToLong n l) False else ret ());
                 ret r }
               else leaf n False)
            else if DM_ENG_Parameter_isNode n \<and> odd (p_loadingMode p div 2) then do {
                 d \<leftarrow> systemData x gv p;
                 loadNames x n d }
            else ret 1);
         if res = 0 \<or> res = 1 then do {
           q \<leftarrow> lookup n;
           case q of
             Some _ \<Rightarrow> do { markLoaded n withValues; ret 0 }
           | None \<Rightarrow> ret DM_ENG_INTERNAL_ERROR }
         else ret res } }"

section \<open>Groups of parameters\<close>

definition MAX_SYSTEM_ENTRY :: nat where "MAX_SYSTEM_ENTRY = 500"

text \<open>
  One pass of \<open>_loadSubParameters\<close> over the parameters below \<open>name\<close>: the values that the system gives
  one by one are loaded, the first group and the first computed parameter found are kept for the
  end of the pass.  The local variables are the result and the two names.
\<close>

definition sub_pass_body ::
    "'w env \<Rightarrow> 'w getval \<Rightarrow> string \<Rightarrow> bool \<Rightarrow> param \<Rightarrow> int \<times> string option \<times> string option
      \<Rightarrow> ('w, bool \<times> int \<times> string option \<times> string option) m" where
  "sub_pass_body x gv name withValues p0 l =
     (case l of (res, found, computed) \<Rightarrow>
       let n = p_name p0 in
       if (name = [] \<or> (length n > length name \<and> prefixb name n)) \<and> \<not> strstrb n ''..'' \<and>
          (case found of None \<Rightarrow> True | Some f \<Rightarrow> length n < length f \<and> prefixb n f)
       then do {
         po \<leftarrow> getCurrent;
         case po of
           None \<Rightarrow> do { fail (UB NullDeref); ret (False, l) }
         | Some p \<Rightarrow>
             if odd (p_loadingMode p) \<or> \<not> DM_ENG_Parameter_isNode n then do {
               loaded \<leftarrow> isLoaded n withValues;
               if loaded then ret (False, l)
               else if \<not> odd (p_loadingMode p) \<and> p_storageMode p \<noteq> COMPUTED then do {
                 (r, _) \<leftarrow> loadSystemParameter_value x gv n;
                 if r \<noteq> 0 then ret (True, r, None, computed) else ret (False, r, found, computed) }
               else if found = None \<and> computed = None \<and> p_storageMode p = COMPUTED
               then ret (False, res, found, Some n)
               else ret (False, res, Some n, computed) }
             else ret (False, l) }
       else ret (False, l))"

fun sub_loop :: "nat \<Rightarrow> 'w env \<Rightarrow> 'w getval \<Rightarrow> 'w leafload \<Rightarrow> string \<Rightarrow> bool \<Rightarrow> int \<Rightarrow> ('w, int) m" where
  "sub_loop k x gv leaf name withValues res0 = do {
     (res, found0, computed) \<leftarrow> for_params x (res0, None, None) (sub_pass_body x gv name withValues);
     let found = (case found0 of None \<Rightarrow> computed | Some f \<Rightarrow> Some f);
     res' \<leftarrow> (case found of None \<Rightarrow> ret res | Some f \<Rightarrow> loadFinal x gv leaf f withValues);
     (case k of
        0 \<Rightarrow> ret DM_ENG_INTERNAL_ERROR
      | Suc k' \<Rightarrow> if res' = 0 \<and> found \<noteq> None then sub_loop k' x gv leaf name withValues res' else ret res') }"

definition loadSubParameters :: "'w env \<Rightarrow> 'w getval \<Rightarrow> 'w leafload \<Rightarrow> param option \<Rightarrow> bool \<Rightarrow> ('w, int) m" where
  "loadSubParameters x gv leaf po withValues =
     (case po of
        None \<Rightarrow> sub_loop (MAX_SYSTEM_ENTRY + 1) x gv leaf [] withValues 0
      | Some p \<Rightarrow>
          if DM_ENG_Parameter_isNode (p_name p) then
            (if odd (p_loadingMode p) then loadFinal x gv leaf (p_name p) withValues
             else do { markLoaded (p_name p) withValues;
                       sub_loop (MAX_SYSTEM_ENTRY + 1) x gv leaf (p_name p) withValues 0 })
          else if withValues then leaf (p_name p) False
          else ret 0)"

text \<open>
  The loop of \<open>DM_ENG_ParameterManager_loadSystemParameter\<close> climbs to the outermost object of the
  group: \<open>parent_name\<close> cuts a name after the dot before its last component; doubled dots are skipped.
\<close>

fun dot_back :: "string \<Rightarrow> nat \<Rightarrow> nat" where
  "dot_back s 0 = 0"
| "dot_back s (Suc k) = (if k > 0 \<and> (s ! k \<noteq> CHR ''.'' \<or> s ! (k - 1) = CHR ''.'') then dot_back s k else k)"

lemma dot_back_le: "dot_back s k \<le> k - 1"
  by (induction k) auto

definition parent_name :: "string \<Rightarrow> string option" where
  "parent_name n = (let k = dot_back n (length n - 1) in if k = 0 then None else Some (take (Suc k) n))"

lemma parent_name_shorter: "parent_name n = Some m \<Longrightarrow> length m < length n"
  using dot_back_le [of n "length n - 1"] by (auto simp: parent_name_def Let_def split: if_splits)

function group_root :: "(string \<Rightarrow> param option) \<Rightarrow> string \<Rightarrow> string" where
  "group_root known n =
     (case parent_name n of
        None \<Rightarrow> n
      | Some m \<Rightarrow> (case known m of
          Some p \<Rightarrow> if odd (p_loadingMode p) then group_root known m else n
        | None \<Rightarrow> n))"
  by pat_completeness auto
termination by (relation "measure (\<lambda>(_, n). length n)") (auto dest: parent_name_shorter)

declare group_root.simps [simp del]

definition loadSystemParameter :: "'w env \<Rightarrow> 'w getval \<Rightarrow> 'w leafload \<Rightarrow> string \<Rightarrow> bool \<Rightarrow> ('w, int) m" where
  "loadSystemParameter x gv leaf n withValues = do {
     loaded \<leftarrow> isLoaded n withValues;
     if loaded then ret 0
     else do {
       po \<leftarrow> lookup n;
       case po of
         None \<Rightarrow> ret 0
       | Some p \<Rightarrow>
           if odd (p_loadingMode p) then do {
             root \<leftarrow> gets (\<lambda>e. group_root (getParameter (store_of e)) n);
             loadFinal x gv leaf root withValues }
           else loadSubParameters x gv leaf (Some p) withValues } }"

text \<open>
  \<open>_computeProto\<close> removes the last instance number; the result is the position of the doubled dot,
  None for a negative one.  \<open>k\<close> is the position of the last dot seen with only digits after it, 0 for
  none; \<open>i\<close> is one more than the index of the code.
\<close>

fun computeProto_loop :: "string \<Rightarrow> nat \<Rightarrow> nat \<Rightarrow> (string \<times> nat) option" where
  "computeProto_loop name k 0 = None"
| "computeProto_loop name k (Suc i) =
     (if k = 0 then computeProto_loop name (if name ! i = CHR ''.'' then i else 0) i
      else if name ! i = CHR ''.'' then
        (if k - i = 1 then computeProto_loop name i i
         else Some (take (Suc i) name @ drop k name, i))
      else computeProto_loop name (if isdigit (name ! i) then k else 0) i)"

definition computeProto :: "string \<Rightarrow> (string \<times> nat) option" where
  "computeProto name = computeProto_loop name 0 (length name)"

lemma computeProto_loop_shorter:
  "computeProto_loop name k i = Some (m, j) \<Longrightarrow> k < length name \<Longrightarrow> i \<le> length name \<Longrightarrow> (k = 0 \<or> i \<le> k) \<Longrightarrow>
   length m < length name"
proof (induction name k i rule: computeProto_loop.induct)
  case (2 name k i)
  then have "name \<noteq> []" by auto
  with 2 show ?case by (auto split: if_splits)
qed simp

lemma computeProto_shorter: "computeProto n = Some (m, i) \<Longrightarrow> length m < length n"
  using computeProto_loop_shorter [of n 0 "length n" m i] by (cases n) (auto simp: computeProto_def)

text \<open>The nearest prototype of a name, with all its instance numbers or the last ones removed.\<close>

function nearest_proto :: "(string \<Rightarrow> bool) \<Rightarrow> string \<Rightarrow> string option" where
  "nearest_proto known n =
     (case computeProto n of
        None \<Rightarrow> None
      | Some (m, i) \<Rightarrow> if i = 0 then None
          else if known m then Some m else nearest_proto known m)"
  by pat_completeness auto
termination by (relation "measure (\<lambda>(_, n). length n)") (auto dest: computeProto_shorter)

declare nearest_proto.simps [simp del]

definition loadSystemParameters :: "'w env \<Rightarrow> 'w getval \<Rightarrow> 'w leafload \<Rightarrow> cstr \<Rightarrow> bool \<Rightarrow> ('w, int) m" where
  "loadSystemParameters x gv leaf name withValues =
     (if name = Null then ret DM_ENG_INVALID_PARAMETER_NAME
      else if ctext name = [] then loadSubParameters x gv leaf None withValues
      else do {
        po \<leftarrow> gets (\<lambda>e. let known = getParameter (store_of e) in
               case known (ctext name) of
                 Some p \<Rightarrow> Some p
               | None \<Rightarrow> (case nearest_proto (\<lambda>n. known n \<noteq> None) (ctext name) of
                            None \<Rightarrow> None | Some m \<Rightarrow> known m));
        case po of
          None \<Rightarrow> ret DM_ENG_INVALID_PARAMETER_NAME
        | Some p \<Rightarrow> loadSystemParameter x gv leaf (p_name p) withValues })"

section \<open>Computed parameters\<close>

definition direct_node :: "string \<Rightarrow> string \<Rightarrow> bool" where
  "direct_node obj n \<longleftrightarrow> prefixb obj n \<and>
     (let r = drop (length obj) n; c = takeWhile (\<lambda>c. c \<noteq> CHR ''.'') r
      in c \<noteq> [] \<and> r = c @ ''.'')"

definition computeNumberOfIntances :: "'w env \<Rightarrow> 'w getval \<Rightarrow> 'w leafload \<Rightarrow> string \<Rightarrow> ('w, string) m" where
  "computeNumberOfIntances x gv leaf objName = do {
     _ \<leftarrow> loadSystemParameters x gv leaf (Str objName) False;
     update (\<lambda>e. e\<lparr> e_cursor := None \<rparr>);
     gets (\<lambda>e. DM_ENG_intToString (int (length (filter (\<lambda>p. direct_node objName (p_name p)) (parameters (store_of e)))))) }"

definition is_count :: "cstr \<Rightarrow> bool" where
  "is_count def \<longleftrightarrow> (case ctext def of CHR ''#'' # _ \<Rightarrow> True | _ \<Rightarrow> False)"

text \<open>A parameter that is being evaluated is not evaluated again.\<close>

definition loadComputedParameter ::
    "'w env \<Rightarrow> 'w getval \<Rightarrow> 'w leafload \<Rightarrow> 'w notifier \<Rightarrow> string \<Rightarrow> bool \<Rightarrow> ('w, int) m" where
  "loadComputedParameter x gv leaf notify n checkChange = do {
     po \<leftarrow> lookup n;
     case po of
       None \<Rightarrow> do { fail (UB NullDeref); ret 0 }
     | Some p \<Rightarrow>
       if DM_ENG_Parameter_isBeingEvaluated p then ret DM_ENG_INTERNAL_ERROR
       else do {
         (bRes, val) \<leftarrow> (if p_definition p = Null then ret (True, Null)
            else do {
              upd_param n (\<lambda>p. (DM_ENG_Parameter_markBeingEvaluated p, True));
              r \<leftarrow> (if is_count (p_definition p)
                   then do { v \<leftarrow> computeNumberOfIntances x gv leaf
                                   (DM_ENG_Parameter_getLongName (tl (ctext (p_definition p))) (Str n));
                             ret (True, Str v) }
                   else evalDefinition x gv (p_definition p) n);
              upd_param n (\<lambda>p. (DM_ENG_Parameter_unmarkBeingEvaluated p, True));
              ret r });
         (if bRes \<and> val \<noteq> Null \<and> (p_value p = Null \<or> ctext val \<noteq> ctext (p_value p))
          then updateSystemValue notify n val checkChange else ret ());
         markLoaded n True;
         ret (if bRes then 0 else 1) } }"

definition getValue_step :: "'w env \<Rightarrow> 'w getval \<Rightarrow> 'w leafload \<Rightarrow> 'w getval" where
  "getValue_step x gv leaf prmName destName = do {
     let n = DM_ENG_Parameter_getLongName prmName destName;
     po \<leftarrow> lookup n;
     case po of
       None \<Rightarrow> ret Null
     | Some p \<Rightarrow> do {
         (if p_storageMode p = DM_ONLY \<and> DM_ENG_Parameter_isValuable n then
            (if p_type p = PT_BOOLEAN \<and> ctext (p_value p) = []
             then updateValue no_notify n (Str DM_ENG_FALSE_STRING) False else ret ())
          else if p_value p = Null then
            (if p_storageMode p = COMPUTED then do { _ \<leftarrow> loadComputedParameter x gv leaf no_notify n False; ret () }
             else do { _ \<leftarrow> loadSystemParameter x gv leaf n True; ret () })
          else ret ());
         q \<leftarrow> lookup n;
         ret (case q of None \<Rightarrow> Null | Some p' \<Rightarrow> p_value p') } }"

text \<open>\<open>DM_ENG_ParameterManager_loadLeafParameterValue\<close> without the check of changes.\<close>

definition loadLeaf_step :: "'w env \<Rightarrow> 'w getval \<Rightarrow> 'w leafload \<Rightarrow> 'w leafload" where
  "loadLeaf_step x gv leaf n checkChange = do {
     po \<leftarrow> lookup n;
     case po of
       None \<Rightarrow> do { fail (UB NullDeref); ret 0 }
     | Some p \<Rightarrow>
         if p_storageMode p = COMPUTED then do {
           loaded \<leftarrow> isLoaded n True;
           if loaded then ret 0 else loadComputedParameter x gv leaf no_notify n checkChange }
         else do { (res, _) \<leftarrow> loadSystemParameter_value x gv n; ret res } }"

fun
  getValue :: "nat \<Rightarrow> 'w env \<Rightarrow> 'w getval" and
  loadLeaf :: "nat \<Rightarrow> 'w env \<Rightarrow> 'w leafload" where
  "getValue 0 x prmName destName = do { fail OutOfFuel; ret Null }"
| "getValue (Suc k) x prmName destName = getValue_step x (getValue k x) (loadLeaf k x) prmName destName"
| "loadLeaf 0 x n c = do { fail OutOfFuel; ret 0 }"
| "loadLeaf (Suc k) x n c = loadLeaf_step x (getValue k x) (loadLeaf k x) n c"

end
