(* ===== verification/SchedIn.thy ===== *)
theory SchedIn
  imports Load
begin

text \<open>
  The entry points of \<open>dm_engine/src/DM_ENG_InformMessageScheduler.c\<close> that the rest of the engine
  calls: each one puts events in the queue of the pending events and signals the scheduler thread, or
  starts and stops it.  With them the next timeout of \<open>DM_ENG_ParameterManager.c\<close>, and the update of
  the parameters of the ACS of \<open>DM_ENG_NotificationInterface.c\<close>, which they use.

  An entry point holds the scheduler mutex from its first to its last statement: it is one step.
  A signal of the condition variable is remembered in \<open>s_signalled\<close> until the thread waits.
\<close>

section \<open>Names of the data model and events\<close>

definition DM_TR106_ACS_URL :: string where "DM_TR106_ACS_URL = PREFIX @ ''ManagementServer.URL''"
definition DM_TR106_ACS_USERNAME :: string where "DM_TR106_ACS_USERNAME = PREFIX @ ''ManagementServer.Username''"
definition DM_ENG_PARAMETER_KEY_NAME :: string where
  "DM_ENG_PARAMETER_KEY_NAME = PREFIX @ ''ManagementServer.ParameterKey''"
definition DM_ENG_PERIODIC_INFORM_ENABLE_NAME :: string where
  "DM_ENG_PERIODIC_INFORM_ENABLE_NAME = PREFIX @ ''ManagementServer.PeriodicInformEnable''"
definition DM_ENG_PERIODIC_INFORM_INTERVAL_NAME :: string where
  "DM_ENG_PERIODIC_INFORM_INTERVAL_NAME = PREFIX @ ''ManagementServer.PeriodicInformInterval''"
definition DM_ENG_PERIODIC_INFORM_TIME_NAME :: string where
  "DM_ENG_PERIODIC_INFORM_TIME_NAME = PREFIX @ ''ManagementServer.PeriodicInformTime''"
definition DM_ENG_DEVICE_MANUFACTURER_NAME :: string where
  "DM_ENG_DEVICE_MANUFACTURER_NAME = PREFIX @ ''DeviceInfo.Manufacturer''"
definition DM_ENG_DEVICE_MANUFACTURER_OUI_NAME :: string where
  "DM_ENG_DEVICE_MANUFACTURER_OUI_NAME = PREFIX @ ''DeviceInfo.ManufacturerOUI''"
definition DM_ENG_DEVICE_PRODUCT_CLASS_NAME :: string where
  "DM_ENG_DEVICE_PRODUCT_CLASS_NAME = PREFIX @ ''DeviceInfo.ProductClass''"
definition DM_ENG_DEVICE_SERIAL_NUMBER_NAME :: string where
  "DM_ENG_DEVICE_SERIAL_NUMBER_NAME = PREFIX @ ''DeviceInfo.SerialNumber''"

definition EV_BOOTSTRAP :: string where "EV_BOOTSTRAP = ''0 BOOTSTRAP''"
definition EV_BOOT :: string where "EV_BOOT = ''1 BOOT''"
definition EV_PERIODIC :: string where "EV_PERIODIC = ''2 PERIODIC''"
definition EV_SCHEDULED :: string where "EV_SCHEDULED = ''3 SCHEDULED''"
definition EV_VALUE_CHANGE :: string where "EV_VALUE_CHANGE = ''4 VALUE CHANGE''"
definition EV_CONNECTION_REQUEST :: string where "EV_CONNECTION_REQUEST = ''6 CONNECTION REQUEST''"
definition EV_TRANSFER_COMPLETE :: string where "EV_TRANSFER_COMPLETE = ''7 TRANSFER COMPLETE''"
definition EV_DIAGNOSTICS_COMPLETE :: string where "EV_DIAGNOSTICS_COMPLETE = ''8 DIAGNOSTICS COMPLETE''"
definition EV_REQUEST_DOWNLOAD :: string where "EV_REQUEST_DOWNLOAD = ''9 REQUEST DOWNLOAD''"
definition EV_AUTONOMOUS_TRANSFER_COMPLETE :: string where
  "EV_AUTONOMOUS_TRANSFER_COMPLETE = ''10 AUTONOMOUS TRANSFER COMPLETE''"
definition EV_M_REBOOT :: string where "EV_M_REBOOT = ''M Reboot''"
definition EV_M_SCHEDULE_INFORM :: string where "EV_M_SCHEDULE_INFORM = ''M ScheduleInform''"
definition EV_M_DOWNLOAD :: string where "EV_M_DOWNLOAD = ''M Download''"
definition EV_M_UPLOAD :: string where "EV_M_UPLOAD = ''M Upload''"

lemmas ev_names = EV_BOOTSTRAP_def EV_BOOT_def EV_PERIODIC_def EV_SCHEDULED_def EV_VALUE_CHANGE_def
  EV_CONNECTION_REQUEST_def EV_TRANSFER_COMPLETE_def EV_DIAGNOSTICS_COMPLETE_def EV_REQUEST_DOWNLOAD_def
  EV_AUTONOMOUS_TRANSFER_COMPLETE_def EV_M_REBOOT_def EV_M_SCHEDULE_INFORM_def EV_M_DOWNLOAD_def EV_M_UPLOAD_def

section \<open>Next timeout\<close>

definition NOT_YET_STARTED :: int where "NOT_YET_STARTED = 1"
definition IN_PROGRESS :: int where "IN_PROGRESS = 2"
definition TR_COMPLETED :: int where "TR_COMPLETED = 3"

text \<open>The time 0 is no time.\<close>

definition earlier :: "int \<Rightarrow> int \<Rightarrow> int" where
  "earlier t u = (if u \<noteq> 0 \<and> (t = 0 \<or> u < t) then u else t)"

definition getNextTimeout :: "ctrl \<Rightarrow> int" where
  "getNextTimeout c =
     earlier (earlier (periodicInformTime c) (getScheduledInformTime c))
       (case find (\<lambda>t. tr_state t = NOT_YET_STARTED) (transferRequests c) of
          None \<Rightarrow> 0 | Some t \<Rightarrow> tr_transferTime t)"

section \<open>Parameters of the ACS\<close>

abbreviation gv_of :: "'w env \<Rightarrow> 'w getval" where
  "gv_of x \<equiv> getValue (x_fuel x) x"

abbreviation leaf_of :: "'w env \<Rightarrow> 'w leafload" where
  "leaf_of x \<equiv> loadLeaf (x_fuel x) x"

definition getParameterValue :: "'w env \<Rightarrow> string \<Rightarrow> ('w, int \<times> cstr) m" where
  "getParameterValue x n = do {
     po \<leftarrow> lookup n;
     if po = None \<or> \<not> DM_ENG_Parameter_isValuable n then ret (DM_ENG_INVALID_PARAMETER_NAME, Null)
     else do {
       (res, _) \<leftarrow> loadSystemParameter_value x (gv_of x) n;
       if res = 0 then do { v \<leftarrow> on_param n DM_ENG_Parameter_getValue Null; ret (0, v) }
       else ret (res, Null) } }"

definition updateAcsParameters :: "'w env \<Rightarrow> ('w, unit) m" where
  "updateAcsParameters x = do {
     active \<leftarrow> gets (\<lambda>e. n_updateAcs (e_notif e));
     if active then do {
       (_, url) \<leftarrow> getParameterValue x DM_TR106_ACS_URL;
       (_, username) \<leftarrow> getParameterValue x DM_TR106_ACS_USERNAME;
       (_, password) \<leftarrow> getParameterValue x DM_TR106_ACS_PASSWORD;
       update (\<lambda>e. e\<lparr> e_world := x_updateAcs x url username password (e_world e) \<rparr>) }
     else ret () }"

section \<open>Pending events\<close>

definition containsEvent :: "event list \<Rightarrow> event \<Rightarrow> bool" where
  "containsEvent l es \<longleftrightarrow> (\<exists>e\<in>set l. same_pointer (ev_code e) (ev_code es) \<and> ev_key e = ev_key es)"

definition signal :: "sched \<Rightarrow> sched" where
  "signal s = s\<lparr> s_signalled := True \<rparr>"

definition sched_addEvent :: "string \<Rightarrow> string option \<Rightarrow> sched \<Rightarrow> sched" where
  "sched_addEvent event commandKey s =
     (let es = DM_ENG_newEventStruct event commandKey
      in signal (if containsEvent (s_pendingEvents s) es then s
                 else s\<lparr> s_pendingEvents := s_pendingEvents s @ [es] \<rparr>))"

definition checkNextInformTime :: "('w, unit) m" where
  "checkNextInformTime = do {
     newTime \<leftarrow> gets (\<lambda>e. getNextTimeout (ctrl_of e));
     on_sched (\<lambda>s. if newTime \<noteq> 0 \<and> (s_nextInformTime s = 0 \<or> newTime \<le> s_nextInformTime s)
                   then signal s else s) }"

definition sched_start :: "'w env \<Rightarrow> ('w, unit) m" where
  "sched_start x = do {
     alive \<leftarrow> gets (\<lambda>e. s_alive (e_sched e));
     if alive then ret ()
     else do {
       updateAcsParameters x;
       on_sched (\<lambda>s. s\<lparr> s_retryOn := False, s_threads := Suc (s_threads s) \<rparr>) } }"

definition sched_stop :: "sched \<Rightarrow> sched" where
  "sched_stop s = (if s_alive s then signal (s\<lparr> s_alive := False \<rparr>) else s)"

definition bootEvent :: "bool \<Rightarrow> ('w, unit) m" where
  "bootEvent factoryReset = do {
     (if factoryReset then on_sched (sched_addEvent EV_BOOTSTRAP None) else ret ());
     on_sched (sched_addEvent EV_BOOT None);
     key \<leftarrow> gets (\<lambda>e. sRebootCommandKey (ctrl_of e));
     case key of
       None \<Rightarrow> ret ()
     | Some k \<Rightarrow> do {
         on_sched (\<lambda>s. foldl (\<lambda>s f. sched_addEvent EV_M_REBOOT (Some f) s) s (fields_of CHR '','' k));
         on_ctrl (setRebootCommandKey None) } }"

definition internStatus :: "cstr \<Rightarrow> device_status" where
  "internStatus status =
     (if status = Null then DS_ERROR
      else if ctext status = ''Down'' then DS_DOWN
      else if ctext status = ''Up'' then DS_UP
      else if ctext status = ''Initializing'' then DS_INITIALIZING
      else if ctext status = ''Error'' then DS_ERROR
      else DS_DISABLED)"

section \<open>Entry points\<close>

definition bootstrapInform :: "('w, unit) m" where
  "bootstrapInform = on_sched (sched_addEvent EV_BOOTSTRAP None)"

definition changeOnPeriodicInform :: "('w, unit) m" where
  "changeOnPeriodicInform = checkNextInformTime"

definition scheduleInform :: "32 word \<Rightarrow> string option \<Rightarrow> ('w, int) m" where
  "scheduleInform delay commandKey =
     (if delay = 0 then ret DM_ENG_INVALID_ARGUMENTS
      else do {
        t \<leftarrow> time_now;
        on_ctrl_ub (addScheduledInformCommand (t + uint delay) commandKey);
        checkNextInformTime;
        ret 0 })"

definition requestConnection :: "('w, unit) m" where
  "requestConnection = on_sched (sched_addEvent EV_CONNECTION_REQUEST None)"

definition diagnosticsComplete :: "('w, unit) m" where
  "diagnosticsComplete = on_sched (sched_addEvent EV_DIAGNOSTICS_COMPLETE None)"

definition sched_transferComplete :: "bool \<Rightarrow> ('w, unit) m" where
  "sched_transferComplete autonomous =
     on_sched (sched_addEvent (if autonomous then EV_AUTONOMOUS_TRANSFER_COMPLETE else EV_TRANSFER_COMPLETE) None)"

definition sched_requestDownload :: "('w, unit) m" where
  "sched_requestDownload = on_sched (sched_addEvent EV_REQUEST_DOWNLOAD None)"

definition sched_vendorSpecificEvent :: "string \<Rightarrow> ('w, unit) m" where
  "sched_vendorSpecificEvent eventCode = on_sched (sched_addEvent eventCode None)"

definition parameterValueChanged :: "'w env \<Rightarrow> param \<Rightarrow> ('w, unit) m" where
  "parameterValueChanged x param = do {
     eventToAdd \<leftarrow>
       (if p_name param = DM_ENG_DEVICE_STATUS_PARAMETER_NAME then do {
          let status = internStatus (p_value param);
          last \<leftarrow> gets (\<lambda>e. s_lastStatus (e_sched e));
          add \<leftarrow> (if status = DS_INITIALIZING \<or> status = DS_DOWN
                 then do { on_sched sched_stop; ret False }
                 else do {
                   sched_start x;
                   if last = DS_UNINITIALIZED \<or> last = DS_DOWN \<or> last = DS_INITIALIZING
                   then do { bootEvent (last = DS_UNINITIALIZED); ret False }
                   else ret True });
          on_sched (\<lambda>s. s\<lparr> s_lastStatus := status \<rparr>);
          ret (add \<and> status \<noteq> last) }
        else ret True);
     if eventToAdd \<and> p_notification param = NM_ACTIVE
     then on_sched (sched_addEvent EV_VALUE_CHANGE None) else ret () }"

text \<open>The calls of \<open>DM_ENG_Parameter_commit\<close>.\<close>

fun notify_sched :: "'w env \<Rightarrow> sched_call \<Rightarrow> ('w, unit) m" where
  "notify_sched x CallDiagnosticsComplete = diagnosticsComplete"
| "notify_sched x (CallParameterValueChanged p) = parameterValueChanged x p"

end
