(* ===== verification/MgrEvents.thy ===== *)
theory MgrEvents
  imports SchedIn
begin

text \<open>
  \<open>dm_engine/src/DM_ENG_ParameterManager.c\<close>, the events: the date of the next periodic inform, the
  events that are due, the transfers that are started when their time has come, and the queues that
  the inform scheduler empties.

  \<open>time(NULL)\<close> is the clock \<open>now\<close> of the data, which does not advance during an operation.
\<close>

section \<open>Periodic inform\<close>

definition isPeriodicInformEnabled :: "('w, bool) m" where
  "isPeriodicInformEnabled = on_param DM_ENG_PERIODIC_INFORM_ENABLE_NAME
     (\<lambda>p. (p_value p \<noteq> Null \<and>
            (if length (ctext (p_value p)) = 1 then ctext (p_value p) = ''1''
             else strcaseeq (ctext (p_value p)) DM_ENG_TRUE_STRING), p, False)) False"

definition getPeriodicInformInterval :: "store \<Rightarrow> int" where
  "getPeriodicInformInterval s =
     (case getParameter s DM_ENG_PERIODIC_INFORM_INTERVAL_NAME of
        None \<Rightarrow> int UINT_MAX
      | Some p \<Rightarrow> (case DM_ENG_stringToUint (p_value p) of None \<Rightarrow> int UINT_MAX | Some u \<Rightarrow> uint u))"

definition getPeriodicInformTime :: "int \<Rightarrow> store \<Rightarrow> int" where
  "getPeriodicInformTime tz s =
     (case getParameter s DM_ENG_PERIODIC_INFORM_TIME_NAME of
        None \<Rightarrow> 0
      | Some p \<Rightarrow> (case DM_ENG_dateStringToTime tz (p_value p) of None \<Rightarrow> 0 | Some t \<Rightarrow> t))"

text \<open>The next date of the period from a reference date, at \<open>t\<close>.\<close>

definition next_periodic :: "int \<Rightarrow> int \<Rightarrow> int \<Rightarrow> int" where
  "next_periodic t period refTime =
     (if refTime > 0 \<and> refTime \<noteq> t
      then if refTime < t then t + period - (t - refTime) mod period
           else t + (refTime - t) mod period
      else t + period)"

definition computeNextPeriodicInformTime :: "'w env \<Rightarrow> ('w, unit) m" where
  "computeNextPeriodicInformTime x = do {
     old \<leftarrow> gets (\<lambda>e. periodicInformTime (ctrl_of e));
     period \<leftarrow> gets (\<lambda>e. getPeriodicInformInterval (store_of e));
     enabled \<leftarrow> isPeriodicInformEnabled;
     t \<leftarrow> time_now;
     ref0 \<leftarrow> gets (\<lambda>e. getPeriodicInformTime (x_tz x) (store_of e));
     on_ctrl (setPeriodicInformTime
       (if enabled \<and> period > 0 then next_periodic t period (if ref0 = 0 then old else ref0) else 0)) }"

section \<open>Transfers\<close>

definition DATA_MODEL_EXTENSION_FILE_TYPE :: string where
  "DATA_MODEL_EXTENSION_FILE_TYPE = ''7 Data Model Extension File''"

definition actionAfterDownload :: "'w env \<Rightarrow> string option \<Rightarrow> string option \<Rightarrow> ('w, int) m" where
  "actionAfterDownload x fileType fileName =
     (if fileType = Some DATA_MODEL_EXTENSION_FILE_TYPE then do {
        res \<leftarrow> outside (x_processConfig x fileName);
        (if res = 0 then emit StatisticsRestart else ret ());
        ret res }
      else ret 0)"

definition applyTransferRequest :: "'w env \<Rightarrow> transfer \<Rightarrow> ('w, int) m" where
  "applyTransferRequest x tr =
     (if tr_isDownload tr then do {
        res \<leftarrow> outside (x_download x tr);
        if res = 0 then actionAfterDownload x (tr_fileType tr) (tr_targetFileName tr) else ret res }
      else outside (x_upload x tr))"

definition updateTransfer :: "32 word \<Rightarrow> int \<Rightarrow> 32 word \<Rightarrow> int \<Rightarrow> int \<Rightarrow> ('w, transfer option) m" where
  "updateTransfer i st cd start cmp = do {
     r \<leftarrow> gets (\<lambda>e. fst (updateTransferRequest i st cd start cmp (ctrl_of e)));
     on_ctrl (\<lambda>c. snd (updateTransferRequest i st cd start cmp c));
     ret r }"

text \<open>
  The body of the loop over the transfers: a transfer whose time has come is started, the event of a
  completed one is added.  A pointer to a transfer is its identifier.
\<close>

definition addEventOnce :: "string \<Rightarrow> ('w, unit) m" where
  "addEventOnce ev = on_ctrl (\<lambda>c. if isInEvents ev c then c else addEvent (Const ev) None c)"

definition manage_transfer :: "'w env \<Rightarrow> 32 word \<Rightarrow> ('w, unit) m" where
  "manage_transfer x i = do {
     tro \<leftarrow> gets (\<lambda>e. find (\<lambda>t. tr_transferId t = i) (transferRequests (ctrl_of e)));
     t \<leftarrow> time_now;
     (case tro of
        None \<Rightarrow> ret ()
      | Some tr \<Rightarrow>
          if tr_state tr = NOT_YET_STARTED \<and> tr_transferTime tr \<le> t then do {
            res \<leftarrow> applyTransferRequest x tr;
            _ \<leftarrow> (if res = 1 then updateTransfer i IN_PROGRESS 0 0 0
                  else updateTransfer i TR_COMPLETED (word_of_int res) t (if res = 0 then t else 0));
            ret () }
          else ret ());
     tro' \<leftarrow> gets (\<lambda>e. find (\<lambda>t. tr_transferId t = i) (transferRequests (ctrl_of e)));
     case tro' of
       None \<Rightarrow> ret ()
     | Some tr \<Rightarrow>
         if tr_state tr = TR_COMPLETED
         then addEventOnce (if tr_commandKey tr = None then EV_AUTONOMOUS_TRANSFER_COMPLETE else EV_TRANSFER_COMPLETE)
         else ret () }"

fun manage_transfers :: "'w env \<Rightarrow> 32 word list \<Rightarrow> ('w, unit) m" where
  "manage_transfers x [] = ret ()"
| "manage_transfers x (i # is) = do { manage_transfer x i; manage_transfers x is }"

section \<open>Events that are due\<close>

text \<open>The scheduled informs that are due become events; None if the two lists do not match.\<close>

function scheduled_due :: "int \<Rightarrow> ctrl \<Rightarrow> ctrl option" where
  "scheduled_due t c =
     (if getScheduledInformTime c \<noteq> 0 \<and> getScheduledInformTime c \<le> t then
        (let c1 = (if isInEvents EV_SCHEDULED c then c else addEvent (Const EV_SCHEDULED) None c);
             c2 = addEvent (Const EV_M_SCHEDULE_INFORM) (getScheduledInformCommandKey c1) c1;
             c3 = nextScheduledInformCommand c2
         in if olen (sScheduledInformTime c3) < olen (sScheduledInformTime c) then scheduled_due t c3 else None)
      else Some c)"
  by pat_completeness auto
termination by (relation "measure (\<lambda>(_, c). olen (sScheduledInformTime c))") auto

declare scheduled_due.simps [simp del]

definition add_pending :: "event list \<Rightarrow> ctrl \<Rightarrow> ctrl" where
  "add_pending evs c = foldl (\<lambda>c e. addEvent (ev_code e) (ev_key e) c) c evs"

definition manageEvents :: "'w env \<Rightarrow> event list \<Rightarrow> ('w, unit) m" where
  "manageEvents x pendingEvt = do {
     on_ctrl (add_pending pendingEvt);
     p \<leftarrow> gets (\<lambda>e. periodicInformTime (ctrl_of e));
     t \<leftarrow> time_now;
     (if p \<noteq> 0 \<and> p \<le> t then do { addEventOnce EV_PERIODIC; computeNextPeriodicInformTime x } else ret ());
     due \<leftarrow> gets (\<lambda>e. scheduled_due t (ctrl_of e));
     (case due of None \<Rightarrow> fail OutOfFuel | Some c \<Rightarrow> on_ctrl (\<lambda>_. c));
     is \<leftarrow> gets (\<lambda>e. map tr_transferId (transferRequests (ctrl_of e)));
     manage_transfers x is;
     on_ctrl (\<lambda>c. if downloadRequests c \<noteq> [] \<and> \<not> isInEvents EV_REQUEST_DOWNLOAD c
                  then addEvent (Const EV_REQUEST_DOWNLOAD) None c else c);
     sync }"

section \<open>Events of an Inform message\<close>

definition updateValueChangeEvent :: "bool \<Rightarrow> ctrl \<Rightarrow> ctrl" where
  "updateValueChangeEvent valueChanged c =
     (if isInEvents EV_VALUE_CHANGE c then (if valueChanged then c else deleteEvent (Const EV_VALUE_CHANGE) c)
      else if valueChanged then addEvent (Const EV_VALUE_CHANGE) None c else c)"

definition addMTransferEvents :: "ctrl \<Rightarrow> ctrl" where
  "addMTransferEvents c =
     foldl (\<lambda>c tr. if tr_state tr = TR_COMPLETED \<and> tr_commandKey tr \<noteq> None
                   then addEvent (Const (if tr_isDownload tr then EV_M_DOWNLOAD else EV_M_UPLOAD)) (tr_commandKey tr) c
                   else c) c (transferRequests c)"

definition deleteMTransferEvents :: "ctrl \<Rightarrow> ctrl" where
  "deleteMTransferEvents c = deleteEvent (Const EV_M_UPLOAD) (deleteEvent (Const EV_M_DOWNLOAD) c)"

definition isEventsEmpty :: "ctrl \<Rightarrow> bool" where
  "isEventsEmpty c \<longleftrightarrow> events c = []"

definition getEventsTab :: "ctrl \<Rightarrow> event list" where
  "getEventsTab c = events c"

text \<open>Once the events are sent, the changes they stand for are forgotten.\<close>

fun initStates :: "param list \<Rightarrow> ub + param list \<times> bool" where
  "initStates [] = Inr ([], False)"
| "initStates (p # ps) =
     (case DM_ENG_Parameter_initState p of
        Inl u \<Rightarrow> Inl u
      | Inr (p', b) \<Rightarrow> (case initStates ps of Inl u \<Rightarrow> Inl u | Inr (ps', b') \<Rightarrow> Inr (p' # ps', b \<or> b')))"

definition clearEvents :: "('w, unit) m" where
  "clearEvents = do {
     evs \<leftarrow> gets (\<lambda>e. events (ctrl_of e));
     if evs = [] then ret ()
     else do {
       on_ctrl deleteAllEvents;
       on_store_ub (\<lambda>s. map_sum id (\<lambda>(ps, b). s\<lparr> parameters := ps, dataChanged := dataChanged s \<or> b \<rparr>)
          (initStates (parameters s)));
       update (\<lambda>e. e\<lparr> e_cursor := None \<rparr>);
       on_ctrl resetRetryCount;
       sync } }"

section \<open>Queues of transfers and downloads\<close>

definition getTransferResult :: "ctrl \<Rightarrow> transfer option" where
  "getTransferResult c = find (\<lambda>t. tr_state t = TR_COMPLETED) (transferRequests c)"

definition removeTransferResult :: "32 word \<Rightarrow> ('w, unit) m" where
  "removeTransferResult i = do { on_ctrl (removeTransferRequest i); sync }"

definition removeAllTransferResults :: "('w, unit) m" where
  "removeAllTransferResults = do {
     on_ctrl (\<lambda>c. foldl (\<lambda>c tr. if tr_state tr = TR_COMPLETED then removeTransferRequest (tr_transferId tr) c else c)
        c (transferRequests c));
     sync }"

definition getFirstDownloadRequest :: "ctrl \<Rightarrow> download option" where
  "getFirstDownloadRequest c = (case downloadRequests c of [] \<Rightarrow> None | d # _ \<Rightarrow> Some d)"

definition mgr_removeFirstDownloadRequest :: "('w, unit) m" where
  "mgr_removeFirstDownloadRequest = do { on_ctrl removeFirstDownloadRequest; sync }"

definition removeAllDownloadRequests :: "('w, unit) m" where
  "removeAllDownloadRequests = do {
     on_ctrl (\<lambda>c. (removeFirstDownloadRequest ^^ length (downloadRequests c)) c);
     sync }"

definition manageTransferRequest :: "'w env \<Rightarrow> 32 word \<Rightarrow> transfer \<Rightarrow> ('w, int \<times> (int \<times> int \<times> int) option) m" where
  "manageTransferRequest x delay tr0 = do {
     t \<leftarrow> time_now;
     let tr = tr0\<lparr> tr_state := NOT_YET_STARTED, tr_transferTime := t + uint delay,
                   tr_commandKey := Some (case tr_commandKey tr0 of None \<Rightarrow> [] | Some k \<Rightarrow> k) \<rparr>;
     on_ctrl (insertTransferRequest tr);
     i \<leftarrow> gets (\<lambda>e. lastTransferId (ctrl_of e));
     (res, start, cmp) \<leftarrow>
       (if delay = 0 then do {
          on_ctrl (\<lambda>c. c\<lparr> transferRequests := update_first_id i (\<lambda>t. t\<lparr> tr_state := IN_PROGRESS \<rparr>) (transferRequests c) \<rparr>);
          r \<leftarrow> applyTransferRequest x (tr\<lparr> tr_state := IN_PROGRESS, tr_transferId := i \<rparr>);
          (if r \<noteq> 1 then on_ctrl (removeTransferRequest i) else ret ());
          ret (r, t, if r \<noteq> 1 then t else 0) }
        else ret (1, 0, 0));
     ret (if res = 0 \<or> res = 1 then (0, Some (res, start, cmp)) else (res, None)) }"

definition getAllQueuedTransfers :: "ctrl \<Rightarrow> (bool \<times> int \<times> string option \<times> 32 word \<times> string option \<times> string option) list" where
  "getAllQueuedTransfers c =
     map (\<lambda>t. (tr_isDownload t, tr_state t, tr_fileType t, tr_fileSize t, tr_targetFileName t, tr_commandKey t))
       (transferRequests c)"

end
