(* ===== verification/MgrEventsProps.thy ===== *)
theory MgrEventsProps
  imports MgrEvents
begin

text \<open>
  The properties of the events of \<open>DM_ENG_ParameterManager.c\<close>: the date of the next periodic inform,
  and what \<open>DM_ENG_ParameterManager_manageEvents\<close> leaves to wait for.
\<close>

section \<open>The period\<close>

text \<open>
  The next periodic inform is at most a period away and congruent to the reference date, and it
  is in the future, but in one case: when the reference date lies a whole number of periods ahead,
  the inform is due at once.
\<close>

theorem next_periodic_spec:
  assumes "0 < period" "0 < refTime"
  shows "t \<le> next_periodic t period refTime \<and> next_periodic t period refTime \<le> t + period \<and>
    (next_periodic t period refTime - refTime) mod period = 0 \<and>
    (next_periodic t period refTime = t) = (t < refTime \<and> (refTime - t) mod period = 0)"
proof -
  define A where "A = (t - refTime) mod period"
  define B where "B = (refTime - t) mod period"
  have m: "0 \<le> A" "A < period" "0 \<le> B" "B < period"
    using assms(1) by (simp_all add: A_def B_def)
  have "t + period - A - refTime = period * ((t - refTime) div period + 1)"
    "t + B - refTime = period * - ((refTime - t) div period)"
    using div_mult_mod_eq [of "t - refTime" period] div_mult_mod_eq [of "refTime - t" period]
    by (simp_all add: A_def B_def algebra_simps)
  then have c: "(t + period - A - refTime) mod period = 0" "(t + B - refTime) mod period = 0"
    by (metis mod_mult_self1_is_0)+
  have n: "next_periodic t period refTime = (if refTime = t then t + period else if refTime < t then t + period - A else t + B)"
    using assms(2) by (simp add: next_periodic_def A_def B_def)
  show ?thesis unfolding n B_def [symmetric] using m c assms(1) by auto
qed

theorem next_periodic_spec_witness:
  "next_periodic 1000 60 70 = 1030 \<and> (next_periodic 1000 60 70 - 70) mod 60 = (0 :: int)"
  using next_periodic_spec [of 60 70 1000] by (simp add: next_periodic_def)

section \<open>Scheduled informs\<close>

lemma sched_inv_cong:
  "sScheduledInformTime c' = sScheduledInformTime c \<Longrightarrow> sScheduledInformCommandKey c' = sScheduledInformCommandKey c \<Longrightarrow>
   sched_inv c' = sched_inv c \<and> sched_contents c' = sched_contents c \<and>
   getScheduledInformTime c' = getScheduledInformTime c \<and>
   getScheduledInformCommandKey c' = getScheduledInformCommandKey c"
  by (simp add: sched_inv_def sched_repr_def sched_contents_def getScheduledInformTime_def getScheduledInformCommandKey_def)

lemma addEvent_frame [simp]:
  "sScheduledInformTime (addEvent ec k c) = sScheduledInformTime c"
  "sScheduledInformCommandKey (addEvent ec k c) = sScheduledInformCommandKey c"
  "periodicInformTime (addEvent ec k c) = periodicInformTime c"
  "transferRequests (addEvent ec k c) = transferRequests c"
  "lastTransferId (addEvent ec k c) = lastTransferId c"
  "downloadRequests (addEvent ec k c) = downloadRequests c"
  by (simp_all add: addEvent_def)

lemma next_frame [simp]:
  "events (nextScheduledInformCommand c) = events c"
  "periodicInformTime (nextScheduledInformCommand c) = periodicInformTime c"
  "transferRequests (nextScheduledInformCommand c) = transferRequests c"
  by (simp_all add: nextScheduledInformCommand_def split: option.split)

lemma standard_const: "s \<in> set standard_codes \<Longrightarrow> internEventCode s = Const s"
  by (simp add: internEventCode_def)

lemma addEvent_in:
  "s \<in> set standard_codes \<Longrightarrow> \<exists>e\<in>set (events (addEvent (Const s) k c)). ev_code e = Const s \<and> ev_key e = k"
  by (auto simp: addEvent_def DM_ENG_newEventStruct_def standard_const same_pointer_Const)

lemma addEvent_mono: "set (events c) \<subseteq> set (events (addEvent ec k c))"
  by (auto simp: addEvent_def)

lemma olen_next:
  "sched_inv c \<Longrightarrow> getScheduledInformTime c \<noteq> 0 \<Longrightarrow> olen (sScheduledInformTime (nextScheduledInformCommand c)) < olen (sScheduledInformTime c)"
  by (auto simp: sched_inv_def sched_repr_def opt_list_def getScheduledInformTime_def nextScheduledInformCommand_def olen_def
      split: option.splits if_splits dest: after_comma_shorter)

definition is_event :: "string \<Rightarrow> string option \<Rightarrow> ctrl \<Rightarrow> bool" where
  "is_event s k c \<longleftrightarrow> (\<exists>e\<in>set (events c). ev_code e = Const s \<and> ev_key e = k)"

lemma is_event_add: "is_event s k c \<Longrightarrow> is_event s k (addEvent ec k' c)"
  using addEvent_mono [of c ec k'] by (auto simp: is_event_def)

lemma M_SCHEDULE_standard: "EV_M_SCHEDULE_INFORM \<in> set standard_codes"
  by (simp add: standard_codes_def EV_M_SCHEDULE_INFORM_def)

lemma scheduled_due_spec:
  "sched_inv c \<Longrightarrow> \<exists>c'. scheduled_due t c = Some c' \<and> sched_inv c' \<and>
     sched_contents c' = dropWhile (\<lambda>x. fst x \<le> t) (sched_contents c) \<and>
     transferRequests c' = transferRequests c \<and> periodicInformTime c' = periodicInformTime c \<and>
     (\<forall>x\<in>set (takeWhile (\<lambda>x. fst x \<le> t) (sched_contents c)). is_event EV_M_SCHEDULE_INFORM (Some (snd x)) c') \<and>
     set (events c) \<subseteq> set (events c')"
proof (induction t c rule: scheduled_due.induct)
  case (1 t c)
  have first: "getScheduledInformTime c = (case sched_contents c of [] \<Rightarrow> 0 | x # _ \<Rightarrow> fst x)"
    using sched_first_contents [OF 1(2)]
    by (auto simp: sched_first_def Let_def split: list.splits if_splits)
  show ?case
  proof (cases "getScheduledInformTime c \<noteq> 0 \<and> getScheduledInformTime c \<le> t")
    case False
    have "dropWhile (\<lambda>x. fst x \<le> t) (sched_contents c) = sched_contents c"
      "takeWhile (\<lambda>x. fst x \<le> t) (sched_contents c) = []"
    proof -
      have "fst x \<noteq> 0" if "x \<in> set (sched_contents c)" for x
        using 1(2) that by (cases x) (auto simp: sched_inv_def sched_repr_def sched_ok_def)
      then show "dropWhile (\<lambda>x. fst x \<le> t) (sched_contents c) = sched_contents c"
        "takeWhile (\<lambda>x. fst x \<le> t) (sched_contents c) = []"
        using False first by (cases "sched_contents c"; auto)+
    qed
    then show ?thesis using False 1(2) by (auto simp: scheduled_due.simps [of t c])
  next
    case True
    define c1 where "c1 = (if isInEvents EV_SCHEDULED c then c else addEvent (Const EV_SCHEDULED) None c)"
    define c2 where "c2 = addEvent (Const EV_M_SCHEDULE_INFORM) (getScheduledInformCommandKey c1) c1"
    define c3 where "c3 = nextScheduledInformCommand c2"
    have f1: "sScheduledInformTime c1 = sScheduledInformTime c" "sScheduledInformCommandKey c1 = sScheduledInformCommandKey c"
      "transferRequests c1 = transferRequests c" "periodicInformTime c1 = periodicInformTime c"
      "set (events c) \<subseteq> set (events c1)"
      using addEvent_mono [of c "Const EV_SCHEDULED" None] by (simp_all add: c1_def)
    have f2: "sScheduledInformTime c2 = sScheduledInformTime c" "sScheduledInformCommandKey c2 = sScheduledInformCommandKey c"
      "set (events c1) \<subseteq> set (events c2)"
      using addEvent_mono [of c1] f1 by (simp_all add: c2_def)
    note c2 = sched_inv_cong [OF f2(1,2)]
    have less: "olen (sScheduledInformTime c3) < olen (sScheduledInformTime c)"
      using olen_next [of c2] c2 f2(1) 1(2) True unfolding c3_def by auto
    obtain x xs where x: "sched_contents c = x # xs" using True first by (cases "sched_contents c") auto
    have inv3: "sched_inv c3" "sched_contents c3 = xs"
      using scheduled.remove_inv [of c2] scheduled.remove_contents [of c2] c2 1(2) x unfolding c3_def by auto
    have key: "getScheduledInformCommandKey c1 = Some (snd x)"
      using sched_repr_first [of "fst x" "snd x" xs c] 1(2) x sched_inv_cong [OF f1(1,2)]
      by (simp add: sched_inv_def)
    have ev: "is_event EV_M_SCHEDULE_INFORM (Some (snd x)) c3"
      using addEvent_in [OF M_SCHEDULE_standard, of "Some (snd x)" c1] key
      by (simp add: is_event_def c3_def c2_def)
    from 1(1) [OF True refl refl refl] less inv3(1)
    obtain c' where c': "scheduled_due t c3 = Some c'" "sched_inv c'"
      "sched_contents c' = dropWhile (\<lambda>x. fst x \<le> t) (sched_contents c3)"
      "transferRequests c' = transferRequests c3" "periodicInformTime c' = periodicInformTime c3"
      "\<forall>x\<in>set (takeWhile (\<lambda>x. fst x \<le> t) (sched_contents c3)). is_event EV_M_SCHEDULE_INFORM (Some (snd x)) c'"
      "set (events c3) \<subseteq> set (events c')"
      unfolding c1_def [symmetric] c2_def [symmetric] c3_def [symmetric] by blast
    have "scheduled_due t c = Some c'"
      using True less c'(1) unfolding scheduled_due.simps [of t c] Let_def c1_def [symmetric] c2_def [symmetric] c3_def [symmetric]
      by simp
    moreover have "is_event EV_M_SCHEDULE_INFORM (Some (snd x)) c'" using ev c'(7) by (auto simp: is_event_def)
    moreover have "fst x \<le> t" using True first x by simp
    moreover have "transferRequests c3 = transferRequests c" "periodicInformTime c3 = periodicInformTime c"
      "set (events c) \<subseteq> set (events c3)"
      using f1 f2 by (auto simp: c3_def c2_def)
    ultimately show ?thesis using c' x inv3(2) by auto
  qed
qed

text \<open>
  The loop over the scheduled informs ends, and turns exactly those that are due into events
  with their command keys: what remains is the queue after them.
\<close>

theorem scheduled_informs_due:
  assumes "sched_inv c"
  shows "\<exists>c'. scheduled_due t c = Some c' \<and> sched_contents c' = dropWhile (\<lambda>x. fst x \<le> t) (sched_contents c) \<and>
    list_all (\<lambda>x. is_event EV_M_SCHEDULE_INFORM (Some (snd x)) c') (takeWhile (\<lambda>x. fst x \<le> t) (sched_contents c))"
  using scheduled_due_spec [OF assms, of t] by (auto simp: list_all_iff)

theorem scheduled_informs_due_witness:
  "\<exists>c'. scheduled_due 60 (sched_add 70 ''c'' (sched_add 50 ''a'' ctrl_init)) = Some c' \<and>
    sched_contents c' = dropWhile (\<lambda>x. fst x \<le> 60) (sched_contents (sched_add 70 ''c'' (sched_add 50 ''a'' ctrl_init)))"
proof -
  have "sched_repr [] ctrl_init" by (simp add: sched_repr_def opt_list_def ctrl_init_def)
  then have "sched_inv (sched_add 70 ''c'' (sched_add 50 ''a'' ctrl_init))"
    using sched_invI scheduled.add_inv by (simp add: sched_ok_def LONG_MAX_def)
  from scheduled_informs_due [OF this, of 60] show ?thesis by blast
qed

section \<open>Transfers\<close>

lemma run_action:
  "snd (run_state (actionAfterDownload x ft fn) e)
     = e\<lparr> e_world := e_world (snd (run_state (actionAfterDownload x ft fn) e)),
         e_calls := e_calls (snd (run_state (actionAfterDownload x ft fn) e)) \<rparr>"
  by (simp add: actionAfterDownload_def)

lemma run_apply:
  "\<exists>res w cs. run_state (applyTransferRequest x tr) e = (res, e\<lparr> e_world := w, e_calls := cs \<rparr>)"
proof -
  let ?e1 = "e\<lparr> e_world := snd (x_download x tr (e_world e)) \<rparr>"
  have "snd (run_state (applyTransferRequest x tr) e)
      = e\<lparr> e_world := e_world (snd (run_state (applyTransferRequest x tr) e)),
          e_calls := e_calls (snd (run_state (applyTransferRequest x tr) e)) \<rparr>"
    using run_action [of x "tr_fileType tr" "tr_targetFileName tr" ?e1]
    by (simp add: applyTransferRequest_def)
  then show ?thesis by (metis prod.collapse)
qed

text \<open>What \<open>manageEvents\<close> leaves of the control data, the events apart.\<close>

definition same_times :: "'w engine \<Rightarrow> 'w engine \<Rightarrow> bool" where
  "same_times e e' \<longleftrightarrow> time_of e' = time_of e \<and> store_of e' = store_of e \<and>
     periodicInformTime (ctrl_of e') = periodicInformTime (ctrl_of e) \<and>
     sScheduledInformTime (ctrl_of e') = sScheduledInformTime (ctrl_of e) \<and>
     sScheduledInformCommandKey (ctrl_of e') = sScheduledInformCommandKey (ctrl_of e)"

lemma same_times_trans: "same_times a b \<Longrightarrow> same_times b c \<Longrightarrow> same_times a c"
  by (simp add: same_times_def)

definition waits :: "int \<Rightarrow> transfer \<Rightarrow> bool" where
  "waits t tr \<longleftrightarrow> \<not> (tr_state tr = NOT_YET_STARTED \<and> tr_transferTime tr \<le> t)"

lemma run_updateTransfer:
  "run_state (updateTransfer i st cd start cmp) e
    = (fst (updateTransferRequest i st cd start cmp (ctrl_of e)),
       e\<lparr> e_data := (e_data e)\<lparr> d_ctrl := snd (updateTransferRequest i st cd start cmp (ctrl_of e)) \<rparr> \<rparr>)"
  by (simp add: updateTransfer_def)

lemma update_frame:
  "periodicInformTime (snd (updateTransferRequest i st cd a b c)) = periodicInformTime c"
  "sScheduledInformTime (snd (updateTransferRequest i st cd a b c)) = sScheduledInformTime c"
  "sScheduledInformCommandKey (snd (updateTransferRequest i st cd a b c)) = sScheduledInformCommandKey c"
  by (simp_all add: updateTransferRequest_def Let_def split: option.split)

lemma update_requests:
  assumes "distinct (map tr_transferId (transferRequests c))"
  shows "transferRequests (snd (updateTransferRequest i st cd a b c))
    = map (\<lambda>t. if tr_transferId t = i then t\<lparr> tr_state := st, tr_faultCode := cd, tr_startTime := a, tr_completeTime := b \<rparr> else t)
        (transferRequests c)"
proof (cases "find (\<lambda>t. tr_transferId t = i) (transferRequests c)")
  case None
  then have "\<forall>t\<in>set (transferRequests c). tr_transferId t \<noteq> i" by (auto simp: find_None_iff)
  then show ?thesis using None by (auto simp: updateTransferRequest_def Let_def intro!: map_idI [symmetric])
next
  case (Some t)
  then show ?thesis by (simp add: updateTransferRequest_def Let_def update_first_id_distinct [OF assms])
qed

lemma manage_transfer_effect:
  fixes x :: "'w env"
  assumes "distinct (map tr_transferId (transferRequests (ctrl_of e)))"
  shows "\<exists>g. same_times e (snd (run_state (manage_transfer x i) e)) \<and>
    transferRequests (ctrl_of (snd (run_state (manage_transfer x i) e)))
      = map (\<lambda>t. if tr_transferId t = i then g t else t) (transferRequests (ctrl_of e)) \<and>
    (\<forall>t\<in>set (transferRequests (ctrl_of e)). tr_transferId t = i \<longrightarrow> tr_transferId (g t) = i \<and> waits (time_of e) (g t))"
proof -
  let ?trs = "transferRequests (ctrl_of e)"
  define start :: "('w, unit) m" where "start = do {
     tro \<leftarrow> gets (\<lambda>e. find (\<lambda>t. tr_transferId t = i) (transferRequests (ctrl_of e)));
     t \<leftarrow> time_now;
     (case tro of
        None \<Rightarrow> ret ()
      | Some tr \<Rightarrow>
          if tr_state tr = NOT_YET_STARTED \<and> tr_transferTime tr \<le> t then do {
            res \<leftarrow> applyTransferRequest x tr;
            _ \<leftarrow> (if res = 1 then updateTransfer i IN_PROGRESS 0 0 0
                  else updateTransfer i TR_COMPLETED (word_of_int res) t (if res = 0 then t else 0));
            ret () }
          else ret ()) }"
  define event :: "('w, unit) m" where "event = do {
     tro' \<leftarrow> gets (\<lambda>e. find (\<lambda>t. tr_transferId t = i) (transferRequests (ctrl_of e)));
     case tro' of
       None \<Rightarrow> ret ()
     | Some tr \<Rightarrow>
         if tr_state tr = TR_COMPLETED
         then addEventOnce (if tr_commandKey tr = None then EV_AUTONOMOUS_TRANSFER_COMPLETE else EV_TRANSFER_COMPLETE)
         else ret () }"
  have split: "manage_transfer x i = start \<bind> (\<lambda>_. event)"
    by (simp add: manage_transfer_def start_def event_def)
  have ev: "same_times e1 (snd (run_state event e1)) \<and>
      transferRequests (ctrl_of (snd (run_state event e1))) = transferRequests (ctrl_of e1)" for e1
    by (auto simp: event_def addEventOnce_def same_times_def split: option.split)
  have st: "\<exists>g. same_times e (snd (run_state start e)) \<and>
      transferRequests (ctrl_of (snd (run_state start e))) = map (\<lambda>t. if tr_transferId t = i then g t else t) ?trs \<and>
      (\<forall>t\<in>set ?trs. tr_transferId t = i \<longrightarrow> tr_transferId (g t) = i \<and> waits (time_of e) (g t))"
  proof (cases "find (\<lambda>t. tr_transferId t = i) ?trs")
    case None
    then have n: "\<forall>t\<in>set ?trs. tr_transferId t \<noteq> i" by (auto simp: find_None_iff)
    then show ?thesis using None
      by (auto simp: start_def same_times_def intro!: map_idI [symmetric])
  next
    case (Some tr)
    then have tr: "tr \<in> set ?trs" "tr_transferId tr = i" by (auto simp: find_Some_iff)
    have only: "t = tr" if "t \<in> set ?trs" "tr_transferId t = i" for t
      using assms that tr by (metis distinct_map inj_onD)
    show ?thesis
    proof (cases "waits (time_of e) tr")
      case True
      then have "run_state start e = ((), e)" using Some by (auto simp: start_def waits_def)
      moreover have "?trs = map (\<lambda>t. if tr_transferId t = i then t else t) ?trs" by simp
      ultimately show ?thesis using True only
        by (intro exI [of _ "\<lambda>t. t"]) (auto simp: same_times_def)
    next
      case False
      obtain res w cs where r: "run_state (applyTransferRequest x tr) e = (res, e\<lparr> e_world := w, e_calls := cs \<rparr>)"
        using run_apply [of x tr e] by metis
      define st cd a b where "st = (if res = 1 then IN_PROGRESS else TR_COMPLETED)"
        and "cd = (if res = 1 then 0 else word_of_int res :: 32 word)" and "a = (if res = 1 then 0 else time_of e)"
        and "b = (if res = 1 then 0 else if res = 0 then time_of e else 0)"
      have run: "snd (run_state start e) = e\<lparr> e_world := w, e_calls := cs,
          e_data := (e_data e)\<lparr> d_ctrl := snd (updateTransferRequest i st cd a b (ctrl_of e)) \<rparr> \<rparr>"
        using False Some r
        by (auto simp: start_def waits_def run_updateTransfer st_def cd_def a_def b_def)
      have "st \<noteq> NOT_YET_STARTED" by (simp add: st_def NOT_YET_STARTED_def IN_PROGRESS_def TR_COMPLETED_def)
      then show ?thesis unfolding run
        by (intro exI [of _ "\<lambda>t. t\<lparr> tr_state := st, tr_faultCode := cd, tr_startTime := a, tr_completeTime := b \<rparr>"])
          (simp add: same_times_def update_frame update_requests [OF assms] waits_def)
    qed
  qed
  then show ?thesis unfolding split using ev [of "snd (run_state start e)"]
    by (auto simp: case_prod_beta same_times_def)
qed

lemma manage_transfers_effect:
  assumes "distinct (map tr_transferId (transferRequests (ctrl_of e)))"
  shows "same_times e (snd (run_state (manage_transfers x is) e)) \<and>
    (\<forall>t\<in>set (transferRequests (ctrl_of (snd (run_state (manage_transfers x is) e)))).
       waits (time_of e) t \<or> (tr_transferId t \<notin> set is \<and> t \<in> set (transferRequests (ctrl_of e))))"
  using assms
proof (induction "is" arbitrary: e)
  case (Cons i "is")
  define e1 where "e1 = snd (run_state (manage_transfer x i) e)"
  obtain g where g: "same_times e e1"
    "transferRequests (ctrl_of e1) = map (\<lambda>t. if tr_transferId t = i then g t else t) (transferRequests (ctrl_of e))"
    "\<forall>t\<in>set (transferRequests (ctrl_of e)). tr_transferId t = i \<longrightarrow> tr_transferId (g t) = i \<and> waits (time_of e) (g t)"
    using manage_transfer_effect [OF Cons.prems, of x i] unfolding e1_def by blast
  have ids: "map tr_transferId (transferRequests (ctrl_of e1)) = map tr_transferId (transferRequests (ctrl_of e))"
    using g(3) unfolding g(2) by auto
  have t: "time_of e1 = time_of e" using g(1) by (simp add: same_times_def)
  have "distinct (map tr_transferId (transferRequests (ctrl_of e1)))" using Cons.prems ids by simp
  from Cons.IH [OF this] have IH: "same_times e1 (snd (run_state (manage_transfers x is) e1))"
    "\<forall>t\<in>set (transferRequests (ctrl_of (snd (run_state (manage_transfers x is) e1)))).
       waits (time_of e) t \<or> (tr_transferId t \<notin> set is \<and> t \<in> set (transferRequests (ctrl_of e1)))"
    unfolding t by blast+
  have "waits (time_of e) t \<or> (tr_transferId t \<noteq> i \<and> t \<in> set (transferRequests (ctrl_of e)))"
    if "t \<in> set (transferRequests (ctrl_of e1))" for t
    using that g(3) unfolding g(2) by (auto split: if_splits)
  then have "\<forall>t\<in>set (transferRequests (ctrl_of (snd (run_state (manage_transfers x is) e1)))).
       waits (time_of e) t \<or> (tr_transferId t \<notin> set (i # is) \<and> t \<in> set (transferRequests (ctrl_of e)))"
    using IH(2) by fastforce
  moreover have "snd (run_state (manage_transfers x (i # is)) e) = snd (run_state (manage_transfers x is) e1)"
    by (simp add: e1_def case_prod_beta)
  ultimately show ?case using same_times_trans [OF g(1) IH(1)] by simp
qed (simp add: same_times_def)

section \<open>Nothing is due any more\<close>

lemma sync_ctrl:
  "d_ctrl (e_data (snd (run_state sync e))) = ctrl_of e \<or>
   d_ctrl (e_data (snd (run_state sync e))) = (ctrl_of e)\<lparr> controlDataChanged := False \<rparr>"
  by (auto simp: sync_def on_data_def ParameterData_sync_def writeCtrl_def writeParameters_def
      split: sum.splits if_splits)

lemma sync_time: "time_of (snd (run_state sync e)) = time_of e"
  by (auto simp: sync_def on_data_def ParameterData_sync_def writeCtrl_def writeParameters_def
      split: sum.splits if_splits)

lemma getNextTimeout_cong:
  "periodicInformTime c' = periodicInformTime c \<Longrightarrow> sScheduledInformTime c' = sScheduledInformTime c \<Longrightarrow>
   transferRequests c' = transferRequests c \<Longrightarrow> getNextTimeout c' = getNextTimeout c"
  by (simp add: getNextTimeout_def getScheduledInformTime_def)

lemma getNextTimeout_later:
  assumes "periodicInformTime c = 0 \<or> t < periodicInformTime c"
    "getScheduledInformTime c = 0 \<or> t < getScheduledInformTime c"
    "\<forall>tr\<in>set (transferRequests c). waits t tr"
  shows "getNextTimeout c = 0 \<or> t < getNextTimeout c"
proof -
  have "case find (\<lambda>t. tr_state t = NOT_YET_STARTED) (transferRequests c) of None \<Rightarrow> True | Some tr \<Rightarrow> t < tr_transferTime tr"
    using assms(3) by (auto simp: find_Some_iff waits_def set_conv_nth split: option.split)
  then show ?thesis using assms(1,2)
    by (auto simp: getNextTimeout_def earlier_def split: option.splits)
qed

lemma run_computeNext:
  "snd (run_state (computeNextPeriodicInformTime x) e) =
     (let e' = snd (run_state isPeriodicInformEnabled e); en = fst (run_state isPeriodicInformEnabled e);
          period = getPeriodicInformInterval (store_of e); ref0 = getPeriodicInformTime (x_tz x) (store_of e')
      in e'\<lparr> e_data := (e_data e')\<lparr> d_ctrl := setPeriodicInformTime
           (if en \<and> period > 0 then next_periodic (time_of e') period (if ref0 = 0 then periodicInformTime (ctrl_of e) else ref0) else 0)
           (ctrl_of e') \<rparr> \<rparr>)"
  by (simp add: computeNextPeriodicInformTime_def case_prod_beta Let_def)

lemma run_enabled:
  "e_data (snd (run_state isPeriodicInformEnabled e)) = e_data e"
  by (auto simp: isPeriodicInformEnabled_def on_param_def lookup_def upd_name_id split: option.split)

text \<open>
  The reference date of the period is not a whole number of periods in the future: the case of
  \<open>next_periodic_spec\<close> in which the next date is the present one.
\<close>

definition reference_ok :: "int \<Rightarrow> int \<Rightarrow> store \<Rightarrow> bool" where
  "reference_ok tz t s \<longleftrightarrow>
     (let r = getPeriodicInformTime tz s in r \<le> t \<or> (r - t) mod getPeriodicInformInterval s \<noteq> 0)"

lemma interval_nonneg: "0 \<le> getPeriodicInformInterval s"
  by (simp add: getPeriodicInformInterval_def split: option.split)

lemma computeNext_later:
  assumes "periodicInformTime (ctrl_of e) \<le> time_of e" "reference_ok (x_tz x) (time_of e) (store_of e)"
  shows "let e' = snd (run_state (computeNextPeriodicInformTime x) e) in
    (periodicInformTime (ctrl_of e') = 0 \<or> time_of e < periodicInformTime (ctrl_of e')) \<and>
    time_of e' = time_of e \<and> store_of e' = store_of e \<and>
    sScheduledInformTime (ctrl_of e') = sScheduledInformTime (ctrl_of e) \<and>
    sScheduledInformCommandKey (ctrl_of e') = sScheduledInformCommandKey (ctrl_of e) \<and>
    transferRequests (ctrl_of e') = transferRequests (ctrl_of e) \<and> events (ctrl_of e') = events (ctrl_of e)"
proof -
  define r where "r = (let r0 = getPeriodicInformTime (x_tz x) (store_of e) in if r0 = 0 then periodicInformTime (ctrl_of e) else r0)"
  define p where "p = getPeriodicInformInterval (store_of e)"
  have ok: "r \<le> time_of e \<or> (r - time_of e) mod p \<noteq> 0"
    using assms by (auto simp: r_def p_def reference_ok_def Let_def)
  have "time_of e < next_periodic (time_of e) p r" if "0 < p"
  proof -
    have "(time_of e - r) mod p < p" "(r - time_of e) mod p \<noteq> 0 \<Longrightarrow> 0 < (r - time_of e) mod p"
      using that pos_mod_sign [of p "r - time_of e"] by (simp, linarith)
    then show ?thesis using ok that by (auto simp: next_periodic_def)
  qed
  then show ?thesis
    by (auto simp: run_computeNext run_enabled setPeriodicInformTime_def Let_def p_def r_def)
qed

lemma add_pending_frame [simp]:
  "periodicInformTime (add_pending evs c) = periodicInformTime c"
  "sScheduledInformTime (add_pending evs c) = sScheduledInformTime c"
  "sScheduledInformCommandKey (add_pending evs c) = sScheduledInformCommandKey c"
  "transferRequests (add_pending evs c) = transferRequests c"
  unfolding add_pending_def by (induction evs arbitrary: c; simp)+

text \<open>The states of \<open>manageEvents\<close> after each of its parts.\<close>

lemma addEventOnce_state:
  "snd (run_state (addEventOnce ev) e)
    = e\<lparr> e_data := (e_data e)\<lparr> d_ctrl := if isInEvents ev (ctrl_of e) then ctrl_of e else addEvent (Const ev) None (ctrl_of e) \<rparr> \<rparr>"
  by (simp add: addEventOnce_def)

definition periodic_part :: "'w env \<Rightarrow> ('w, int) m" where
  "periodic_part x = do {
     p \<leftarrow> gets (\<lambda>e. periodicInformTime (ctrl_of e));
     t \<leftarrow> time_now;
     (if p \<noteq> 0 \<and> p \<le> t then do { addEventOnce EV_PERIODIC; computeNextPeriodicInformTime x } else ret ());
     ret t }"

definition scheduled_part :: "int \<Rightarrow> ('w, unit) m" where
  "scheduled_part t = do {
     due \<leftarrow> gets (\<lambda>e. scheduled_due t (ctrl_of e));
     case due of None \<Rightarrow> fail OutOfFuel | Some c \<Rightarrow> on_ctrl (\<lambda>_. c) }"

definition transfer_part :: "'w env \<Rightarrow> ('w, unit) m" where
  "transfer_part x = do {
     is \<leftarrow> gets (\<lambda>e. map tr_transferId (transferRequests (ctrl_of e)));
     manage_transfers x is }"

definition download_part :: "('w, unit) m" where
  "download_part = on_ctrl (\<lambda>c. if downloadRequests c \<noteq> [] \<and> \<not> isInEvents EV_REQUEST_DOWNLOAD c
                  then addEvent (Const EV_REQUEST_DOWNLOAD) None c else c)"

lemma manageEvents_parts:
  "manageEvents x evs = do { on_ctrl (add_pending evs); t \<leftarrow> periodic_part x; scheduled_part t; transfer_part x; download_part; sync }"
  by (simp add: manageEvents_def periodic_part_def scheduled_part_def transfer_part_def download_part_def)

lemma periodic_part_effect:
  assumes "reference_ok (x_tz x) (time_of e) (store_of e)"
  shows "fst (run_state (periodic_part x) e) = time_of e \<and>
    (let e' = snd (run_state (periodic_part x) e) in
      (periodicInformTime (ctrl_of e') = 0 \<or> time_of e < periodicInformTime (ctrl_of e')) \<and>
      time_of e' = time_of e \<and>
      sScheduledInformTime (ctrl_of e') = sScheduledInformTime (ctrl_of e) \<and>
      sScheduledInformCommandKey (ctrl_of e') = sScheduledInformCommandKey (ctrl_of e) \<and>
      transferRequests (ctrl_of e') = transferRequests (ctrl_of e))"
proof (cases "periodicInformTime (ctrl_of e) \<noteq> 0 \<and> periodicInformTime (ctrl_of e) \<le> time_of e")
  case True
  define e1 where "e1 = snd (run_state (addEventOnce EV_PERIODIC) e)"
  have e1: "time_of e1 = time_of e" "store_of e1 = store_of e"
    "sScheduledInformTime (ctrl_of e1) = sScheduledInformTime (ctrl_of e)"
    "sScheduledInformCommandKey (ctrl_of e1) = sScheduledInformCommandKey (ctrl_of e)"
    "transferRequests (ctrl_of e1) = transferRequests (ctrl_of e)"
    "periodicInformTime (ctrl_of e1) = periodicInformTime (ctrl_of e)"
    by (simp_all add: e1_def addEventOnce_state)
  have r: "snd (run_state (periodic_part x) e) = snd (run_state (computeNextPeriodicInformTime x) e1)"
    "fst (run_state (periodic_part x) e) = time_of e"
    using True by (simp_all add: periodic_part_def e1_def case_prod_beta)
  show ?thesis using computeNext_later [of e1 x] True assms unfolding r
    by (simp add: e1 Let_def)
next
  case False
  then have "run_state (periodic_part x) e = (time_of e, e)"
    by (auto simp: periodic_part_def)
  then show ?thesis using False by auto
qed

lemma manageEvents_later:
  assumes "sched_inv (ctrl_of e)" "distinct (map tr_transferId (transferRequests (ctrl_of e)))"
    "reference_ok (x_tz x) (time_of e) (store_of e)"
  shows "let c = ctrl_of (snd (run_state (manageEvents x evs) e)) in
    getNextTimeout c = 0 \<or> time_of e < getNextTimeout c"
proof -
  define e0 where "e0 = snd (run_state (on_ctrl (add_pending evs)) e)"
  define e1 where "e1 = snd (run_state (periodic_part x) e0)"
  define e2 where "e2 = snd (run_state (scheduled_part (time_of e)) e1)"
  define e3 where "e3 = snd (run_state (transfer_part x) e2)"
  define e4 where "e4 = snd (run_state download_part e3)"
  have e0: "time_of e0 = time_of e" "store_of e0 = store_of e"
    "sScheduledInformTime (ctrl_of e0) = sScheduledInformTime (ctrl_of e)"
    "sScheduledInformCommandKey (ctrl_of e0) = sScheduledInformCommandKey (ctrl_of e)"
    "transferRequests (ctrl_of e0) = transferRequests (ctrl_of e)"
    by (simp_all add: e0_def)
  have per: "periodicInformTime (ctrl_of e1) = 0 \<or> time_of e < periodicInformTime (ctrl_of e1)"
    and e1: "time_of e1 = time_of e"
    "sScheduledInformTime (ctrl_of e1) = sScheduledInformTime (ctrl_of e)"
    "sScheduledInformCommandKey (ctrl_of e1) = sScheduledInformCommandKey (ctrl_of e)"
    "transferRequests (ctrl_of e1) = transferRequests (ctrl_of e)"
    and p: "fst (run_state (periodic_part x) e0) = time_of e"
    using periodic_part_effect [of x e0] assms(3) by (simp_all add: e0 e1_def Let_def)
  have all: "snd (run_state (manageEvents x evs) e) = snd (run_state sync e4)"
    using p by (simp add: manageEvents_parts case_prod_beta e0_def e1_def e2_def e3_def e4_def)
  have "sched_inv (ctrl_of e1)" using sched_inv_cong [OF e1(2,3)] assms(1) by simp
  from scheduled_due_spec [OF this, of "time_of e"]
  obtain c where c: "scheduled_due (time_of e) (ctrl_of e1) = Some c" "sched_inv c"
    "sched_contents c = dropWhile (\<lambda>x. fst x \<le> time_of e) (sched_contents (ctrl_of e1))"
    "transferRequests c = transferRequests (ctrl_of e1)" "periodicInformTime c = periodicInformTime (ctrl_of e1)"
    by blast
  have e2: "ctrl_of e2 = c" "time_of e2 = time_of e" using c(1) e1 by (simp_all add: e2_def scheduled_part_def)
  have sch: "getScheduledInformTime c = 0 \<or> time_of e < getScheduledInformTime c"
  proof -
    have "time_of e < fst (hd (sched_contents c))" if "sched_contents c \<noteq> []"
      using hd_dropWhile [of "\<lambda>x. fst x \<le> time_of e" "sched_contents (ctrl_of e1)"] that unfolding c(3) by simp
    then show ?thesis using sched_first_contents [OF c(2)]
      by (auto simp: sched_first_def Let_def split: list.splits if_splits)
  qed
  have d: "distinct (map tr_transferId (transferRequests (ctrl_of e2)))" using assms(2) by (simp add: e2 c e1)
  have e3: "e3 = snd (run_state (manage_transfers x (map tr_transferId (transferRequests (ctrl_of e2)))) e2)"
    by (simp add: e3_def transfer_part_def)
  from manage_transfers_effect [OF d, of x "map tr_transferId (transferRequests (ctrl_of e2))"]
  have st: "same_times e2 e3" and w: "\<forall>t\<in>set (transferRequests (ctrl_of e3)). waits (time_of e) t"
    unfolding e3 [symmetric] e2(2) by auto
  have "getNextTimeout (ctrl_of e3) = 0 \<or> time_of e < getNextTimeout (ctrl_of e3)"
  proof (rule getNextTimeout_later [OF _ _ w])
    show "periodicInformTime (ctrl_of e3) = 0 \<or> time_of e < periodicInformTime (ctrl_of e3)"
      using per st by (simp add: same_times_def e2 c)
    show "getScheduledInformTime (ctrl_of e3) = 0 \<or> time_of e < getScheduledInformTime (ctrl_of e3)"
      using sch st by (simp add: same_times_def e2 getScheduledInformTime_def)
  qed
  moreover have "getNextTimeout (ctrl_of e4) = getNextTimeout (ctrl_of e3)"
    by (rule getNextTimeout_cong) (simp_all add: e4_def download_part_def)
  moreover have "getNextTimeout (ctrl_of (snd (run_state sync e4))) = getNextTimeout (ctrl_of e4)"
    using sync_ctrl [of e4] by (auto intro!: getNextTimeout_cong)
  ultimately show ?thesis unfolding all by (simp add: Let_def)
qed

definition demo_engine :: "unit engine" where
  "demo_engine = (engine_init ())\<lparr> e_data := data_init\<lparr> now := 60,
     d_ctrl := (sched_add 70 ''c'' (sched_add 50 ''a'' ctrl_init))\<lparr> transferRequests :=
       [DM_ENG_newTransferRequest True NOT_YET_STARTED 40 None None None None 0 None None None (Some ''k'') None] \<rparr> \<rparr> \<rparr>"



end
