(* ===== verification/MgrSet.thy ===== *)
theory MgrSet
  imports MgrEvents
begin

text \<open>
  \<open>dm_engine/src/DM_ENG_ParameterManager.c\<close>, the changes: the control of changed computed parameters,
  setting, committing and cancelling the value of a parameter through its redirections, the objects
  created and deleted by request, and the results of diagnostics.
\<close>

section \<open>Changes of computed parameters\<close>

abbreviation notify_of :: "'w env \<Rightarrow> 'w notifier" where
  "notify_of x \<equiv> notify_sched x"

text \<open>The callback of the detection of changes; a parameter that is missing has not changed.\<close>

definition isValueChanged :: "string \<Rightarrow> string \<Rightarrow> bool \<Rightarrow> ('w, bool \<times> bool) m" where
  "isValueChanged dest shortname pushed = do {
     po \<leftarrow> lookup (DM_ENG_Parameter_getLongName shortname (Str dest));
     ret (case po of None \<Rightarrow> (False, pushed) | Some p \<Rightarrow> (DM_ENG_Parameter_isValueChanged p, DM_ENG_Parameter_isPushed p)) }"

definition definition_changed :: "'w env \<Rightarrow> string \<Rightarrow> cstr \<Rightarrow> ('w, bool \<times> bool) m" where
  "definition_changed x n def =
     (if def = Null then ret (False, False)
      else if is_count def then isValueChanged n (tl (ctext def)) False
      else do {
        t \<leftarrow> time_now;
        case DM_ENG_ComputedExp_isChanged (x_tz x) t (ctext def) (isValueChanged n) (\<lambda>m. gv_of x m (Str n)) False False of
          None \<Rightarrow> do { fail (UB NullDeref); ret (False, False) }
        | Some m \<Rightarrow> do { (_, c, p) \<leftarrow> m; ret (c, p) } })"

definition checkComputedChanged :: "'w env \<Rightarrow> string \<Rightarrow> ('w, unit) m" where
  "checkComputedChanged x n = do {
     po \<leftarrow> lookup n;
     (changed, pushed) \<leftarrow> (case po of
         None \<Rightarrow> do { fail (UB NullDeref); ret (False, False) }
       | Some p \<Rightarrow> definition_changed x n (p_definition p));
     (if changed then do {
        qo \<leftarrow> lookup n;
        (case qo of
           None \<Rightarrow> fail (UB NullDeref)
         | Some q \<Rightarrow>
             if p_value q \<noteq> Null \<or> p_notification q = NM_PASSIVE \<or> p_notification q = NM_ACTIVE
             then do { _ \<leftarrow> loadComputedParameter x (gv_of x) (leaf_of x) (notify_of x) n True; ret () }
             else updateValue (notify_of x) n Null True) }
      else ret ());
     (if pushed then upd_param n (\<lambda>p. (DM_ENG_Parameter_markPushed p, True)) else ret ()) }"

definition loadLeafParameterValue :: "'w env \<Rightarrow> string \<Rightarrow> bool \<Rightarrow> ('w, int) m" where
  "loadLeafParameterValue x n checkChange = do {
     po \<leftarrow> lookup n;
     case po of
       None \<Rightarrow> do { fail (UB NullDeref); ret 0 }
     | Some p \<Rightarrow>
         if p_storageMode p = COMPUTED then do {
           (if checkChange then checkComputedChanged x n else ret ());
           loaded \<leftarrow> isLoaded n True;
           if loaded then ret 0 else loadComputedParameter x (gv_of x) (leaf_of x) (notify_of x) n checkChange }
         else do { (res, _) \<leftarrow> loadSystemParameter_value x (gv_of x) n; ret res } }"

text \<open>Parameters created by the statistics module; of a list of keys only the last one counts.\<close>

definition createParameter :: "string \<Rightarrow> cstr \<Rightarrow> DM_ENG_ParameterType \<Rightarrow> cstr \<Rightarrow> cstr \<Rightarrow> ('w, bool) m" where
  "createParameter newName destName type args configKey = do {
     let n = DM_ENG_Parameter_getLongName newName destName;
     po \<leftarrow> lookup n;
     if po = None then do {
       on_store (addParameter ((DM_ENG_newDefinedParameter n type args True)\<lparr> p_configKey := dup configKey \<rparr>));
       sync;
       ret True }
     else do {
       (if configKey = Null then ret ()
        else upd_param n (\<lambda>p. DM_ENG_Parameter_addConfigKey p (Str (last (fields_of CHR '','' (ctext configKey))))));
       ret False } }"

section \<open>Setting a value\<close>

definition STATUS_UNDEFINED :: int where "STATUS_UNDEFINED = -1"
definition STATUS_APPLIED :: int where "STATUS_APPLIED = 0"
definition STATUS_READY_TO_APPLY :: int where "STATUS_READY_TO_APPLY = 1"

definition status_of :: "param \<Rightarrow> int" where
  "status_of p = (if p_immediateChanges p \<noteq> 0 then STATUS_APPLIED else STATUS_READY_TO_APPLY)"

text \<open>The value is checked, the previous one is loaded so that it can be restored.\<close>

definition setParameterValue_one :: "'w env \<Rightarrow> string \<Rightarrow> cstr \<Rightarrow> cstr \<Rightarrow> ('w, int \<times> cstr) m" where
  "setParameterValue_one x n val pData = do {
     res \<leftarrow> on_param n (\<lambda>p. (DM_ENG_Parameter_checkBeforeSetValue (x_tz x) p val, p, False)) 0;
     if res \<noteq> 0 then ret (res, pData)
     else do {
       po \<leftarrow> lookup n;
       (res, d) \<leftarrow> loadSystemParameter_value x (gv_of x) n;
       let pData' = (if d = Null then pData else d);
       if res \<noteq> 0 then ret (res, pData')
       else do {
         r \<leftarrow> on_param n (\<lambda>p. case DM_ENG_Parameter_setValue p val of (r, p') \<Rightarrow> (r, p', True)) 0;
         ret (r, pData') } } }"

text \<open>
  The redirection of a computed parameter is the parameter that its definition names.  The results
  are the code, the status, the name of the parameter that was really set and the data of its
  definition, of which the last three are also parameters: the callers' variables.
\<close>

definition redirection :: "param \<Rightarrow> string \<Rightarrow> string option" where
  "redirection p name =
     (if p_storageMode p = COMPUTED \<and> p_definition p \<noteq> Null
      then Some (DM_ENG_Parameter_getLongName (ctext (p_definition p)) (Str name)) else None)"

fun setParameterValue_rec ::
    "nat \<Rightarrow> 'w env \<Rightarrow> nat \<Rightarrow> string \<Rightarrow> cstr \<Rightarrow> int \<times> string option \<times> cstr \<Rightarrow> ('w, int \<times> int \<times> string option \<times> cstr) m" where
  "setParameterValue_rec 0 x entity name val out = do { fail OutOfFuel; ret (0, out) }"
| "setParameterValue_rec (Suc k) x entity name val out =
     (case out of (pResult, pSysName, pData) \<Rightarrow> do {
     po \<leftarrow> lookup name;
     entities \<leftarrow> gets e_entities;
     case po of
       None \<Rightarrow> ret (DM_ENG_INVALID_PARAMETER_NAME, out)
     | Some p \<Rightarrow>
       if DM_ENG_Parameter_isNode (p_name p) \<or>
          (pResult = STATUS_UNDEFINED \<and> DM_ENG_Parameter_isHidden p \<and> entity \<noteq> ENTITY_SYSTEM)
       then ret (DM_ENG_INVALID_PARAMETER_NAME, out)
       else if entity = ENTITY_SYSTEM
       then do { updateSystemValue (notify_of x) name val True; ret (0, out) }
       else if \<not> p_writable p \<or> \<not> DM_ENG_EntityType_belongsTo entities entity (acl_list (p_accessList p))
       then ret (DM_ENG_READ_ONLY_PARAMETER, out)
       else if DM_ENG_Parameter_isBeingEvaluated p
       then do {
         upd_param name (\<lambda>p. (DM_ENG_Parameter_unmarkBeingEvaluated p, True));
         ret (DM_ENG_INTERNAL_ERROR, out) }
       else do {
         upd_param name (\<lambda>p. (DM_ENG_Parameter_markBeingEvaluated p, True));
         (res, pData') \<leftarrow> setParameterValue_one x name val pData;
         (res', out') \<leftarrow>
           (case redirection p name of
              Some nextName \<Rightarrow>
                if res = 0 then setParameterValue_rec k x entity nextName val (status_of p, Some name, Null)
                else ret (res, status_of p, Some name, pData')
            | None \<Rightarrow> ret (res, status_of p, Some name, pData'));
         upd_param name (\<lambda>p. (DM_ENG_Parameter_unmarkBeingEvaluated p, True));
         ret (res', out') } })"

definition setParameterValue :: "'w env \<Rightarrow> nat \<Rightarrow> string \<Rightarrow> cstr \<Rightarrow> ('w, int \<times> int \<times> string option \<times> cstr) m" where
  "setParameterValue x entity name val =
     setParameterValue_rec (x_fuel x) x entity name val (STATUS_UNDEFINED, None, Null)"

definition setParameterKey :: "'w env \<Rightarrow> cstr \<Rightarrow> ('w, unit) m" where
  "setParameterKey x parameterKey =
     (if parameterKey = Null then ret ()
      else do {
        _ \<leftarrow> setParameterValue_one x DM_ENG_PARAMETER_KEY_NAME parameterKey Null;
        calls \<leftarrow> on_param DM_ENG_PARAMETER_KEY_NAME (\<lambda>p. case DM_ENG_Parameter_commit p of (p', cs) \<Rightarrow> (cs, p', True)) [];
        notify_all (notify_of x) calls })"

section \<open>Commit and cancellation\<close>

text \<open>The objects whose diagnostics are requested or changed, in the order of the first request.\<close>

fun request_diagnostics :: "string \<Rightarrow> bool \<Rightarrow> (string \<times> bool) list \<Rightarrow> (string \<times> bool) list" where
  "request_diagnostics obj requested [] = [(obj, requested)]"
| "request_diagnostics obj requested ((o', r) # l) =
     (if o' = obj then (o', r \<or> requested) # l else (o', r) # request_diagnostics obj requested l)"

definition dot_before :: "string \<Rightarrow> nat \<Rightarrow> nat" where
  "dot_before n k = scan_back (\<lambda>c. c \<noteq> CHR ''.'') n k"

text \<open>The object of statistics that a parameter controls: its own object, or the one above.\<close>

definition statistics_object :: "(string \<Rightarrow> param option) \<Rightarrow> string \<Rightarrow> string option" where
  "statistics_object known name =
     (let k = dot_before name (length name - 1); obj = take (Suc k) name;
          stat = (\<lambda>n. case known n of Some p \<Rightarrow> p_type p = PT_STATISTICS | None \<Rightarrow> False)
      in if k = 0 then None
         else if stat obj then Some obj
         else let k' = dot_before name (k - 1); obj' = take (Suc k') name
              in if k' = 0 then None
                 else if stat obj' then Some obj' else None)"

definition commit_effects :: "'w env \<Rightarrow> string \<Rightarrow> cstr \<Rightarrow> ('w, unit) m" where
  "commit_effects x name val =
     (case DM_ENG_Parameter_isDiagnosticsParameter name of
        Some obj \<Rightarrow> do {
          (if DM_ENG_Parameter_isDiagnosticsState name \<and> val = Null then fail (UB NullDeref) else ret ());
          on_mgr (\<lambda>g. g\<lparr> m_diagnosticsRequested := request_diagnostics obj
            (DM_ENG_Parameter_isDiagnosticsState name \<and> ctext val = DM_ENG_REQUESTED_STATE) (m_diagnosticsRequested g) \<rparr>) }
      | None \<Rightarrow>
          if name = DM_ENG_PERIODIC_INFORM_ENABLE_NAME \<or> name = DM_ENG_PERIODIC_INFORM_INTERVAL_NAME \<or>
             name = DM_ENG_PERIODIC_INFORM_TIME_NAME
          then on_mgr (\<lambda>g. g\<lparr> m_periodicInformChanged := True \<rparr>)
          else if name = DM_TR106_ACS_URL
          then do { on_mgr (\<lambda>g. g\<lparr> m_acsParametersToUpdate := True \<rparr>); bootstrapInform }
          else if name = DM_TR106_ACS_USERNAME \<or> name = DM_TR106_ACS_PASSWORD
          then on_mgr (\<lambda>g. g\<lparr> m_acsParametersToUpdate := True \<rparr>)
          else do {
            st \<leftarrow> gets (\<lambda>e. statistics_object (getParameter (store_of e)) name);
            case st of None \<Rightarrow> ret () | Some obj \<Rightarrow> emit (StatisticsPerformSetting obj name) })"

fun commitParameter_rec :: "nat \<Rightarrow> 'w env \<Rightarrow> string \<Rightarrow> ('w, unit) m" where
  "commitParameter_rec 0 x name = fail OutOfFuel"
| "commitParameter_rec (Suc k) x name = do {
     po \<leftarrow> lookup name;
     case po of
       None \<Rightarrow> ret ()
     | Some p \<Rightarrow>
       if DM_ENG_Parameter_isNode (p_name p) then ret ()
       else do {
         calls \<leftarrow> on_param name (\<lambda>p. case DM_ENG_Parameter_commit p of (p', cs) \<Rightarrow> (cs, p', True)) [];
         notify_all (notify_of x) calls;
         commit_effects x name (p_value p);
         case redirection p name of
           None \<Rightarrow> ret ()
         | Some nextName \<Rightarrow> commitParameter_rec k x nextName } }"

definition commitParameter :: "'w env \<Rightarrow> string \<Rightarrow> ('w, unit) m" where
  "commitParameter x name = commitParameter_rec (x_fuel x) x name"

text \<open>A change that is cancelled is no longer requested: redirections in a circle end.\<close>

fun unsetParameter_rec :: "nat \<Rightarrow> string \<Rightarrow> ('w, unit) m" where
  "unsetParameter_rec 0 name = fail OutOfFuel"
| "unsetParameter_rec (Suc k) name = do {
     po \<leftarrow> lookup name;
     case po of
       None \<Rightarrow> ret ()
     | Some p \<Rightarrow>
       if DM_ENG_Parameter_isNode (p_name p) then ret ()
       else do {
         cancelled \<leftarrow> on_param name (\<lambda>p. case DM_ENG_Parameter_cancelChange p of (b, p') \<Rightarrow> (b, p', b)) False;
         (if cancelled then
            (case redirection p name of
               None \<Rightarrow> ret ()
             | Some nextName \<Rightarrow> unsetParameter_rec k nextName)
          else ret ()) } }"

definition unsetParameter :: "'w env \<Rightarrow> string \<Rightarrow> ('w, unit) m" where
  "unsetParameter x name = unsetParameter_rec (x_fuel x) name"

definition cancelNotCommittedChanges :: "('w, unit) m" where
  "cancelNotCommittedChanges = each_param (\<lambda>p. case DM_ENG_Parameter_cancelChange p of (b, p') \<Rightarrow> (p', b))"

section \<open>Objects\<close>

definition getMandatoryParameters :: "('w, string list) m" where
  "getMandatoryParameters = do {
     update (\<lambda>e. e\<lparr> e_cursor := None \<rparr>);
     gets (\<lambda>e. map p_name (filter p_mandatoryNotification (parameters (store_of e)))) }"

definition isInformParameter :: "store \<Rightarrow> string \<Rightarrow> bool" where
  "isInformParameter s name \<longleftrightarrow>
     (case getParameter s name of
        None \<Rightarrow> False
      | Some p \<Rightarrow> p_mandatoryNotification p \<or> p_notification p = NM_PASSIVE \<or> p_notification p = NM_ACTIVE)"

text \<open>The results are the code, the instance number and the status.\<close>

definition mgr_addObject :: "'w env \<Rightarrow> nat \<Rightarrow> string \<Rightarrow> ('w, int \<times> 32 word \<times> int) m" where
  "mgr_addObject x entity objectName = do {
     po \<leftarrow> lookup objectName;
     case po of
       None \<Rightarrow> ret (DM_ENG_INVALID_PARAMETER_NAME, 0, STATUS_UNDEFINED)
     | Some p \<Rightarrow>
       if \<not> DM_ENG_Parameter_isNode (p_name p) then ret (DM_ENG_INVALID_PARAMETER_NAME, 0, STATUS_UNDEFINED)
       else if \<not> p_writable p then ret (DM_ENG_REQUEST_DENIED, 0, STATUS_UNDEFINED)
       else do {
         (res, n) \<leftarrow>
           (if p_storageMode p = DM_ONLY then
              (if unat (p_minValue p) \<ge> nat INT_MAX then ret (DM_ENG_RESOURCES_EXCEEDED, 0)
               else do {
                 calls \<leftarrow> on_param objectName
                   (\<lambda>p. case DM_ENG_Parameter_commit (p\<lparr> p_minValue := p_minValue p + 1 \<rparr>) of (p', cs) \<Rightarrow> (cs, p', True)) [];
                 notify_all (notify_of x) calls;
                 ret (0, p_minValue p + 1) })
            else if entity \<noteq> ENTITY_SYSTEM then outside (x_addObject x objectName)
            else ret (DM_ENG_REQUEST_DENIED, 0));
         if res \<noteq> 0 then ret (res, n, status_of p)
         else do {
           updateValue (notify_of x) objectName Null True;
           qo \<leftarrow> lookup objectName;
           (case qo of
              None \<Rightarrow> fail (UB NullDeref)
            | Some q \<Rightarrow> on_store_ub (createInstance q n));
           relocateInstances objectName n;
           ret (0, n, status_of p) } } }"

text \<open>
  The object and the number of an instance name.  \<open>k\<close> is the position of the last dot but one, and
  the number is what \<open>strtoul\<close> reads after it.
\<close>

definition instance_of :: "string \<Rightarrow> (string \<times> 32 word) option" where
  "instance_of objectName =
     (let k = dot_before objectName (length objectName - 3)
      in if length objectName \<le> 3 \<or> k = 0 then None
         else case strtoul (drop (Suc k) objectName) of
                None \<Rightarrow> None
              | Some (l, _) \<Rightarrow> if l > UINT_MAX then None else Some (take (Suc k) objectName, of_nat l))"

definition mgr_deleteObject :: "'w env \<Rightarrow> nat \<Rightarrow> string \<Rightarrow> ('w, int \<times> int) m" where
  "mgr_deleteObject x entity objectName = do {
     po \<leftarrow> lookup objectName;
     (case (po, instance_of objectName) of
        (Some p, Some (protoName, n)) \<Rightarrow>
          if \<not> DM_ENG_Parameter_isNode (p_name p) then ret (DM_ENG_INVALID_PARAMETER_NAME, STATUS_UNDEFINED)
          else do {
            qo \<leftarrow> lookup protoName;
            case qo of
              None \<Rightarrow> ret (DM_ENG_INVALID_PARAMETER_NAME, STATUS_UNDEFINED)
            | Some proto \<Rightarrow>
              if \<not> DM_ENG_Parameter_isNode (p_name proto) then ret (DM_ENG_INVALID_PARAMETER_NAME, STATUS_UNDEFINED)
              else if \<not> p_writable proto then ret (DM_ENG_REQUEST_DENIED, STATUS_UNDEFINED)
              else do {
                res \<leftarrow> (if p_storageMode proto \<noteq> DM_ONLY \<and> entity \<noteq> ENTITY_SYSTEM
                       then outside (x_deleteObject x (p_name proto) n) else ret 0);
                (if res = 0 \<or> res = DM_ENG_INVALID_PARAMETER_NAME then do {
                   updateValue (notify_of x) protoName Null True;
                   on_store (deleteObject objectName) }
                 else ret ());
                ret (res, status_of proto) } }
      | _ \<Rightarrow> ret (DM_ENG_INVALID_PARAMETER_NAME, STATUS_UNDEFINED)) }"

text \<open>
  The results of diagnostics: the parameters that the system wrote and, unless diagnostics are
  requested, the state are reset; the instances of results are deleted.
\<close>

definition razDiagnosticsResult :: "string \<Rightarrow> bool \<Rightarrow> ('w, unit) m" where
  "razDiagnosticsResult objName requested =
     (let below = (\<lambda>p. length (p_name p) > length objName \<and> prefixb objName (p_name p)) in do {
        on_store (prune
          (\<lambda>p. if below p \<and> DM_ENG_Parameter_isValuable (p_name p) \<and>
                  (if DM_ENG_Parameter_isDiagnosticsState (p_name p) then \<not> requested else \<not> p_writable p)
               then (DM_ENG_Parameter_resetValue p, False) else (p, False))
          (\<lambda>p. below p \<and> \<not> DM_ENG_Parameter_isValuable (p_name p) \<and> DM_ENG_Parameter_isNodeInstance (p_name p)));
        update (\<lambda>e. e\<lparr> e_cursor := None \<rparr>) })"

end
