(* ===== verification/MgrSetProps.thy ===== *)
theory MgrSetProps
  imports MgrSet
begin

text \<open>
  The properties of the changes that \<open>DM_ENG_ParameterManager.c\<close> makes to the data model: which
  parameters remain when an object is loaded, that redirections in a circle end, and the numbers of
  the instances.
\<close>

section \<open>Instances that the device no longer has\<close>

lemma pass_until_names:
  assumes "\<And>p. p_name (fst (f p)) = p_name p"
  shows "map p_name (parameters (pass_until f obs s)) = map p_name (parameters s)"
proof -
  have "map p_name (parameters (pass_until f obs s))
      = map p_name (takeWhile (\<lambda>p. \<not> obs p) (parameters s) @
          drop (length (takeWhile (\<lambda>p. \<not> obs p) (parameters s))) (parameters s))"
    by (simp add: pass_until_def Let_def assms)
  also have "takeWhile (\<lambda>p. \<not> obs p) (parameters s) @
          drop (length (takeWhile (\<lambda>p. \<not> obs p) (parameters s))) (parameters s) = parameters s"
    by (metis dropWhile_eq_drop takeWhile_dropWhile_id)
  finally show ?thesis .
qed

lemma prune_names:
  assumes f: "\<And>p. p_name (fst (f p)) = p_name p"
  shows "map p_name (parameters (prune f (\<lambda>p. obs (p_name p)) s)) =
    filter (\<lambda>n. \<not> (\<exists>q\<in>set (map p_name (parameters s)). obs q \<and> prefixb q n)) (map p_name (parameters s))"
proof (induction "length (parameters s)" arbitrary: s rule: less_induct)
  case less
  define s' where "s' = pass_until f (\<lambda>p. obs (p_name p)) s"
  have n: "map p_name (parameters s') = map p_name (parameters s)"
    unfolding s'_def by (rule pass_until_names [OF f])
  show ?case
  proof (cases "find (\<lambda>p. obs (p_name p)) (parameters s')")
    case None
    then have "\<not> obs q" if "q \<in> set (map p_name (parameters s))" for q
      using that unfolding n [symmetric] by (auto simp: find_None_iff)
    then show ?thesis using None by (simp add: prune.simps [of f _ s] s'_def [symmetric] Let_def n cong: filter_cong)
  next
    case (Some p)
    then have p: "p \<in> set (parameters s')" "obs (p_name p)" by (auto simp: find_Some_iff)
    define s1 where "s1 = deleteObject (p_name p) s'"
    have n1: "map p_name (parameters s1) = filter (\<lambda>n. \<not> prefixb (p_name p) n) (map p_name (parameters s))"
      unfolding s1_def deleteObject_parameters n [symmetric] by (simp add: filter_map o_def)
    have pin: "p_name p \<in> set (map p_name (parameters s))" using p(1) unfolding n [symmetric] by simp
    have "prefixb (p_name p) (p_name p)" using prefixb_append [of "p_name p" "[]"] by simp
    then have "length (map p_name (parameters s1)) < length (map p_name (parameters s))"
      unfolding n1 using pin by (intro length_filter_less) auto
    then have IH: "map p_name (parameters (prune f (\<lambda>p. obs (p_name p)) s1)) =
        filter (\<lambda>n. \<not> (\<exists>q\<in>set (map p_name (parameters s1)). obs q \<and> prefixb q n)) (map p_name (parameters s1))"
      using less [of s1] by simp
    have eq: "prune f (\<lambda>p. obs (p_name p)) s = prune f (\<lambda>p. obs (p_name p)) s1"
      using Some by (simp add: prune.simps [of f _ s] s'_def [symmetric] Let_def s1_def)
    moreover have "(\<exists>q\<in>set (map p_name (parameters s1)). obs q \<and> prefixb q m) =
        (\<exists>q\<in>set (map p_name (parameters s)). obs q \<and> prefixb q m)"
      if "\<not> prefixb (p_name p) m" for m
      unfolding n1 using that prefixb_trans by auto
    moreover have "\<not> (\<exists>q\<in>set (map p_name (parameters s)). obs q \<and> prefixb q m)
        \<Longrightarrow> \<not> prefixb (p_name p) m" for m
      using pin p(2) by blast
    ultimately show ?thesis unfolding eq IH unfolding n1 filter_filter
      by (intro filter_cong refl) blast
  qed
qed

definition unknown_instance :: "string \<Rightarrow> string list \<Rightarrow> string \<Rightarrow> bool" where
  "unknown_instance name names n \<longleftrightarrow> length n > length name \<and> prefixb name n \<and> DM_ENG_Parameter_isNodeInstance n \<and>
     \<not> strstrb n ''..'' \<and> \<not> (\<exists>m\<in>set names. prefixb n m)"

text \<open>
  After the names or the values of an object were obtained from the device, exactly the parameters
  remain that do not belong to an instance below the object that the device does not know.
\<close>

theorem markInstancesLoaded_names:
  "map p_name (parameters (store_of (snd (run_state (markInstancesLoaded name names withValues) e)))) =
    filter (\<lambda>n. \<not> (\<exists>q\<in>set (map p_name (parameters (store_of e))). unknown_instance name names q \<and> prefixb q n))
      (map p_name (parameters (store_of e)))"
proof -
  have node: "DM_ENG_Parameter_isNodeInstance n \<Longrightarrow> DM_ENG_Parameter_isNode n" for n
    by (auto simp: DM_ENG_Parameter_isNodeInstance_def DM_ENG_Parameter_isNode_def)
  have obs: "obsolete name names = (\<lambda>p. unknown_instance name names (p_name p))"
    using node by (fastforce simp: obsolete_def unknown_instance_def below_node_def referenced_def)
  have f: "p_name (fst (if b then DM_ENG_Parameter_markLoaded p withValues else (p, False))) = p_name p" for b p
    by (simp add: DM_ENG_Parameter_markLoaded_def Let_def)
  show ?thesis
    using prune_names [of "\<lambda>p. if below_node name p \<and> referenced names p then DM_ENG_Parameter_markLoaded p withValues else (p, False)"
        "unknown_instance name names" "store_of e", OF f]
    by (simp add: markInstancesLoaded_def markInstancesLoaded_store_def obs)
qed

section \<open>Redirections\<close>

text \<open>The parameters on which a recursion has still to mark its way.\<close>

definition not_yet :: "(pstate \<Rightarrow> bool) \<Rightarrow> store \<Rightarrow> nat" where
  "not_yet flag s = length (filter (\<lambda>p. \<not> flag (p_state p)) (parameters s))"

text \<open>The value of a computed parameter is set without a word to the device.\<close>

lemma set_one_computed:
  assumes "getParameter (store_of e) n = Some p" "p_storageMode p = COMPUTED"
  shows "not_yet BEING_EVALUATED (store_of (snd (run_state (setParameterValue_one x n v d) e)))
    = not_yet BEING_EVALUATED (store_of e)"
proof -
  have "length (filter P (upd_name n (\<lambda>_. q) (parameters (store_of e)))) = length (filter P (parameters (store_of e)))"
    if "P q = P p" for P q
    using filter_upd_name [of n "parameters (store_of e)" p P q] assms(1) that by (simp add: getParameter_def)
  then show ?thesis using assms find_name [OF assms(1)]
    by (simp add: setParameterValue_one_def run_on_param lookup_def loadSystemParameter_value_def case_prod_beta upd_name_id
      not_yet_def DM_ENG_Parameter_setValue_def Let_def)
qed

lemma setParameterValue_fuel:
  assumes "not_yet BEING_EVALUATED (store_of e) < k" "not_yet BEING_EVALUATED (store_of e) < k'"
  shows "run_state (setParameterValue_rec k x entity name v out) e = run_state (setParameterValue_rec k' x entity name v out) e"
  using assms
proof (induction k arbitrary: k' e name out)
  case (Suc k)
  obtain j where j: "k' = Suc j" using Suc.prems by (cases k') auto
  obtain pr ps pd where out: "out = (pr, ps, pd)" by (cases out)
  show ?case
  proof (cases "getParameter (store_of e) name")
    case (Some p)
    show ?thesis
    proof (cases "DM_ENG_Parameter_isBeingEvaluated p")
      case False
      define e1 where "e1 = snd (run_state (upd_param name (\<lambda>p. (DM_ENG_Parameter_markBeingEvaluated p, True))) e)"
      define e2 where "e2 = snd (run_state (setParameterValue_one x name v pd) e1)"
      define q where "q = DM_ENG_Parameter_markBeingEvaluated p"
      have nm: "p_name p = name" by (rule find_name [OF Some])
      have q: "p_name q = name" "p_storageMode q = p_storageMode p" "BEING_EVALUATED (p_state q)"
        by (simp_all add: q_def DM_ENG_Parameter_markBeingEvaluated_def nm)
      have e1: "parameters (store_of e1) = upd_name name (\<lambda>_. q) (parameters (store_of e))"
        using Some by (simp add: e1_def run_upd_param q_def)
      then have g: "getParameter (store_of e1) name = Some q"
        using find_upd_name [OF q(1), of "parameters (store_of e)" p name] Some by (simp add: getParameter_def)
      have "not_yet BEING_EVALUATED (store_of e1) < not_yet BEING_EVALUATED (store_of e)"
        using filter_upd_name [of name "parameters (store_of e)" p "\<lambda>p. \<not> BEING_EVALUATED (p_state p)" q] Some q(3) False
        by (simp add: getParameter_def not_yet_def e1 DM_ENG_Parameter_isBeingEvaluated_def)
      then have less: "not_yet BEING_EVALUATED (store_of e2) < not_yet BEING_EVALUATED (store_of e)"
        if "p_storageMode p = COMPUTED"
        using set_one_computed [OF g] that q(2) by (simp add: e2_def)
      have H: "run_state (setParameterValue_rec k x entity nn v o') e2 = run_state (setParameterValue_rec j x entity nn v o') e2"
        if "redirection p name = Some nn" for nn o'
      proof -
        have "p_storageMode p = COMPUTED" using that by (auto simp: redirection_def split: if_splits)
        then show ?thesis using less Suc.prems j by (intro Suc.IH) auto
      qed
      show ?thesis
      proof (cases "redirection p name")
        case None
        then show ?thesis using Some out j by (simp add: lookup_def)
      next
        case (Some nn)
        note H' = H [OF Some, unfolded e2_def e1_def]
        show ?thesis using \<open>getParameter (store_of e) name = Some p\<close> Some out j H' False
          by (simp add: lookup_def case_prod_beta)
      qed
    qed (use Some out j in \<open>simp add: lookup_def\<close>)
  qed (use out j in \<open>simp add: lookup_def\<close>)
qed simp


text \<open>
  C28: Setting a value through redirections ends: a parameter that is being set is not set again, so
  that a depth above the number of parameters gives the same result as any greater one.
\<close>

theorem setParameterValue_ends:
  assumes "length (parameters (store_of e)) < k" "length (parameters (store_of e)) < x_fuel x"
  shows "run_state (setParameterValue x entity name v) e
    = run_state (setParameterValue_rec k x entity name v (STATUS_UNDEFINED, None, Null)) e"
proof -
  have "not_yet BEING_EVALUATED (store_of e) \<le> length (parameters (store_of e))"
    by (simp add: not_yet_def)
  then show ?thesis unfolding setParameterValue_def using assms by (intro setParameterValue_fuel) simp_all
qed

text \<open>Two writable computed parameters that redirect to each other.\<close>

definition loop_param :: "string \<Rightarrow> string \<Rightarrow> param" where
  "loop_param n d = (DM_ENG_newDefinedParameter n PT_STRING (Str d) False)\<lparr> p_storageMode := COMPUTED, p_writable := True,
     p_minValue := - 1 \<rparr>"

definition loop_engine :: "unit engine" where
  "loop_engine = (engine_init ())\<lparr> e_data := data_init\<lparr> d_store := \<lparr> parameters =
     [loop_param ''Device.a'' ''Device.b'', loop_param ''Device.b'' ''Device.a''], nbParameters = 2, dataChanged = False \<rparr> \<rparr> \<rparr>"

theorem setParameterValue_ends_witness:
  "run_state (setParameterValue demo_env ENTITY_ACS ''Device.a'' (Str ''v'')) loop_engine
    = run_state (setParameterValue_rec 3 demo_env ENTITY_ACS ''Device.a'' (Str ''v'') (STATUS_UNDEFINED, None, Null)) loop_engine"
  by (rule setParameterValue_ends) (simp_all add: loop_engine_def demo_env_def)

text \<open>Unlike it, the commit of such a circle does not end; it is reached only after a successful set.\<close>

lemma unset_fuel:
  assumes "length (filter (\<lambda>p. CHANGE_REQUESTED (p_state p)) (parameters (store_of e))) < k"
  shows "e_fault (snd (run_state (unsetParameter_rec k name) e)) = e_fault e"
  using assms
proof (induction k arbitrary: e name)
  case (Suc k)
  show ?case
  proof (cases "getParameter (store_of e) name")
    case (Some p)
    define e1 where "e1 = snd (run_state (on_param name (\<lambda>p. case DM_ENG_Parameter_cancelChange p of (b, p') \<Rightarrow> (b, p', b)) False) e)"
    have f1: "e_fault e1 = e_fault e"
      using Some by (simp add: e1_def run_on_param split: prod.split)
    have "e_fault (snd (run_state (unsetParameter_rec k nn) e1)) = e_fault e1" if "CHANGE_REQUESTED (p_state p)" for nn
    proof (rule Suc.IH)
      define q where "q = p\<lparr> p_value := p_backValue p, p_backValue := Null, p_state := INITIAL \<rparr>"
      have "parameters (store_of e1) = upd_name name (\<lambda>_. q) (parameters (store_of e))"
        using Some that by (simp add: e1_def run_on_param DM_ENG_Parameter_cancelChange_def q_def)
      then show "length (filter (\<lambda>p. CHANGE_REQUESTED (p_state p)) (parameters (store_of e1))) < k"
        using filter_upd_name [of name "parameters (store_of e)" p "\<lambda>p. CHANGE_REQUESTED (p_state p)" q] Some that Suc.prems
        by (simp add: getParameter_def q_def INITIAL_def)
    qed
    then show ?thesis using Some f1
      by (auto simp: lookup_def case_prod_beta e1_def run_on_param DM_ENG_Parameter_cancelChange_def split: option.split)
  qed (simp add: lookup_def)
qed simp

text \<open>
  Cancelling a change through redirections ends without a fault: every step takes back a
  requested change.
\<close>

theorem unsetParameter_ends:
  assumes "length (parameters (store_of e)) < x_fuel x"
  shows "e_fault (snd (run_state (unsetParameter x name) e)) = e_fault e"
proof -
  have "length (filter (\<lambda>p. CHANGE_REQUESTED (p_state p)) (parameters (store_of e))) < x_fuel x"
    using assms by (rule le_less_trans [OF length_filter_le])
  then show ?thesis unfolding unsetParameter_def by (rule unset_fuel)
qed

theorem unsetParameter_ends_witness:
  "e_fault (snd (run_state (unsetParameter demo_env ''Device.a'') loop_engine)) = None"
proof -
  have "e_fault loop_engine = None" by (simp add: loop_engine_def engine_init_def)
  then show ?thesis using unsetParameter_ends [of loop_engine demo_env "''Device.a''"]
    by (simp add: loop_engine_def demo_env_def)
qed

section \<open>Instance numbers\<close>

lemma getParameter_puts:
  "\<forall>p\<in>set l. p_name p \<noteq> m \<Longrightarrow> getParameter (foldl (\<lambda>s p. putParameter p s) s l) m = getParameter s m"
  by (induction l arbitrary: s) (auto simp: getParameter_def putParameter_def find_put_list)

lemma getParameter_create_self:
  assumes "createInstance p n s = Inr s'"
  shows "getParameter s' (p_name p) = getParameter s (p_name p)"
proof -
  have "p_name q \<noteq> p_name p" if "q \<in> set (instances p n (parameters s))" for q
    using that by (auto simp: instances_def inst_name_def DM_ENG_newInstanceParameter_def)
  then show ?thesis using assms getParameter_puts [of "instances p n (parameters s)" "p_name p" s]
    by (auto simp: createInstance_def Let_def getParameter_def split: if_splits)
qed

lemma find_map_same:
  "(\<And>p. p_name (f p) = p_name p) \<Longrightarrow> find (\<lambda>p. p_name p = n) (map f ps) = map_option f (find (\<lambda>p. p_name p = n) ps)"
  by (induction ps) auto

lemma getParameter_relocate:
  "map_option p_minValue (getParameter (store_of (snd (run_state (relocateInstances obj n) e))) m)
    = map_option p_minValue (getParameter (store_of e) m)"
proof -
  have "map_option p_minValue (map_option (\<lambda>p. fst (f p)) o') = map_option p_minValue o'"
    if "\<And>p. p_minValue (fst (f p)) = p_minValue p" for f :: "param \<Rightarrow> param \<times> bool" and o'
    using that by (cases o') simp_all
  then show ?thesis
    by (simp add: relocateInstances_def each_param_def getParameter_def Let_def find_map_same o_def split: option.split)
qed

lemma node_not_state: "DM_ENG_Parameter_isNode n \<Longrightarrow> \<not> DM_ENG_Parameter_isDiagnosticsState n"
proof
  assume a: "DM_ENG_Parameter_isNode n" "DM_ENG_Parameter_isDiagnosticsState n"
  then obtain u where "n = u @ DM_ENG_DIAGNOSTICS_STATE_SUFFIX"
    unfolding DM_ENG_Parameter_isDiagnosticsState_def suffixb_def by (metis append_take_drop_id)
  with a(1) show False by (simp add: DM_ENG_Parameter_isNode_def DM_ENG_DIAGNOSTICS_STATE_SUFFIX_def)
qed

lemma node_quiet:
  "DM_ENG_Parameter_isNode (p_name p) \<Longrightarrow> snd (DM_ENG_Parameter_commit p) = []"
  using node_not_state [of "p_name p"]
  by (auto simp: DM_ENG_Parameter_commit_def Let_def DM_ENG_Parameter_isNode_def DM_ENG_Parameter_isValuable_def
      DM_ENG_DEVICE_STATUS_PARAMETER_NAME_def)

text \<open>
  C29: An object created by request gets the number after the last one given, which the object
  remembers: a number is never given twice.
\<close>

theorem addObject_number:
  assumes "getParameter (store_of e) obj = Some p" "DM_ENG_Parameter_isNode (p_name p)" "p_writable p"
    "p_storageMode p = DM_ONLY" "uint (p_minValue p) < INT_MAX"
  shows "fst (run_state (mgr_addObject x entity obj) e) = (0, p_minValue p + 1, status_of p) \<and>
    map_option p_minValue (getParameter (store_of (snd (run_state (mgr_addObject x entity obj) e))) obj) = Some (p_minValue p + 1) \<and>
    p_minValue p < p_minValue p + 1"
proof -
  have nm: "p_name p = obj" by (rule find_name [OF assms(1)])
  have "nat (uint (p_minValue p)) < nat INT_MAX"
    using assms(5) by (simp only: nat_less_eq_zless uint_ge_0)
  then have small: "\<not> nat INT_MAX \<le> unat (p_minValue p)" by (simp only: unat_eq_nat_uint not_le)
  define p1 where "p1 = fst (DM_ENG_Parameter_commit (p\<lparr> p_minValue := p_minValue p + 1 \<rparr>))"
  have c1: "DM_ENG_Parameter_commit (p\<lparr> p_minValue := p_minValue p + 1 \<rparr>) = (p1, [])"
    by (rule prod_eqI) (simp_all add: p1_def node_quiet assms(2))
  have p1: "p_name p1 = obj" "p_minValue p1 = p_minValue p + 1"
    by (simp_all add: p1_def DM_ENG_Parameter_commit_def Let_def nm)
  define p2 where "p2 = fst (DM_ENG_Parameter_updateValue p1 Null True)"
  have c2: "DM_ENG_Parameter_updateValue p1 Null True = (p2, [])"
    by (rule prod_eqI) (simp_all add: p2_def DM_ENG_Parameter_updateValue_def node_quiet p1(1) assms(2) [unfolded nm])
  have p2: "p_name p2 = obj" "p_minValue p2 = p_minValue p + 1"
    by (simp_all add: p2_def DM_ENG_Parameter_updateValue_def DM_ENG_Parameter_commit_def Let_def p1)
  define e1 where "e1 = snd (run_state (on_param obj (\<lambda>p. case DM_ENG_Parameter_commit (p\<lparr> p_minValue := p_minValue p + 1 \<rparr>) of
      (p', cs) \<Rightarrow> (cs, p', True)) []) e)"
  define e2 where "e2 = snd (run_state (updateValue (notify_of x) obj Null True) e1)"
  have g1: "getParameter (store_of e1) obj = Some p1"
    using assms(1) c1 find_upd_name [OF p1(1), of "parameters (store_of e)" p obj]
    by (simp add: e1_def run_on_param getParameter_def)
  have g2: "getParameter (store_of e2) obj = Some p2"
    using g1 c2 find_upd_name [OF p2(1), of "parameters (store_of e1)" p1 obj]
    by (simp add: e2_def updateValue_def run_on_param getParameter_def)
  define e3 where "e3 = snd (run_state (on_store_ub (createInstance p2 (p_minValue p + 1)) :: (_, unit) m) e2)"
  have g3: "getParameter (store_of e3) obj = Some p2"
    using g2 getParameter_create_self [of p2 "p_minValue p + 1" "store_of e2"] p2(1)
    by (cases "createInstance p2 (p_minValue p + 1) (store_of e2)") (auto simp: e3_def on_store_ub_def on_data_def)
  have "run_state (mgr_addObject x entity obj) e =
     ((0, p_minValue p + 1, status_of p), snd (run_state (relocateInstances obj (p_minValue p + 1)) e3))"
    using assms small c1 g2 by (simp add: mgr_addObject_def lookup_def case_prod_beta run_on_param e1_def e2_def e3_def)
  moreover have "p_minValue p < p_minValue p + 1"
    using assms(5) by (simp add: word_less_def uint_plus_if' INT_MAX_def)
  ultimately show ?thesis using g3 p2(2) by (simp add: getParameter_relocate)
qed

definition demo_object :: param where
  "demo_object = (DM_ENG_newDefinedParameter ''Device.Y.'' PT_ANY Null False)\<lparr> p_writable := True, p_minValue := 7 \<rparr>"

definition object_engine :: "unit engine" where
  "object_engine = (engine_init ())\<lparr> e_data := data_init\<lparr> d_store :=
     \<lparr> parameters = [demo_object], nbParameters = 1, dataChanged = False \<rparr> \<rparr> \<rparr>"

theorem addObject_number_witness:
  "fst (run_state (mgr_addObject demo_env ENTITY_ACS ''Device.Y.'') object_engine) = (0, 8, STATUS_READY_TO_APPLY)"
proof -
  have "getParameter (store_of object_engine) ''Device.Y.'' = Some demo_object"
    by (simp add: object_engine_def getParameter_def demo_object_def DM_ENG_newDefinedParameter_def)
  then show ?thesis using addObject_number [of object_engine "''Device.Y.''" demo_object demo_env ENTITY_ACS]
    by (simp add: demo_object_def DM_ENG_newDefinedParameter_def INT_MAX_def status_of_def DM_ENG_Parameter_isNode_def)
qed

end
