(* ===== verification/MgrNotify.thy ===== *)
theory MgrNotify
  imports MgrSet
begin

text \<open>
  \<open>dm_engine/src/DM_ENG_ParameterManager.c\<close>, the lock and the notifications of the system: a notification
  is processed at once when the parameters are free, and waits in a queue until they are unlocked
  otherwise.  With them the initialisation and the release of the engine.

  The mutexes of the code make an operation one step; the lock proper is the lock file, so that
  another process can hold it.  Waiting for it is the fault \<open>Waiting\<close>.
\<close>

section \<open>The lock\<close>

definition tryLock :: "('w, bool) m" where
  "tryLock = on_data ParameterData_tryLock False"

definition lockDM :: "('w, unit) m" where
  "lockDM = do { b \<leftarrow> tryLock; if b then ret () else fail Waiting }"

definition mgr_lock :: "'w env \<Rightarrow> ('w, unit) m" where
  "mgr_lock x = do {
     opened \<leftarrow> gets (\<lambda>e. m_open (e_mgr e));
     if opened then do {
       lockDM;
       update (\<lambda>e. e\<lparr> e_world := x_openSession x (e_world e) \<rparr>);
       on_mgr (\<lambda>g. g\<lparr> m_inSession := True \<rparr>) }
     else ret () }"

section \<open>Notifications\<close>

text \<open>
  The value is compared with the one of the device.  NULL from the device becomes the constant empty
  string, which is freed at the end.
\<close>

definition checkValueChange :: "'w env \<Rightarrow> string \<Rightarrow> ('w, bool) m" where
  "checkValueChange x n = do {
     po \<leftarrow> lookup n;
     case po of
       None \<Rightarrow> do { fail (UB NullDeref); ret False }
     | Some p \<Rightarrow>
       if \<not> DM_ENG_Parameter_isValuable (p_name p) then ret False
       else if p_value p = Null then do { updateValue (notify_of x) n Null True; ret True }
       else if p_storageMode p = DM_ONLY then ret False
       else do {
         d \<leftarrow> systemData x (gv_of x) p;
         (codeRetour, actual) \<leftarrow> outside (x_getValue x n d);
         if codeRetour \<noteq> 0 then ret False
         else do {
           qo \<leftarrow> lookup n;
           res \<leftarrow> (case qo of
               None \<Rightarrow> do { fail (UB NullDeref); ret False }
             | Some q \<Rightarrow>
                 if p_value q = Null then do { fail (UB NullDeref); ret False }
                 else if ctext actual \<noteq> ctext (p_value q)
                 then do { updateSystemValue (notify_of x) n actual True; ret True }
                 else ret False);
           (if actual = Null then fail (UB BadFree) else ret ());
           ret res } } }"

definition processChange :: "'w env \<Rightarrow> string \<Rightarrow> ('w, unit) m" where
  "processChange x name = do {
     po \<leftarrow> lookup name;
     case po of
       None \<Rightarrow> ret ()
     | Some p \<Rightarrow> do {
         (if DM_ENG_Parameter_isNode (p_name p)
          then for_params x () (\<lambda>q _.
                 if prefixb name (p_name q) then do { _ \<leftarrow> checkValueChange x (p_name q); ret (False, ()) }
                 else ret (False, ()))
          else do { _ \<leftarrow> checkValueChange x name; ret () });
         sync } }"

definition processValueChange :: "'w env \<Rightarrow> string \<Rightarrow> cstr \<Rightarrow> ('w, unit) m" where
  "processValueChange x name val = do {
     po \<leftarrow> lookup name;
     case po of
       None \<Rightarrow> ret ()
     | Some p \<Rightarrow>
         if DM_ENG_Parameter_isNode (p_name p) then ret ()
         else do { updateSystemValue (notify_of x) name val True; sync } }"

fun create_instances :: "string list \<Rightarrow> ('w, unit) m" where
  "create_instances [] = ret ()"
| "create_instances (n # ns) = do { _ \<leftarrow> getParameter_inst n; create_instances ns }"

definition updateParameterNames :: "string \<Rightarrow> string list \<Rightarrow> ('w, unit) m" where
  "updateParameterNames name names = do {
     create_instances names;
     on_store (prune (\<lambda>p. (p, False)) (obsolete name names));
     update (\<lambda>e. e\<lparr> e_cursor := None \<rparr>) }"

text \<open>A node name in the list stands for the object that the rest of the list describes.\<close>

fun update_values :: "'w env \<Rightarrow> (string \<times> cstr) list \<Rightarrow> ('w, unit) m" where
  "update_values x [] = ret ()"
| "update_values x ((n, v) # l) =
     (if DM_ENG_Parameter_isNode n then do {
        updateObject (notify_of x) n l True;
        updateValue (notify_of x) n Null True }
      else do {
        po \<leftarrow> lookup n;
        (case po of None \<Rightarrow> ret () | Some p \<Rightarrow> updateSystemValue (notify_of x) n v True);
        update_values x l })"

definition updateParameterValues :: "'w env \<Rightarrow> (string \<times> cstr) list \<Rightarrow> ('w, unit) m" where
  "updateParameterValues x l = do { update_values x l; sync }"

text \<open>A transfer that the engine started has an identifier; the others are added to the queue.\<close>

definition processTransferCompleteResult :: "'w env \<Rightarrow> transfer \<Rightarrow> ('w, unit) m" where
  "processTransferCompleteResult x result = do {
     autonomous \<leftarrow>
       (if tr_transferId result = 0 then do { on_ctrl (insertTransferRequest result); ret True }
        else do {
          uo \<leftarrow> updateTransfer (tr_transferId result) TR_COMPLETED (tr_faultCode result) (tr_startTime result) (tr_completeTime result);
          case uo of
            None \<Rightarrow> do { fail (UB NullDeref); ret True }
          | Some updated \<Rightarrow> do {
              (if tr_faultCode updated = 0 then do {
                 code \<leftarrow> actionAfterDownload x (tr_fileType updated) (tr_targetFileName updated);
                 on_ctrl (\<lambda>c. c\<lparr> transferRequests := update_first_id (tr_transferId result)
                   (\<lambda>t. t\<lparr> tr_faultCode := word_of_int code \<rparr>) (transferRequests c) \<rparr>) }
               else ret ());
              ret (tr_commandKey updated = None) } });
     sync;
     sched_transferComplete autonomous }"

definition processRequestDownload :: "download \<Rightarrow> ('w, unit) m" where
  "processRequestDownload dr = do { on_ctrl (addDownloadRequest dr); sync; sched_requestDownload }"

fun process_notification :: "'w env \<Rightarrow> notification \<Rightarrow> ('w, unit) m" where
  "process_notification x (PATH_CHANGE name) = processChange x name"
| "process_notification x (DATA_VALUE_CHANGE name val) = processValueChange x name val"
| "process_notification x (VALUES_UPDATED l) = updateParameterValues x l"
| "process_notification x (SAMPLE_DATA obj) = emit (StatisticsProcessSample obj)"
| "process_notification x (TRANSFER_COMPLETE tr) = processTransferCompleteResult x tr"
| "process_notification x (REQUEST_DOWNLOAD dr) = processRequestDownload dr"
| "process_notification x (VENDOR_SPECIFIC_EVENT ec) = sched_vendorSpecificEvent ec"

section \<open>Unlocking\<close>

text \<open>The queue is emptied before the lock is released.\<close>

fun process_pending :: "nat \<Rightarrow> 'w env \<Rightarrow> ('w, unit) m" where
  "process_pending k x = do {
     pending \<leftarrow> gets (\<lambda>e. m_pendingChanges (e_mgr e));
     case pending of
       [] \<Rightarrow> ret ()
     | n # ns \<Rightarrow> (case k of
         0 \<Rightarrow> fail OutOfFuel
       | Suc k' \<Rightarrow> do {
           on_mgr (\<lambda>g. g\<lparr> m_pendingChanges := ns \<rparr>);
           process_notification x n;
           sync;
           process_pending k' x }) }"

declare process_pending.simps [simp del]

definition check_computed :: "'w env \<Rightarrow> ('w, unit) m" where
  "check_computed x = for_params x () (\<lambda>p _.
     if p_storageMode p = COMPUTED \<and> (\<not> DM_ENG_Parameter_isValueChanged p \<or> p_value p \<noteq> Null)
     then do { checkComputedChanged x (p_name p); resumeParameterLoopFrom (p_name p); ret (False, ()) }
     else ret (False, ()))"

fun process_diagnostics :: "(string \<times> bool) list \<Rightarrow> ('w, unit) m" where
  "process_diagnostics [] = ret ()"
| "process_diagnostics ((obj, requested) # l) = do {
     razDiagnosticsResult obj requested;
     (if requested then emit (DiagnosticsLaunch obj) else ret ());
     process_diagnostics l }"

definition unlock :: "'w env \<Rightarrow> ('w, unit) m" where
  "unlock x = do {
     g \<leftarrow> gets e_mgr;
     if \<not> m_open g then ret ()
     else do {
       (if m_periodicInformChanged g then computeNextPeriodicInformTime x else ret ());
       each_param (\<lambda>p. DM_ENG_Parameter_clearTemporaryValue p 1);
       sync;
       (if m_periodicInformChanged g then do {
          changeOnPeriodicInform;
          on_mgr (\<lambda>g. g\<lparr> m_periodicInformChanged := False \<rparr>) }
        else ret ());
       process_pending (x_fuel x) x;
       check_computed x;
       sync;
       requests \<leftarrow> gets (\<lambda>e. m_diagnosticsRequested (e_mgr e));
       process_diagnostics requests;
       on_mgr (\<lambda>g. g\<lparr> m_diagnosticsRequested := [] \<rparr>);
       acs \<leftarrow> gets (\<lambda>e. m_acsParametersToUpdate (e_mgr e));
       (if acs then do {
          updateAcsParameters x;
          on_mgr (\<lambda>g. g\<lparr> m_acsParametersToUpdate := False \<rparr>) }
        else ret ());
       session \<leftarrow> gets (\<lambda>e. m_inSession (e_mgr e));
       (if session then do {
          update (\<lambda>e. e\<lparr> e_world := x_closeSession x (e_world e) \<rparr>);
          on_mgr (\<lambda>g. g\<lparr> m_inSession := False \<rparr>) }
        else ret ());
       update (\<lambda>e. e\<lparr> e_data := ParameterData_unLock (e_data e) \<rparr>) } }"

section \<open>Entry points of the device\<close>

text \<open>A notification that finds the parameters locked waits in the queue.\<close>

definition notified :: "'w env \<Rightarrow> notification \<Rightarrow> ('w, unit) m" where
  "notified x n = do {
     acquired \<leftarrow> tryLock;
     if acquired then do { process_notification x n; unlock x }
     else on_mgr (\<lambda>g. g\<lparr> m_pendingChanges := m_pendingChanges g @ [n] \<rparr>) }"

definition dataValueChanged :: "'w env \<Rightarrow> string \<Rightarrow> ('w, unit) m" where
  "dataValueChanged x name = notified x (PATH_CHANGE name)"

definition dataNewValue :: "'w env \<Rightarrow> string \<Rightarrow> cstr \<Rightarrow> ('w, unit) m" where
  "dataNewValue x name val = notified x (DATA_VALUE_CHANGE name val)"

definition parameterValuesUpdated :: "'w env \<Rightarrow> (string \<times> cstr) list \<Rightarrow> ('w, unit) m" where
  "parameterValuesUpdated x l = notified x (VALUES_UPDATED l)"

definition sampleData :: "'w env \<Rightarrow> string \<Rightarrow> ('w, unit) m" where
  "sampleData x obj = notified x (SAMPLE_DATA obj)"

definition transferComplete :: "'w env \<Rightarrow> 32 word \<Rightarrow> 32 word \<Rightarrow> int \<Rightarrow> int \<Rightarrow> ('w, unit) m" where
  "transferComplete x transferId fault start cmp = notified x (TRANSFER_COMPLETE
     ((DM_ENG_newTransferRequest True TR_COMPLETED 0 None None None None 0 None None None None None)
        \<lparr> tr_transferId := transferId, tr_faultCode := fault, tr_startTime := start, tr_completeTime := cmp \<rparr>))"

definition autonomousTransferComplete ::
    "'w env \<Rightarrow> string option \<Rightarrow> string option \<Rightarrow> bool \<Rightarrow> string option \<Rightarrow> 32 word \<Rightarrow> string option \<Rightarrow> 32 word \<Rightarrow> int \<Rightarrow> int
      \<Rightarrow> ('w, unit) m" where
  "autonomousTransferComplete x announceURL transferURL isDownload fileType fileSize targetFileName fault start cmp =
     notified x (TRANSFER_COMPLETE
       ((DM_ENG_newTransferRequest isDownload TR_COMPLETED 0 fileType transferURL None None fileSize targetFileName None None None announceURL)
          \<lparr> tr_faultCode := fault, tr_startTime := start, tr_completeTime := cmp \<rparr>))"

definition autonomousTransferInProgress ::
    "'w env \<Rightarrow> string option \<Rightarrow> string option \<Rightarrow> bool \<Rightarrow> string option \<Rightarrow> 32 word \<Rightarrow> string option \<Rightarrow> ('w, 32 word) m" where
  "autonomousTransferInProgress x announceURL transferURL isDownload fileType fileSize targetFileName = do {
     lockDM;
     on_ctrl (insertTransferRequest
       (DM_ENG_newTransferRequest isDownload IN_PROGRESS 0 fileType transferURL None None fileSize targetFileName None None None announceURL));
     i \<leftarrow> gets (\<lambda>e. lastTransferId (ctrl_of e));
     sync;
     unlock x;
     ret i }"

definition requestDownload :: "'w env \<Rightarrow> download \<Rightarrow> ('w, unit) m" where
  "requestDownload x dr = notified x (REQUEST_DOWNLOAD dr)"

definition vendorSpecificEvent :: "'w env \<Rightarrow> string \<Rightarrow> string \<Rightarrow> ('w, unit) m" where
  "vendorSpecificEvent x OUI event = notified x (VENDOR_SPECIFIC_EVENT (''X '' @ OUI @ '' '' @ event))"

definition mgr_sync :: "bool \<Rightarrow> ('w, unit) m" where
  "mgr_sync resetComputed = do {
     (if resetComputed then each_param (\<lambda>p. DM_ENG_Parameter_clearTemporaryValue p 0) else ret ());
     sync }"

section \<open>Initialisation and release\<close>

datatype init_level = FACTORY_RESET | REBOOT | RESUME

definition scheduler_init :: "init_level \<Rightarrow> sched \<Rightarrow> sched" where
  "scheduler_init level s =
     (case level of
        FACTORY_RESET \<Rightarrow> s\<lparr> s_lastStatus := DS_UNINITIALIZED \<rparr>
      | RESUME \<Rightarrow> s\<lparr> s_lastStatus := DS_DISABLED \<rparr>
      | REBOOT \<Rightarrow> s)"

text \<open>
  The data that cannot be read are replaced by the initial ones.  The loop that deletes the
  notifications left over looks at the type of the next one, also after the last.
\<close>

definition mgr_init_data :: "init_level \<Rightarrow> ('w, int \<times> init_level) m" where
  "mgr_init_data level =
     (let reset = do { res \<leftarrow> on_data (ParameterData_init True) 0; ret (res, FACTORY_RESET) }
      in if level = FACTORY_RESET then reset
         else do {
           res \<leftarrow> on_data (ParameterData_init False) 0;
           if res = 0 then do {
             each_param (\<lambda>p. (if p_storageMode p \<noteq> DM_ONLY then p\<lparr> p_value := Null \<rparr> else p, False));
             ret (0, level) }
           else if res = 1 \<or> res = 2 then reset
           else ret (res, level) })"

definition ParameterManager_init :: "'w env \<Rightarrow> init_level \<Rightarrow> ('w, int) m" where
  "ParameterManager_init x level0 = do {
     (res, level) \<leftarrow> mgr_init_data level0;
     if res \<noteq> 0 then ret res
     else do {
       po \<leftarrow> lookup DM_TR106_ACS_URL;
       if (case po of None \<Rightarrow> True | Some p \<Rightarrow> ctext (p_value p) = []) then ret 5
       else do {
         on_mgr (\<lambda>g. g\<lparr> m_open := True \<rparr>);
         lockDM;
         on_sched (scheduler_init level);
         pending \<leftarrow> gets (\<lambda>e. m_pendingChanges (e_mgr e));
         (if level = FACTORY_RESET \<and> pending \<noteq> [] then fail (UB NullDeref) else ret ());
         t \<leftarrow> gets (\<lambda>e. periodicInformTime (ctrl_of e));
         (if t = 0 then computeNextPeriodicInformTime x else ret ());
         emit StatisticsInit;
         update (\<lambda>e. e\<lparr> e_data := ParameterData_unLock (e_data e) \<rparr>);
         ret 0 } } }"

end
