(* ===== verification/Frame.thy ===== *)
theory Frame
  imports MgrNotify
begin

text \<open>
  What the loading of values, the notifications and the entry points of the scheduler leave alone.
  The locale \<open>engine_frame\<close> is the interface: a predicate on the state that survives any change of the
  data, of the cursor, of the outside world and of what an entry point of the scheduler may change.
  Such a predicate is kept by every operation that a notification can start.
\<close>

section \<open>Evaluation\<close>

lemma keeps_get_as [keeps_intros]: "(\<And>n. keeps I (gv n)) \<Longrightarrow> keeps I (get_as gv conv name)"
  by (auto simp: get_as_def intro!: keeps_intros split: option.split)

lemma keeps_both [keeps_intros]: "keeps I m1 \<Longrightarrow> keeps I m2 \<Longrightarrow> keeps I (both m1 m2 f)"
  by (auto simp: both_def intro!: keeps_intros split: option.split)

lemma keeps_evaluators:
  assumes "\<And>n. keeps I (gv n)"
  shows "keeps I (evalUint tz t gv e)" "keeps I (evalClass tz t gv v c e)" "keeps I (evalDiffTime tz t gv e)"
    "keeps I (evalBool tz t gv e)" "keeps I (eval tz t gv e)"
  using assms
proof (induction tz t gv e and tz t gv v c e and tz t gv e and tz t gv e and tz t gv e
    rule: evalUint_evalClass_evalDiffTime_evalBool_eval.induct)
  case (1 tz now gv e)
  then show ?case
    by (subst evalUint.simps) (auto intro!: keeps_intros split: exp.split unop.split option.split)
next
  case (2 tz now gv v c e)
  then show ?case
    by (subst evalClass.simps) (auto intro!: keeps_intros split: exp.split binop.split option.split)
next
  case (3 tz now gv arg)
  then show ?case
    by (subst evalDiffTime.simps) (auto intro!: keeps_intros split: exp.split binop.split simp: Let_def)
next
  case (4 tz now gv e)
  then show ?case
    by (subst evalBool.simps) (auto intro!: keeps_intros split: exp.split unop.split option.split litop.split)
next
  case (5 tz now gv e)
  then show ?case
    by (subst eval.simps) (auto intro!: keeps_intros split: exp.split unop.split option.split simp: Let_def)
qed

lemma keeps_isChanged:
  assumes "\<And>n. keeps I (gv n)" "\<And>n b. keeps I (ivc n b)"
  shows "keeps I (isChanged tz t gv ivc e c p)"
proof (induction e arbitrary: c p)
  case (ECall f a)
  then show ?case using assms by (auto intro!: keeps_intros split: option.split)
qed (use assms in \<open>auto intro!: keeps_intros keeps_evaluators\<close>)

section \<open>The frame\<close>

text \<open>What an entry point of the scheduler may change.\<close>

definition sched_entry :: "sched \<Rightarrow> sched \<Rightarrow> bool" where
  "sched_entry s s' \<longleftrightarrow> take (length (s_pendingEvents s)) (s_pendingEvents s') = s_pendingEvents s \<and>
     s_sendMessageStatus s' = s_sendMessageStatus s \<and> s_transferIdSending s' = s_transferIdSending s \<and>
     s_requestDownloadSending s' = s_requestDownloadSending s \<and> s_nextInformTime s' = s_nextInformTime s \<and>
     s_retryDelay s' = s_retryDelay s \<and> (s_signalled s \<longrightarrow> s_signalled s') \<and> (s_alive s' \<longrightarrow> s_alive s) \<and>
     (s_retryOn s' \<longrightarrow> s_retryOn s) \<and> s_threads s \<le> s_threads s' \<and>
     (s_pendingEvents s' = s_pendingEvents s \<or> s_signalled s') \<and> (s_alive s' = s_alive s \<or> s_signalled s')"

lemma sched_entry_refl [simp]: "sched_entry s s"
  by (simp add: sched_entry_def)

lemma sched_entry_trans: "sched_entry a b \<Longrightarrow> sched_entry b c \<Longrightarrow> sched_entry a c"
  unfolding sched_entry_def by (metis (no_types, lifting) length_take min.cobounded1 nat_le_linear order_trans take_all take_take min.absorb1)

lemma sched_entry_addEvent [simp]: "sched_entry s (sched_addEvent ev k s)"
  by (simp add: sched_entry_def sched_addEvent_def signal_def Let_def)

lemma sched_entry_signal [simp]: "sched_entry s (signal s)"
  by (simp add: sched_entry_def signal_def)

lemma sched_entry_stop [simp]: "sched_entry s (sched_stop s)"
  by (simp add: sched_entry_def sched_stop_def signal_def)

lemma sched_entry_folded: "sched_entry s (foldl (\<lambda>s f. sched_addEvent ev (Some f) s) s l)"
proof (induction l arbitrary: s)
  case (Cons f l)
  then show ?case using sched_entry_trans [OF sched_entry_addEvent [of s ev "Some f"]] by simp
qed simp

locale engine_frame =
  fixes I :: "'w engine \<Rightarrow> bool"
  assumes data: "I e \<Longrightarrow> I (e\<lparr> e_data := d \<rparr>)"
    and cursor: "I e \<Longrightarrow> I (e\<lparr> e_cursor := c \<rparr>)"
    and world: "I e \<Longrightarrow> I (e\<lparr> e_world := w \<rparr>)"
    and calls: "I e \<Longrightarrow> I (e\<lparr> e_calls := cs \<rparr>)"
    and fault: "I e \<Longrightarrow> I (e\<lparr> e_fault := f \<rparr>)"
    and sched: "I e \<Longrightarrow> sched_entry (e_sched e) s \<Longrightarrow> I (e\<lparr> e_sched := s \<rparr>)"
begin

lemma k_fail: "keeps I (fail f)"
  by (simp add: keeps_def fault)

lemma k_outside: "keeps I (outside f)"
  by (simp add: keeps_def world)

lemma k_emit: "keeps I (emit c)"
  by (simp add: keeps_def calls)

lemma k_on_data: "keeps I (on_data f x)"
  by (auto simp: keeps_def on_data_def data fault split: sum.split)

lemma k_on_ctrl: "keeps I (on_ctrl f)" "keeps I (on_ctrl_ub g)" "keeps I (on_store h)" "keeps I (on_store_ub k)"
  by (simp_all add: keeps_def data) (simp_all add: on_ctrl_ub_def on_store_ub_def keepsD [OF k_on_data])

lemma k_on_sched: "(\<And>s. sched_entry s (f s)) \<Longrightarrow> keeps I (on_sched f)"
  by (simp add: keeps_def sched)

lemma k_cursor: "keeps I (update (\<lambda>e. e\<lparr> e_cursor := c e \<rparr>))"
  by (simp add: keeps_def cursor)

lemma k_world: "keeps I (update (\<lambda>e. e\<lparr> e_world := w e \<rparr>))"
  by (simp add: keeps_def world)

lemma k_data: "keeps I (update (\<lambda>e. e\<lparr> e_data := d e \<rparr>))"
  by (simp add: keeps_def data)

lemmas k_basic = k_fail k_outside k_emit k_on_data k_on_ctrl k_cursor k_world k_data

lemma k_lookup: "keeps I (lookup n)"
  by (simp add: lookup_def)

lemma k_on_param: "keeps I (on_param n f d)"
  unfolding on_param_def by (intro keeps_intros k_basic k_lookup)

lemma k_upd_param: "keeps I (upd_param n f)"
  unfolding upd_param_def by (rule k_on_param)

lemma k_each_param: "keeps I (each_param f)"
  by (simp add: keeps_def each_param_def cursor data)

lemmas k_param = k_lookup k_on_param k_upd_param k_each_param

lemma k_getFirst: "keeps I getFirst"
  unfolding getFirst_def by (intro keeps_intros k_basic)

lemma k_getNext: "keeps I getNext"
  unfolding getNext_def by (intro keeps_intros k_basic)

lemma k_getCurrent: "keeps I getCurrent"
  unfolding getCurrent_def by (intro keeps_intros k_basic k_lookup)

lemma k_resume: "keeps I (resumeParameterLoopFrom n)"
  unfolding resumeParameterLoopFrom_def by (intro keeps_intros k_basic k_getCurrent)

lemma k_loop_from: "(\<And>p l. keeps I (body p l)) \<Longrightarrow> keeps I (loop_from k p l body)"
  by (induction k p l body rule: loop_from.induct) (auto intro!: keeps_intros k_basic k_getNext)

lemma k_for_params: "(\<And>p l. keeps I (body p l)) \<Longrightarrow> keeps I (for_params x l body)"
  unfolding for_params_def by (intro keeps_intros k_getFirst k_loop_from)

lemma k_sync: "keeps I sync"
  unfolding sync_def by (rule k_on_data)

lemmas k_cursors = k_getFirst k_getNext k_getCurrent k_resume k_for_params k_sync

end

section \<open>Loading\<close>

context engine_frame
begin

lemma k_relocate: "keeps I (relocateInstances n i)"
  unfolding relocateInstances_def Let_def by (rule k_each_param)

lemma k_getParameter_iter: "keeps I (getParameter_iter k n)"
proof (induction k)
  case (Suc k)
  then show ?case
    unfolding getParameter_iter.simps by (intro keeps_intros k_param k_basic k_relocate)
qed simp

lemma k_getParameter_inst: "keeps I (getParameter_inst n)"
  unfolding getParameter_inst_def by (rule k_getParameter_iter)

lemma k_markInstancesLoaded: "keeps I (markInstancesLoaded n ns v)"
  unfolding markInstancesLoaded_def by (intro keeps_intros k_basic)

lemma k_notify_all: "(\<And>c. keeps I (notify c)) \<Longrightarrow> keeps I (notify_all notify cs)"
  by (induction notify cs rule: notify_all.induct) (auto intro!: keeps_intros)

lemma k_no_notify: "keeps I (no_notify c)"
  by (simp add: no_notify_def)

lemma k_updateValue: "(\<And>c. keeps I (notify c)) \<Longrightarrow> keeps I (updateValue notify n v b)"
  unfolding updateValue_def by (intro keeps_intros k_param k_notify_all)

lemma k_updateSystemValue: "(\<And>c. keeps I (notify c)) \<Longrightarrow> keeps I (updateSystemValue notify n v b)"
  unfolding updateSystemValue_def by (rule k_updateValue)

lemma k_eval: "DM_ENG_ComputedExp_eval tz t s gv = Some m \<Longrightarrow> (\<And>n. keeps I (gv n)) \<Longrightarrow> keeps I m"
  by (auto simp: DM_ENG_ComputedExp_eval_def intro!: keeps_intros keeps_evaluators split: option.splits pres.splits)

lemma k_evalDefinition: "(\<And>n d. keeps I (gv n d)) \<Longrightarrow> keeps I (evalDefinition x gv def dest)"
proof -
  assume gv: "\<And>n d. keeps I (gv n d)"
  have c: "keeps I (case DM_ENG_ComputedExp_eval tz t s (\<lambda>n. gv n (Str dest)) of
      None \<Rightarrow> do { fail (UB NullDeref); ret (False, Null) }
    | Some m \<Rightarrow> do { (res, s) \<leftarrow> m; ret (res, opt_cstr s) })" for tz t s
    using k_eval [of tz t s "\<lambda>n. gv n (Str dest)"] gv
    by (cases "DM_ENG_ComputedExp_eval tz t s (\<lambda>n. gv n (Str dest))") (auto intro!: keeps_intros k_basic)
  show ?thesis unfolding evalDefinition_def by (intro keeps_bind keeps_gets c)
qed

lemma k_systemData: "(\<And>n d. keeps I (gv n d)) \<Longrightarrow> keeps I (systemData x gv p)"
  unfolding systemData_def by (intro keeps_intros k_evalDefinition)

lemma k_loadSystemParameter_value: "(\<And>n d. keeps I (gv n d)) \<Longrightarrow> keeps I (loadSystemParameter_value x gv n)"
  unfolding loadSystemParameter_value_def
  by (intro keeps_intros k_basic k_lookup k_systemData k_updateSystemValue k_no_notify)

lemma k_isLoaded: "keeps I (isLoaded n v)"
  unfolding isLoaded_def by (rule k_on_param)

lemma k_markLoaded: "keeps I (markLoaded n v)"
  unfolding markLoaded_def by (rule k_upd_param)

lemma k_updateObject: "(\<And>c. keeps I (notify c)) \<Longrightarrow> keeps I (updateObject notify n l b)"
proof -
  assume n: "\<And>c. keeps I (notify c)"
  have "keeps I (updateObject_loop notify l b)"
    by (induction l) (auto intro!: keeps_intros k_getParameter_inst k_updateSystemValue n)
  then show ?thesis unfolding updateObject_def by (intro keeps_intros k_markInstancesLoaded)
qed

lemma k_mark_names: "keeps I (mark_names ns)"
  by (induction ns) (auto intro!: keeps_intros k_getParameter_inst k_markLoaded)

lemma k_loadNames: "keeps I (loadNames x n d)"
  unfolding loadNames_def Let_def
  by (auto intro!: keeps_intros k_basic k_mark_names k_markInstancesLoaded split: bool.split option.split)

lemma k_loadFinal:
  "(\<And>n d. keeps I (gv n d)) \<Longrightarrow> (\<And>n b. keeps I (leaf n b)) \<Longrightarrow> keeps I (loadFinal x gv leaf n v)"
  unfolding loadFinal_def
  by (intro keeps_intros k_basic k_param k_isLoaded k_markLoaded k_systemData k_updateObject k_no_notify k_loadNames)

lemma k_sub_loop:
  "(\<And>n d. keeps I (gv n d)) \<Longrightarrow> (\<And>n b. keeps I (leaf n b)) \<Longrightarrow> keeps I (sub_loop k x gv leaf n v r)"
proof (induction k arbitrary: r)
  case 0
  then show ?case
    unfolding sub_loop.simps [of 0] sub_pass_body_def Let_def nat.case
    by (intro keeps_intros k_cursors k_basic k_isLoaded k_loadSystemParameter_value k_loadFinal)
next
  case (Suc k)
  note IH = Suc.IH [OF Suc.prems]
  from Suc.prems show ?case
    unfolding sub_loop.simps [of "Suc k"] sub_pass_body_def Let_def nat.case
    by (intro keeps_intros k_cursors k_basic k_isLoaded k_loadSystemParameter_value k_loadFinal IH)
qed

lemma k_loadSubParameters:
  "(\<And>n d. keeps I (gv n d)) \<Longrightarrow> (\<And>n b. keeps I (leaf n b)) \<Longrightarrow> keeps I (loadSubParameters x gv leaf po v)"
  unfolding loadSubParameters_def by (intro keeps_intros k_markLoaded k_loadFinal k_sub_loop)

lemma k_loadSystemParameter:
  "(\<And>n d. keeps I (gv n d)) \<Longrightarrow> (\<And>n b. keeps I (leaf n b)) \<Longrightarrow> keeps I (loadSystemParameter x gv leaf n v)"
  unfolding loadSystemParameter_def by (intro keeps_intros k_isLoaded k_lookup k_loadFinal k_loadSubParameters)

lemma k_loadComputedParameter:
  "(\<And>n d. keeps I (gv n d)) \<Longrightarrow> (\<And>n b. keeps I (leaf n b)) \<Longrightarrow> (\<And>c. keeps I (notify c)) \<Longrightarrow>
   keeps I (loadComputedParameter x gv leaf notify n b)"
  unfolding loadComputedParameter_def computeNumberOfIntances_def loadSystemParameters_def
  by (intro keeps_intros k_basic k_param k_markLoaded k_loadSubParameters k_loadSystemParameter k_evalDefinition
      k_updateSystemValue)

lemma k_knot_aux: "(\<forall>n d. keeps I (getValue k x n d)) \<and> (\<forall>n b. keeps I (loadLeaf k x n b))"
proof (induction k)
  case (Suc k)
  then have gv: "\<And>n d. keeps I (getValue k x n d)" and leaf: "\<And>n b. keeps I (loadLeaf k x n b)" by blast+
  have "keeps I (getValue (Suc k) x n d)" for n d
    unfolding getValue.simps getValue_step_def Let_def
    by (intro keeps_intros k_lookup k_updateValue k_no_notify k_loadComputedParameter k_loadSystemParameter gv leaf)
  moreover have "keeps I (loadLeaf (Suc k) x n b)" for n b
    unfolding loadLeaf.simps loadLeaf_step_def
    by (intro keeps_intros k_basic k_lookup k_isLoaded k_loadComputedParameter k_loadSystemParameter_value k_no_notify gv leaf)
  ultimately show ?case by blast
qed (auto intro!: keeps_intros k_basic)

lemma k_knot: "keeps I (getValue k x n d)" "keeps I (loadLeaf k x n b)"
  using k_knot_aux by blast+

end

section \<open>The scheduler and the changes of the system\<close>

context engine_frame
begin

lemma k_updateAcsParameters: "keeps I (updateAcsParameters x)"
  unfolding updateAcsParameters_def getParameterValue_def
  by (intro keeps_intros k_world k_param k_loadSystemParameter_value k_knot)

lemma k_sched_start: "keeps I (sched_start x)"
  unfolding sched_start_def by (intro keeps_intros k_updateAcsParameters k_on_sched) (simp add: sched_entry_def)

lemma k_bootEvent: "keeps I (bootEvent b)"
  unfolding bootEvent_def by (intro keeps_intros k_basic k_on_sched sched_entry_addEvent sched_entry_folded)

lemma k_parameterValueChanged: "keeps I (parameterValueChanged x p)"
proof -
  have "sched_entry s (s\<lparr> s_lastStatus := l \<rparr>)" for s l by (simp add: sched_entry_def)
  then show ?thesis
    unfolding parameterValueChanged_def Let_def
    by (intro keeps_intros k_sched_start k_bootEvent k_on_sched sched_entry_addEvent sched_entry_stop)
qed

lemma k_notify: "keeps I (notify_sched x c)"
  by (cases c) (simp_all add: diagnosticsComplete_def k_on_sched k_parameterValueChanged)

lemmas k_load = k_updateValue [OF k_notify] k_updateSystemValue [OF k_notify] k_updateObject [OF k_notify]
  k_loadComputedParameter [OF k_knot k_notify] k_systemData [OF k_knot(1)] k_loadSystemParameter_value [OF k_knot(1)]

lemma k_checkComputedChanged: "keeps I (checkComputedChanged x n)"
proof -
  have w: "keeps I (isValueChanged d m b)" for d m b
    unfolding isValueChanged_def by (intro keeps_intros k_lookup)
  have "keeps I m" if "DM_ENG_ComputedExp_isChanged tz t s (isValueChanged d) (\<lambda>m. gv_of x m (Str d)) b c = Some m" for tz t s d b c m
    using that by (auto simp: DM_ENG_ComputedExp_isChanged_def intro!: keeps_intros keeps_isChanged w k_knot
        split: option.splits pres.splits)
  then have c: "keeps I (case DM_ENG_ComputedExp_isChanged tz t s (isValueChanged d) (\<lambda>m. gv_of x m (Str d)) b c of
      None \<Rightarrow> do { fail (UB NullDeref); ret (False, False) }
    | Some m \<Rightarrow> do { (_, c, p) \<leftarrow> m; ret (c, p) })" for tz t s d b c
    by (cases "DM_ENG_ComputedExp_isChanged tz t s (isValueChanged d) (\<lambda>m. gv_of x m (Str d)) b c") (auto intro!: keeps_intros k_basic)
  have "keeps I (definition_changed x n def)" for def
    unfolding definition_changed_def by (intro keeps_if keeps_bind keeps_gets keeps_ret w c)
  then show ?thesis
    unfolding checkComputedChanged_def by (intro keeps_intros k_basic k_param k_load)
qed

lemma k_checkValueChange: "keeps I (checkValueChange x n)"
  unfolding checkValueChange_def by (intro keeps_intros k_basic k_param k_load)

lemma k_update_values: "keeps I (update_values x l)"
  by (induction x l rule: update_values.induct) (auto intro!: keeps_intros k_lookup k_load)

lemma k_applied: "keeps I (actionAfterDownload x t f)" "keeps I (updateTransfer i st cd a b)"
  unfolding actionAfterDownload_def updateTransfer_def by (intro keeps_intros k_basic)+

lemma k_process: "keeps I (process_notification x n)"
proof (cases n)
  case (PATH_CHANGE name)
  then show ?thesis
    by (simp add: processChange_def) (intro keeps_intros k_lookup k_cursors k_checkValueChange)
next
  case (DATA_VALUE_CHANGE name val)
  then show ?thesis
    by (simp add: processValueChange_def) (intro keeps_intros k_lookup k_cursors k_load)
next
  case (VALUES_UPDATED l)
  then show ?thesis
    by (simp add: updateParameterValues_def) (intro keeps_intros k_cursors k_update_values)
next
  case (TRANSFER_COMPLETE tr)
  then show ?thesis
    unfolding TRANSFER_COMPLETE process_notification.simps processTransferCompleteResult_def sched_transferComplete_def
    by (intro keeps_intros k_basic k_cursors k_applied k_on_sched sched_entry_addEvent)
next
  case (REQUEST_DOWNLOAD dr)
  then show ?thesis
    by (simp add: processRequestDownload_def sched_requestDownload_def)
      (intro keeps_intros k_basic k_cursors k_on_sched sched_entry_addEvent)
qed (simp_all add: k_emit sched_vendorSpecificEvent_def k_on_sched)

end

end
