(* ===== verification/MgrNotifyProps.thy ===== *)
theory MgrNotifyProps
  imports Frame
begin

text \<open>
  The properties of the lock and of the notifications: those that arrive while the parameters are
  locked are queued, and all are processed, in their order, before the lock is released.
\<close>

interpretation mgr_frame: engine_frame "\<lambda>e. e_mgr e = g" for g
  by unfold_locales auto

interpretation notif_frame: engine_frame "\<lambda>e. e_notif e = n" for n
  by unfold_locales auto

interpretation sched_frame: engine_frame "\<lambda>e. sched_entry s (e_sched e)" for s
  by unfold_locales (auto intro: sched_entry_trans)

section \<open>The queue\<close>

fun notify_each :: "'w env \<Rightarrow> notification list \<Rightarrow> ('w, unit) m" where
  "notify_each x [] = ret ()"
| "notify_each x (n # ns) = do { notified x n; notify_each x ns }"

lemma queued:
  "lockFile (e_data e) \<Longrightarrow>
   run_state (notify_each x ns) e = ((), e\<lparr> e_mgr := (e_mgr e)\<lparr> m_pendingChanges := m_pendingChanges (e_mgr e) @ ns \<rparr> \<rparr>)"
proof (induction ns arbitrary: e)
  case (Cons n ns)
  have "run_state (notified x n) e = ((), e\<lparr> e_mgr := (e_mgr e)\<lparr> m_pendingChanges := m_pendingChanges (e_mgr e) @ [n] \<rparr> \<rparr>)"
    using Cons.prems by (simp add: notified_def tryLock_def on_data_def ParameterData_tryLock_def)
  then show ?case using Cons by simp
qed simp

text \<open>The processing of a list of notifications, each one taken from the queue first.\<close>

fun process_each :: "'w env \<Rightarrow> notification list \<Rightarrow> ('w, unit) m" where
  "process_each x [] = ret ()"
| "process_each x (n # ns) = do {
     on_mgr (\<lambda>g. g\<lparr> m_pendingChanges := ns \<rparr>);
     process_notification x n;
     sync;
     process_each x ns }"

lemma pending_in_order:
  "length (m_pendingChanges (e_mgr e)) \<le> k \<Longrightarrow>
   run_state (process_pending k x) e = run_state (process_each x (m_pendingChanges (e_mgr e))) e \<and>
   e_mgr (snd (run_state (process_pending k x) e)) = (e_mgr e)\<lparr> m_pendingChanges := [] \<rparr>"
proof (induction k arbitrary: e)
  case 0
  then show ?case by (simp add: process_pending.simps [of 0])
next
  case (Suc k)
  show ?case
  proof (cases "m_pendingChanges (e_mgr e)")
    case Nil
    then show ?thesis by (simp add: process_pending.simps [of "Suc k"])
  next
    case (Cons n ns)
    define e1 where "e1 = e\<lparr> e_mgr := (e_mgr e)\<lparr> m_pendingChanges := ns \<rparr> \<rparr>"
    define e2 where "e2 = snd (run_state sync (snd (run_state (process_notification x n) e1)))"
    have m: "e_mgr e2 = (e_mgr e)\<lparr> m_pendingChanges := ns \<rparr>"
      unfolding e2_def by (intro keepsD [OF mgr_frame.k_sync] keepsD [OF mgr_frame.k_process]) (simp add: e1_def)
    have len: "length (m_pendingChanges (e_mgr e2)) \<le> k" using Suc.prems Cons by (simp add: m)
    have IH: "run_state (process_pending k x) e2 = run_state (process_each x ns) e2"
      using Suc.IH [OF len, THEN conjunct1] by (simp add: m)
    have IH': "e_mgr (snd (run_state (process_pending k x) e2)) = (e_mgr e)\<lparr> m_pendingChanges := [] \<rparr>"
      using Suc.IH [OF len, THEN conjunct2] by (simp add: m)
    have "run_state (process_pending (Suc k) x) e = run_state (process_pending k x) e2"
      using Cons by (simp add: process_pending.simps [of "Suc k"] e2_def e1_def case_prod_beta)
    moreover have "run_state (process_each x (m_pendingChanges (e_mgr e))) e = run_state (process_each x ns) e2"
      using Cons by (simp add: e2_def e1_def case_prod_beta)
    ultimately show ?thesis using IH IH' by metis
  qed
qed

text \<open>
  C30: Notifications that arrive while the parameters are locked are not lost, doubled or reordered:
  they only wait, and the processing of the queue is the processing of its notifications one by one
  in the order of their arrival.
\<close>

theorem notifications_in_order:
  assumes "lockFile (e_data e)" "length (m_pendingChanges (e_mgr e)) + length ns \<le> k"
  shows "let e1 = snd (run_state (notify_each x ns) e) in
    e1 = e\<lparr> e_mgr := (e_mgr e)\<lparr> m_pendingChanges := m_pendingChanges (e_mgr e) @ ns \<rparr> \<rparr> \<and>
    run_state (process_pending k x) e1 = run_state (process_each x (m_pendingChanges (e_mgr e) @ ns)) e1"
  using queued [OF assms(1), of x ns] pending_in_order [of "snd (run_state (notify_each x ns) e)" k x] assms(2)
  by simp

definition locked_engine :: "unit engine" where
  "locked_engine = (engine_init ())\<lparr> e_data := data_init\<lparr> lockFile := True \<rparr> \<rparr>"

theorem notifications_in_order_witness:
  "m_pendingChanges (e_mgr (snd (run_state (notify_each demo_env [PATH_CHANGE ''Device.a'', SAMPLE_DATA ''Device.b'']) locked_engine)))
    = [PATH_CHANGE ''Device.a'', SAMPLE_DATA ''Device.b'']"
  using notifications_in_order [of locked_engine "[PATH_CHANGE ''Device.a'', SAMPLE_DATA ''Device.b'']" 2 demo_env]
  by (simp add: locked_engine_def engine_init_def mgr_init_def data_init_def Let_def)

section \<open>Unlocking\<close>

lemma keeps_mgr: "(\<And>g. keeps (\<lambda>e. e_mgr e = g) m) \<Longrightarrow> e_mgr (snd (run_state m e)) = e_mgr e"
  by (simp add: keeps_def)

lemma mgr_isPeriodic: "keeps (\<lambda>e. e_mgr e = g) isPeriodicInformEnabled"
  unfolding isPeriodicInformEnabled_def by (rule mgr_frame.k_on_param)

lemma mgr_computeNext: "keeps (\<lambda>e. e_mgr e = g) (computeNextPeriodicInformTime x)"
  unfolding computeNextPeriodicInformTime_def by (intro keeps_intros mgr_isPeriodic mgr_frame.k_basic)

lemma mgr_check_computed: "keeps (\<lambda>e. e_mgr e = g) (check_computed x)"
  unfolding check_computed_def by (intro mgr_frame.k_cursors keeps_intros mgr_frame.k_checkComputedChanged)

lemma mgr_diagnostics: "keeps (\<lambda>e. e_mgr e = g) (process_diagnostics l)"
  by (induction l rule: process_diagnostics.induct)
    (auto simp: razDiagnosticsResult_def Let_def intro!: keeps_intros mgr_frame.k_basic)

lemma mgr_entry: "keeps (\<lambda>e. e_mgr e = g) changeOnPeriodicInform"
  unfolding changeOnPeriodicInform_def checkNextInformTime_def
  by (intro keeps_intros mgr_frame.k_on_sched) (simp add: signal_def sched_entry_def)

lemmas mgr_same = mgr_frame.k_each_param [THEN keeps_mgr] mgr_frame.k_sync [THEN keeps_mgr]
  mgr_frame.k_updateAcsParameters [THEN keeps_mgr] mgr_computeNext [THEN keeps_mgr] mgr_check_computed [THEN keeps_mgr]
  mgr_diagnostics [THEN keeps_mgr] mgr_entry [THEN keeps_mgr]

text \<open>
  Unlocking empties the queues: no notification, no request of diagnostics and no flag of a
  change is left, the session with the device is closed, and the lock is released.
\<close>

theorem unlock_releases:
  assumes "m_open (e_mgr e)" "length (m_pendingChanges (e_mgr e)) \<le> x_fuel x"
  shows "let e' = snd (run_state (unlock x) e) in e_mgr e' = mgr_init\<lparr> m_open := True \<rparr> \<and> \<not> lockFile (e_data e')"
  using assms pending_in_order [of _ "x_fuel x" x, THEN conjunct2]
  by (simp add: unlock_def case_prod_beta mgr_same ParameterData_unLock_def mgr_init_def Let_def)

theorem unlock_releases_witness:
  "let e' = snd (run_state (unlock demo_env) (locked_engine\<lparr> e_mgr := mgr_init\<lparr> m_open := True, m_pendingChanges := [SAMPLE_DATA ''Device.b''] \<rparr> \<rparr>))
   in e_mgr e' = mgr_init\<lparr> m_open := True \<rparr> \<and> \<not> lockFile (e_data e')"
  by (rule unlock_releases) (simp_all add: demo_env_def)

section \<open>A value that the device no longer has\<close>

text \<open>
  A notified change of a parameter whose value the device reports as NULL frees the constant
  empty string.
\<close>

theorem null_value_freed:
  assumes "getParameter (store_of e) n = Some p" "DM_ENG_Parameter_isValuable n" "p_value p \<noteq> Null"
    "p_storageMode p = SYSTEM_ONLY" "p_definition p = Null" "fst (x_getValue x n Null (e_world e)) = (0, Null)"
  shows "e_fault (snd (run_state (checkValueChange x n) e)) = Some (UB BadFree)"
  using assms find_name [OF assms(1)]
  by (simp add: checkValueChange_def lookup_def systemData_def case_prod_beta)

definition value_engine :: "unit engine" where
  "value_engine = (engine_init ())\<lparr> e_data := data_init\<lparr> d_store := \<lparr> parameters =
     [(DM_ENG_newDefinedParameter ''Device.a'' PT_STRING Null False)\<lparr> p_storageMode := SYSTEM_ONLY, p_value := Str ''v'' \<rparr>],
     nbParameters = 1, dataChanged = False \<rparr> \<rparr> \<rparr>"

theorem null_value_freed_witness:
  "e_fault (snd (run_state (checkValueChange demo_env ''Device.a'') value_engine)) = Some (UB BadFree)"
  by (rule null_value_freed [of _ _
        "(DM_ENG_newDefinedParameter ''Device.a'' PT_STRING Null False)\<lparr> p_storageMode := SYSTEM_ONLY, p_value := Str ''v'' \<rparr>"])
    (simp_all add: value_engine_def getParameter_def DM_ENG_newDefinedParameter_def demo_env_def
      DM_ENG_Parameter_isValuable_def DM_ENG_Parameter_isNode_def)

end
