(* ===== verification/Notif.thy ===== *)
theory Notif
  imports MgrNotify
begin

text \<open>
  \<open>dm_engine/src/DM_ENG_NotificationInterface.c\<close>: the listeners, one for the ACS and one for the self
  care application, what each one is known to know, and the messages sent to them.  A callback that
  is not NULL is a flag of the listener and a function of the environment.
\<close>

section \<open>Listeners\<close>

definition listener_of :: "nat \<Rightarrow> notif \<Rightarrow> listener option" where
  "listener_of entity n = (if entity = ENTITY_ACS then n_acs n else n_selfcare n)"

definition set_listener :: "nat \<Rightarrow> listener option \<Rightarrow> notif \<Rightarrow> notif" where
  "set_listener entity l n = (if entity = ENTITY_ACS then n\<lparr> n_acs := l \<rparr> else n\<lparr> n_selfcare := l \<rparr>)"

definition on_notif :: "(notif \<Rightarrow> notif) \<Rightarrow> ('w, unit) m" where
  "on_notif f = update (\<lambda>e. e\<lparr> e_notif := f (e_notif e) \<rparr>)"

lemma run_on_notif [simp]: "run_state (on_notif f) e = ((), e\<lparr> e_notif := f (e_notif e) \<rparr>)"
  by (simp add: on_notif_def)

text \<open>The table has two entries; another entity is read behind its end.\<close>

definition deactivate :: "nat \<Rightarrow> ('w, unit) m" where
  "deactivate entity = (if entity > ENTITY_SELFCARE_APP then fail (UB BufOverflow) else on_notif (set_listener entity None))"

definition activate :: "nat \<Rightarrow> bool \<Rightarrow> bool \<Rightarrow> bool \<Rightarrow> bool \<Rightarrow> ('w, unit) m" where
  "activate entity inform tc rd updateAcs = do {
     deactivate entity;
     (if entity \<le> ENTITY_SELFCARE_APP
      then on_notif (set_listener entity (Some \<lparr> l_knownParameters = [], l_knownParametersToRemove = [], l_inform = inform,
             l_transferComplete = tc, l_requestDownload = rd \<rparr>))
      else ret ());
     on_notif (\<lambda>n. if updateAcs then n\<lparr> n_updateAcs := True \<rparr> else n) }"

definition deactivateAll :: "('w, unit) m" where
  "deactivateAll = do {
     deactivate ENTITY_ACS;
     deactivate ENTITY_SELFCARE_APP;
     on_notif (\<lambda>n. n\<lparr> n_mandatoryParameterList := None \<rparr>) }"

definition isReady :: "notif \<Rightarrow> bool" where
  "isReady n \<longleftrightarrow> n_acs n \<noteq> None \<or> n_selfcare n \<noteq> None"

text \<open>Reboot, when a command key says so; a star before it asks for a factory reset.\<close>

definition checkReboot :: "'w env \<Rightarrow> ('w, unit) m" where
  "checkReboot x = do {
     ck \<leftarrow> gets (\<lambda>e. sRebootCommandKey (ctrl_of e));
     case ck of
       None \<Rightarrow> ret ()
     | Some k \<Rightarrow> do {
         deactivateAll;
         update (\<lambda>e. e\<lparr> e_world := x_reboot x (k \<noteq> [] \<and> hd k = CHR ''*'') (e_world e) \<rparr>) } }"

section \<open>Known parameters\<close>

abbreviation pv_name :: "pvs \<Rightarrow> string" where "pv_name p \<equiv> fst p"
abbreviation pv_value :: "pvs \<Rightarrow> cstr" where "pv_value p \<equiv> snd (snd p)"

fun add_mandatory :: "'w env \<Rightarrow> string list \<Rightarrow> pvs list \<Rightarrow> ('w, pvs list) m" where
  "add_mandatory x [] known = ret known"
| "add_mandatory x (n # ns) known =
     (if n \<in> pv_name ` set known then add_mandatory x ns known
      else do {
        po \<leftarrow> lookup n;
        known' \<leftarrow> (case po of
            None \<Rightarrow> ret known
          | Some _ \<Rightarrow> do {
              _ \<leftarrow> loadLeafParameterValue x n False;
              qo \<leftarrow> lookup n;
              case qo of
                None \<Rightarrow> do { fail (UB NullDeref); ret known }
              | Some q \<Rightarrow> ret (known @ [(p_name q, p_type q, p_value q)]) });
        add_mandatory x ns known' })"

definition setKnownParameterList :: "'w env \<Rightarrow> nat \<Rightarrow> pvs list \<Rightarrow> ('w, unit) m" where
  "setKnownParameterList x entity parameterList = do {
     n0 \<leftarrow> gets e_notif;
     case listener_of entity n0 of
       None \<Rightarrow> ret ()
     | Some l \<Rightarrow>
       if entity > 1 then ret ()
       else do {
         (if n_mandatoryParameterList n0 = None then do {
            mpl \<leftarrow> getMandatoryParameters;
            on_notif (\<lambda>n. n\<lparr> n_mandatoryParameterList := Some mpl \<rparr>) }
          else ret ());
         mpl \<leftarrow> gets (\<lambda>e. n_mandatoryParameterList (e_notif e));
         s \<leftarrow> gets store_of;
         known \<leftarrow> add_mandatory x (case mpl of None \<Rightarrow> [] | Some ns \<Rightarrow> ns)
           (filter (\<lambda>p. isInformParameter s (pv_name p)) parameterList);
         on_notif (set_listener entity (Some (l\<lparr> l_knownParameters := known \<rparr>))) } }"

fun remove_known :: "string \<Rightarrow> pvs list \<Rightarrow> pvs list" where
  "remove_known n [] = []"
| "remove_known n (p # ps) = (if pv_name p = n then ps else p # remove_known n ps)"

definition forget :: "listener \<Rightarrow> listener" where
  "forget l = l\<lparr> l_knownParameters := foldl (\<lambda>k n. remove_known n k) (l_knownParameters l) (l_knownParametersToRemove l),
     l_knownParametersToRemove := [] \<rparr>"

definition clearKnownParameters :: "nat \<Rightarrow> ('w, unit) m" where
  "clearKnownParameters entity = do {
     n \<leftarrow> gets e_notif;
     case listener_of entity n of
       None \<Rightarrow> fail (UB NullDeref)
     | Some l \<Rightarrow> on_notif (set_listener entity (Some (forget l))) }"

section \<open>Inform\<close>

definition differs :: "cstr \<Rightarrow> cstr \<Rightarrow> bool" where
  "differs a b = (if a = Null \<or> b = Null then (a = Null) \<noteq> (b = Null) else ctext a \<noteq> ctext b)"

text \<open>
  The loop over the parameters of the message: whether something changed that the listener does not
  know, the parameters to send, and the names that need no longer be known.
\<close>

fun filter_known :: "string list \<Rightarrow> pvs list \<Rightarrow> pvs list \<Rightarrow> bool \<Rightarrow> bool \<times> pvs list \<times> string list" where
  "filter_known mandatory known [] change = (change, [], [])"
| "filter_known mandatory known (p # ps) change =
     (case find (\<lambda>k. pv_name k = pv_name p) known of
        None \<Rightarrow> (case filter_known mandatory known ps True of (c, l, r) \<Rightarrow> (c, p # l, r))
      | Some k \<Rightarrow>
          if pv_name p \<in> set mandatory
          then (case filter_known mandatory known ps
                  (change \<or> (pv_name p \<noteq> DM_ENG_PARAMETER_KEY_NAME \<and> differs (pv_value p) (pv_value k))) of
                  (c, l, r) \<Rightarrow> (c, p # l, r))
          else if differs (pv_value p) (pv_value k)
          then (case filter_known mandatory known ps True of (c, l, r) \<Rightarrow> (c, p # l, pv_name p # r))
          else (case filter_known mandatory known ps change of (c, l, r) \<Rightarrow> (c, l, pv_name p # r)))"

fun remove_event :: "string \<Rightarrow> event list \<Rightarrow> event list" where
  "remove_event ec [] = []"
| "remove_event ec (e # es) = (if code_text (ev_code e) = ec then es else e # remove_event ec es)"

text \<open>The message for a listener that knows parameters: None when nothing is to be sent.\<close>

definition listener_message :: "string list \<Rightarrow> listener \<Rightarrow> inform_msg \<Rightarrow> inform_msg option \<times> listener" where
  "listener_message mandatory l msg =
     (case filter_known mandatory (l_knownParameters l) (i_parameters msg) False of (change, pl, remove) \<Rightarrow>
       (if change \<or> length (i_events msg) > 1 \<or> code_text (ev_code (hd (i_events msg))) \<noteq> EV_VALUE_CHANGE
        then Some (msg\<lparr> i_parameters := pl,
               i_events := (if change then i_events msg else remove_event EV_VALUE_CHANGE (i_events msg)) \<rparr>)
        else None,
        l\<lparr> l_knownParametersToRemove := remove,
           l_knownParameters := (if length (l_knownParameters l) \<le> length mandatory then [] else l_knownParameters l) \<rparr>))"

definition inform_listener :: "'w env \<Rightarrow> nat \<Rightarrow> inform_msg \<Rightarrow> listener \<Rightarrow> ('w, nstatus) m" where
  "inform_listener x entity msg l =
     (if l_knownParameters l = [] then do {
        r \<leftarrow> outside (x_inform x entity msg);
        ret (int_to_nstatus r) }
      else do {
        n \<leftarrow> gets e_notif;
        (if n_mandatoryParameterList n = None \<or> i_events msg = [] then fail (UB NullDeref) else ret ());
        let (mo, l') = listener_message (case n_mandatoryParameterList n of None \<Rightarrow> [] | Some ns \<Rightarrow> ns) l msg;
        on_notif (set_listener entity (Some l'));
        res \<leftarrow> (case mo of
            None \<Rightarrow> ret NS_COMPLETED
          | Some msg' \<Rightarrow> do { r \<leftarrow> outside (x_inform x entity msg'); ret (int_to_nstatus r) });
        (if res = NS_COMPLETED then clearKnownParameters entity else ret ());
        ret res })"

text \<open>Only the result of the ACS counts.\<close>

definition inform :: "'w env \<Rightarrow> inform_msg \<Rightarrow> ('w, nstatus) m" where
  "inform x msg = do {
     n \<leftarrow> gets e_notif;
     status \<leftarrow> (case n_acs n of
         Some l \<Rightarrow> if l_inform l then inform_listener x ENTITY_ACS msg l else ret NS_CANCELLED
       | None \<Rightarrow> ret NS_CANCELLED);
     n' \<leftarrow> gets e_notif;
     (case n_selfcare n' of
         Some l \<Rightarrow> if l_inform l then do { _ \<leftarrow> inform_listener x ENTITY_SELFCARE_APP msg l; ret () } else ret ()
       | None \<Rightarrow> ret ());
     ret status }"

definition send_to :: "(listener \<Rightarrow> bool) \<Rightarrow> (nat \<Rightarrow> 'w \<Rightarrow> int \<times> 'w) \<Rightarrow> ('w, nstatus) m" where
  "send_to has f = do {
     n \<leftarrow> gets e_notif;
     status \<leftarrow> (case n_acs n of
         Some l \<Rightarrow> if has l then do { r \<leftarrow> outside (f ENTITY_ACS); ret (int_to_nstatus r) } else ret NS_CANCELLED
       | None \<Rightarrow> ret NS_CANCELLED);
     (case n_selfcare n of
         Some l \<Rightarrow> if has l then do { _ \<leftarrow> outside (f ENTITY_SELFCARE_APP); ret () } else ret ()
       | None \<Rightarrow> ret ());
     ret status }"

definition notif_transferComplete :: "'w env \<Rightarrow> transfer \<Rightarrow> ('w, nstatus) m" where
  "notif_transferComplete x tr = send_to l_transferComplete (\<lambda>entity. x_transferComplete x entity tr)"

definition notif_requestDownload :: "'w env \<Rightarrow> download \<Rightarrow> ('w, nstatus) m" where
  "notif_requestDownload x dr = send_to l_requestDownload (\<lambda>entity. x_requestDownload x entity dr)"

end
