(* ===== verification/NotifProps.thy ===== *)
theory NotifProps
  imports Notif
begin

text \<open>
  The properties of \<open>DM_ENG_NotificationInterface.c\<close>: what is left of an Inform message for a listener
  that knows parameters already.
\<close>

text \<open>A parameter is known when the listener knows it with this value; a mandatory one is sent anyway.\<close>

definition known_value :: "pvs list \<Rightarrow> pvs \<Rightarrow> bool" where
  "known_value known p \<longleftrightarrow>
     (case find (\<lambda>k. pv_name k = pv_name p) known of None \<Rightarrow> False | Some k \<Rightarrow> \<not> differs (pv_value p) (pv_value k))"

definition known_name :: "pvs list \<Rightarrow> string \<Rightarrow> bool" where
  "known_name known n \<longleftrightarrow> n \<in> pv_name ` set known"

definition news :: "string list \<Rightarrow> pvs list \<Rightarrow> pvs \<Rightarrow> bool" where
  "news mandatory known p \<longleftrightarrow> \<not> known_value known p \<and>
     \<not> (known_name known (pv_name p) \<and> pv_name p \<in> set mandatory \<and> pv_name p = DM_ENG_PARAMETER_KEY_NAME)"

lemma filter_known_spec:
  "filter_known mandatory known ps c =
    (c \<or> (\<exists>p\<in>set ps. news mandatory known p),
     filter (\<lambda>p. pv_name p \<in> set mandatory \<or> \<not> known_value known p) ps,
     map pv_name (filter (\<lambda>p. known_name known (pv_name p) \<and> pv_name p \<notin> set mandatory) ps))"
proof (induction mandatory known ps c rule: filter_known.induct)
  case (2 mandatory known p ps change)
  show ?case
  proof (cases "find (\<lambda>k. pv_name k = pv_name p) known")
    case None
    then have "\<not> known_name known (pv_name p)"
      by (auto simp: find_None_iff known_name_def image_iff)
    with 2 None show ?thesis by (auto simp: news_def known_value_def)
  next
    case (Some k)
    then have "known_name known (pv_name p)"
      by (auto simp: find_Some_iff known_name_def image_iff) (metis nth_mem)
    with 2 Some show ?thesis
      by (auto simp: news_def known_value_def)
  qed
qed simp

lemma remove_event_nonempty: "length es > 1 \<Longrightarrow> remove_event ec es \<noteq> []"
  by (cases es) auto

text \<open>
  A message to a listener that knows parameters is dropped exactly when it has nothing but the
  event of a changed value and no news; otherwise it has at least one event and all the parameters that
  are mandatory or whose value is not the known one.
\<close>

theorem listener_message_spec:
  assumes "i_events msg \<noteq> []"
  shows "case fst (listener_message mandatory l msg) of
      None \<Rightarrow> map (code_text \<circ> ev_code) (i_events msg) = [EV_VALUE_CHANGE] \<and>
              filter (news mandatory (l_knownParameters l)) (i_parameters msg) = []
    | Some m \<Rightarrow> i_events m \<noteq> [] \<and>
        i_parameters m = filter (\<lambda>p. pv_name p \<in> set mandatory \<or> \<not> known_value (l_knownParameters l) p) (i_parameters msg) \<and>
        (i_events m = i_events msg \<or> filter (news mandatory (l_knownParameters l)) (i_parameters msg) = [])"
proof -
  obtain e es where e: "i_events msg = e # es" using assms by (cases "i_events msg") auto
  show ?thesis
    using remove_event_nonempty [of "i_events msg" EV_VALUE_CHANGE] e
    by (auto simp: listener_message_def filter_known_spec filter_empty_conv split: list.split)
qed

theorem listener_message_spec_witness:
  "case fst (listener_message [] \<lparr> l_knownParameters = [(''Device.a'', PT_STRING, Str ''v'')], l_knownParametersToRemove = [],
        l_inform = True, l_transferComplete = True, l_requestDownload = True \<rparr>
      \<lparr> i_id = [], i_events = [DM_ENG_newEventStruct EV_VALUE_CHANGE None], i_parameters = [(''Device.a'', PT_STRING, Str ''v'')],
        i_time = 0, i_retryCount = 0 \<rparr>) of
     None \<Rightarrow> True | Some m \<Rightarrow> i_events m \<noteq> []"
  using listener_message_spec [of "\<lparr> i_id = [], i_events = [DM_ENG_newEventStruct EV_VALUE_CHANGE None],
      i_parameters = [(''Device.a'', PT_STRING, Str ''v'')], i_time = 0, i_retryCount = 0 \<rparr>" "[]"
    "\<lparr> l_knownParameters = [(''Device.a'', PT_STRING, Str ''v'')], l_knownParametersToRemove = [],
        l_inform = True, l_transferComplete = True, l_requestDownload = True \<rparr>"]
  by (auto split: option.split)

end
