(* ===== verification/SchedRun.thy ===== *)
theory SchedRun
  imports Notif
begin

text \<open>
  \<open>dm_engine/src/DM_ENG_InformMessageScheduler.c\<close>, the scheduler thread \<open>run\<close> and the functions that the
  communication module calls during a session.

  The body of \<open>run\<close> is cut at the points where it waits or gives the scheduler mutex away; between two
  of them it is one computation, whose result is the next point.  The points carry the local variables
  that live across them.  A wait on the condition variable begins by forgetting earlier signals; the
  thread may leave it on a signal, at its time, or without a reason.
\<close>

section \<open>Sending a message\<close>

definition INITIAL_RETRY_DELAY :: int where "INITIAL_RETRY_DELAY = 5"
definition MAX_RETRY_DELAY :: int where "MAX_RETRY_DELAY = 2560"
definition MAX_SESSION_TIME :: int where "MAX_SESSION_TIME = 600"

text \<open>The parameters of the message: the mandatory ones and those that have changed.\<close>

definition message_parameters :: "'w env \<Rightarrow> ('w, pvs list \<times> bool) m" where
  "message_parameters x = for_params x ([], False) (\<lambda>p l.
     case l of (pl, containsChangedValue) \<Rightarrow>
       let valueChanged = DM_ENG_Parameter_isValueChanged p \<and> p_notification p \<noteq> NM_OFF in
       if p_mandatoryNotification p \<or> valueChanged then do {
         _ \<leftarrow> loadLeafParameterValue x (p_name p) False;
         resumeParameterLoopFrom (p_name p);
         po \<leftarrow> getCurrent;
         case po of
           None \<Rightarrow> do { fail (UB NullDeref); ret (True, l) }
         | Some q \<Rightarrow> ret (False, pl @ [(p_name q, p_type q, DM_ENG_Parameter_getFilteredValue q)], containsChangedValue \<or> valueChanged) }
       else ret (False, l))"

text \<open>A value that cannot be obtained leaves the pointer of the caller unset, which then is freed.\<close>

definition identity_value :: "'w env \<Rightarrow> string \<Rightarrow> ('w, cstr) m" where
  "identity_value x n = do {
     (res, v) \<leftarrow> getParameterValue x n;
     (if res \<noteq> 0 then fail (UB BadFree) else ret ());
     ret v }"

definition device_id :: "'w env \<Rightarrow> ('w, cstr list) m" where
  "device_id x = do {
     mn \<leftarrow> identity_value x DM_ENG_DEVICE_MANUFACTURER_NAME;
     oui \<leftarrow> identity_value x DM_ENG_DEVICE_MANUFACTURER_OUI_NAME;
     pc \<leftarrow> identity_value x DM_ENG_DEVICE_PRODUCT_CLASS_NAME;
     sn \<leftarrow> identity_value x DM_ENG_DEVICE_SERIAL_NUMBER_NAME;
     ret [mn, oui, pc, sn] }"

definition set_status :: "nstatus \<Rightarrow> ('w, unit) m" where
  "set_status st = on_sched (\<lambda>s. s\<lparr> s_sendMessageStatus := st \<rparr>)"

definition sendMessage :: "'w env \<Rightarrow> ('w, unit) m" where
  "sendMessage x = do {
     set_status NS_CANCELLED;
     ready \<leftarrow> gets (\<lambda>e. isReady (e_notif e));
     if \<not> ready then ret ()
     else do {
       (pl, containsChangedValue) \<leftarrow> message_parameters x;
       on_ctrl (updateValueChangeEvent containsChangedValue);
       empty \<leftarrow> gets (\<lambda>e. isEventsEmpty (ctrl_of e));
       if empty then ret ()
       else do {
         on_ctrl addMTransferEvents;
         i \<leftarrow> device_id x;
         evs \<leftarrow> gets (\<lambda>e. getEventsTab (ctrl_of e));
         t \<leftarrow> time_now;
         rc \<leftarrow> gets (\<lambda>e. retryCount (ctrl_of e));
         st \<leftarrow> inform x \<lparr> i_id = i, i_events = evs, i_parameters = pl, i_time = t, i_retryCount = rc \<rparr>;
         set_status st;
         on_ctrl deleteMTransferEvents;
         (if st = NS_COMPLETED then do { removeAllTransferResults; removeAllDownloadRequests } else ret ()) } } }"

section \<open>The session\<close>

definition in_session :: "sched \<Rightarrow> bool" where
  "in_session s \<longleftrightarrow> s_sendMessageStatus s = NS_SESSION_OPENING \<or> s_sendMessageStatus s = NS_SESSION_OPENED"

definition isSessionOpened :: "bool \<Rightarrow> ('w, bool) m" where
  "isSessionOpened openingOK = do {
     s \<leftarrow> gets e_sched;
     (if s_sendMessageStatus s = NS_SESSION_OPENING \<and> openingOK then do {
        clearEvents;
        clearKnownParameters ENTITY_ACS;
        set_status NS_SESSION_OPENED }
      else ret ());
     s' \<leftarrow> gets e_sched;
     (if s_sendMessageStatus s' = NS_SESSION_OPENED \<and> openingOK then
        (if s_transferIdSending s' \<noteq> 0 then do {
           removeTransferResult (s_transferIdSending s');
           on_sched (\<lambda>s. s\<lparr> s_transferIdSending := 0 \<rparr>) }
         else if s_requestDownloadSending s' then do {
           mgr_removeFirstDownloadRequest;
           on_sched (\<lambda>s. s\<lparr> s_requestDownloadSending := False \<rparr>) }
         else ret ())
      else ret ());
     gets (\<lambda>e. s_sendMessageStatus (e_sched e) = NS_SESSION_OPENED) }"

definition sessionClosed :: "bool \<Rightarrow> ('w, unit) m" where
  "sessionClosed success = do {
     (if success then do { _ \<leftarrow> isSessionOpened True; ret () } else ret ());
     on_sched (\<lambda>s. (if in_session s then signal else id)
       (s\<lparr> s_sendMessageStatus := (if success then NS_COMPLETED else NS_CANCELLED),
           s_transferIdSending := 0, s_requestDownloadSending := False \<rparr>)) }"

definition isReadyToClose :: "('w, bool) m" where
  "isReadyToClose = do {
     s \<leftarrow> gets e_sched;
     c \<leftarrow> gets ctrl_of;
     if s_transferIdSending s = 0 \<and> \<not> s_requestDownloadSending s then
       if getTransferResult c \<noteq> None \<or> getFirstDownloadRequest c \<noteq> None
       then do { on_sched signal; ret False }
       else ret True
     else ret False }"

text \<open>In an opened session, one result of a transfer or one request of a download is sent at a time.\<close>

definition send_next :: "'w env \<Rightarrow> ('w, unit) m" where
  "send_next x = do {
     tro \<leftarrow> gets (\<lambda>e. getTransferResult (ctrl_of e));
     case tro of
       Some tr \<Rightarrow> do {
         on_sched (\<lambda>s. s\<lparr> s_transferIdSending := tr_transferId tr \<rparr>);
         status \<leftarrow> notif_transferComplete x tr;
         (if status = NS_COMPLETED then removeTransferResult (tr_transferId tr) else ret ());
         (if status \<noteq> NS_SESSION_OPENING then on_sched (\<lambda>s. s\<lparr> s_transferIdSending := 0 \<rparr>) else ret ()) }
     | None \<Rightarrow> do {
         dro \<leftarrow> gets (\<lambda>e. getFirstDownloadRequest (ctrl_of e));
         case dro of
           None \<Rightarrow> ret ()
         | Some dr \<Rightarrow> do {
             on_sched (\<lambda>s. s\<lparr> s_requestDownloadSending := True \<rparr>);
             status \<leftarrow> notif_requestDownload x dr;
             (if status = NS_COMPLETED then mgr_removeFirstDownloadRequest else ret ());
             (if status \<noteq> NS_SESSION_OPENING then on_sched (\<lambda>s. s\<lparr> s_requestDownloadSending := False \<rparr>) else ret ()) } } }"

section \<open>The thread\<close>

datatype point =
    Starting
  | Top bool
  | Unlocking bool
  | Unlocked bool
  | WaitSignal
  | TimedWait int
  | ShortWait
  | Locking
  | Session int
  | Ending
  | Done

definition forget_signals :: "sched \<Rightarrow> sched" where
  "forget_signals s = s\<lparr> s_signalled := False \<rparr>"

definition run_start :: "'w env \<Rightarrow> ('w, point) m" where
  "run_start x = do { mgr_lock x; on_sched (\<lambda>s. s\<lparr> s_alive := True \<rparr>); ret (Top False) }"

text \<open>The end of a session: the events are forgotten or the session is to be retried.\<close>

definition next_retry_delay :: "int \<Rightarrow> int" where
  "next_retry_delay d = (if d = 0 then INITIAL_RETRY_DELAY else if d < MAX_RETRY_DELAY then d * 2 else d)"

definition session_end :: "('w, point) m" where
  "session_end = do {
     s \<leftarrow> gets e_sched;
     (if s_sendMessageStatus s = NS_COMPLETED then do {
        on_sched (\<lambda>s. s\<lparr> s_retryDelay := 0 \<rparr>);
        clearEvents }
      else if s_alive s then do {
        on_ctrl (\<lambda>c. snd (incRetryCount c));
        on_sched (\<lambda>s. s\<lparr> s_retryDelay := next_retry_delay (s_retryDelay s), s_retryOn := True \<rparr>) }
      else ret ());
     ret (Top True) }"

text \<open>The head of the session loop; the wait has a time limit.\<close>

definition session_loop :: "('w, point) m" where
  "session_loop = do {
     s \<leftarrow> gets e_sched;
     t \<leftarrow> time_now;
     if s_alive s \<and> in_session s then do { on_sched forget_signals; ret (Session (t + MAX_SESSION_TIME)) }
     else session_end }"

definition run_top :: "'w env \<Rightarrow> bool \<Rightarrow> ('w, point) m" where
  "run_top x inSession = do {
     pending \<leftarrow> gets (\<lambda>e. s_pendingEvents (e_sched e));
     manageEvents x pending;
     on_sched (\<lambda>s. s\<lparr> s_pendingEvents := [] \<rparr>);
     s \<leftarrow> gets e_sched;
     noEvent \<leftarrow> gets (\<lambda>e. isEventsEmpty (ctrl_of e));
     if \<not> s_alive s then ret Ending
     else if s_retryOn s \<or> noEvent \<or> inSession then ret (Unlocking noEvent)
     else do { sendMessage x; session_loop } }"

definition run_session :: "'w env \<Rightarrow> int \<Rightarrow> ('w, point) m" where
  "run_session x deadline = do {
     t \<leftarrow> time_now;
     on_sched (\<lambda>s. if in_session s \<and> deadline \<le> t
       then s\<lparr> s_sendMessageStatus := NS_CANCELLED, s_transferIdSending := 0, s_requestDownloadSending := False \<rparr> else s);
     s \<leftarrow> gets e_sched;
     (if s_sendMessageStatus s = NS_SESSION_OPENED \<and> s_transferIdSending s = 0 \<and> \<not> s_requestDownloadSending s
      then send_next x else ret ());
     session_loop }"

definition run_unlock :: "'w env \<Rightarrow> bool \<Rightarrow> ('w, point) m" where
  "run_unlock x noEvent = do { unlock x; ret (Unlocked noEvent) }"

definition run_end :: "'w env \<Rightarrow> ('w, point) m" where
  "run_end x = do { unlock x; on_sched (\<lambda>s. s\<lparr> s_alive := False \<rparr>); ret Done }"

text \<open>The time of the next inform, and the least time to wait after a failed session (0 for none).\<close>

definition wait_until :: "int \<Rightarrow> int \<Rightarrow> sched \<Rightarrow> int \<times> int" where
  "wait_until t timeout s =
     (if s_retryOn s then
        let minTime = t + INITIAL_RETRY_DELAY
        in (if timeout < minTime then minTime
            else if timeout > t + s_retryDelay s then t + s_retryDelay s else timeout, minTime)
      else (timeout, 0))"

definition leave_wait :: "('w, point) m" where
  "leave_wait = do {
     s \<leftarrow> gets e_sched;
     if s_alive s then do { on_sched forget_signals; ret ShortWait } else ret Done }"

definition timed_wait :: "int \<Rightarrow> int \<Rightarrow> ('w, point) m" where
  "timed_wait t minTime = do {
     s \<leftarrow> gets e_sched;
     if s_nextInformTime s > t then do { on_sched forget_signals; ret (TimedWait minTime) } else leave_wait }"

definition run_unlocked :: "bool \<Rightarrow> ('w, point) m" where
  "run_unlocked noEvent = do {
     s \<leftarrow> gets e_sched;
     if (noEvent \<or> s_retryOn s) \<and> s_pendingEvents s = [] then do {
       t \<leftarrow> time_now;
       timeout \<leftarrow> gets (\<lambda>e. getNextTimeout (ctrl_of e));
       let (next, minTime) = wait_until t timeout s;
       on_sched (\<lambda>s. s\<lparr> s_nextInformTime := next, s_retryOn := False \<rparr>);
       if next = 0 then do { on_sched forget_signals; ret WaitSignal } else timed_wait t minTime }
     else do { on_sched forget_signals; ret ShortWait } }"

definition run_woken :: "int \<Rightarrow> ('w, point) m" where
  "run_woken minTime = do {
     t \<leftarrow> time_now;
     s \<leftarrow> gets e_sched;
     on_sched (\<lambda>s. s\<lparr> s_nextInformTime := (if s_alive s \<and> minTime > 0 \<and> t < minTime then minTime else 0) \<rparr>);
     if s_alive s \<and> minTime > 0 \<and> t < minTime then timed_wait t minTime else leave_wait }"

definition run_short :: "('w, point) m" where
  "run_short = do { s \<leftarrow> gets e_sched; ret (if s_alive s then Locking else Done) }"

definition run_lock :: "'w env \<Rightarrow> ('w, point) m" where
  "run_lock x = do { mgr_lock x; ret (Top False) }"

fun run_point :: "'w env \<Rightarrow> point \<Rightarrow> ('w, point) m" where
  "run_point x Starting = run_start x"
| "run_point x (Top inSession) = run_top x inSession"
| "run_point x (Unlocking noEvent) = run_unlock x noEvent"
| "run_point x (Unlocked noEvent) = run_unlocked noEvent"
| "run_point x WaitSignal = leave_wait"
| "run_point x (TimedWait minTime) = run_woken minTime"
| "run_point x ShortWait = run_short"
| "run_point x Locking = run_lock x"
| "run_point x (Session deadline) = run_session x deadline"
| "run_point x Ending = run_end x"
| "run_point x Done = ret Done"

end
