(* ===== verification/SchedFrame.thy ===== *)
theory SchedFrame
  imports Frame SchedRun
begin

text \<open>
  What unlocking, the notifications of the system and the sending of messages leave alone: the
  interface of \<open>Frame\<close> extended by the variables of the parameter manager and of the notification
  interface.
\<close>

locale engine_frame_all = engine_frame I for I :: "'w engine \<Rightarrow> bool" +
  assumes mgr: "I e \<Longrightarrow> I (e\<lparr> e_mgr := g \<rparr>)"
    and notif: "I e \<Longrightarrow> I (e\<lparr> e_notif := n \<rparr>)"
begin

lemma k_on_mgr: "keeps I (on_mgr f)"
  by (simp add: keeps_def mgr)

lemma k_on_notif: "keeps I (on_notif f)"
  by (simp add: keeps_def notif)

lemma k_isPeriodic: "keeps I isPeriodicInformEnabled"
  unfolding isPeriodicInformEnabled_def by (rule k_on_param)

lemma k_computeNext: "keeps I (computeNextPeriodicInformTime x)"
  unfolding computeNextPeriodicInformTime_def by (intro keeps_intros k_isPeriodic k_basic)

lemma k_checkNext: "keeps I changeOnPeriodicInform"
  unfolding changeOnPeriodicInform_def checkNextInformTime_def
  by (intro keeps_intros k_on_sched) simp

lemma k_process_pending: "keeps I (process_pending k x)"
proof (induction k)
  case 0
  show ?case
    unfolding process_pending.simps [of 0] nat.case by (intro keeps_intros k_basic)
next
  case (Suc k)
  then show ?case
    unfolding process_pending.simps [of "Suc k"] nat.case
    by (intro keeps_intros k_basic k_on_mgr k_process k_cursors)
qed

lemma k_process_diagnostics: "keeps I (process_diagnostics l)"
  by (induction l rule: process_diagnostics.induct)
    (auto simp: razDiagnosticsResult_def Let_def intro!: keeps_intros k_basic)

lemma k_unlock: "keeps I (unlock x)"
  unfolding unlock_def check_computed_def
  by (intro keeps_intros k_computeNext k_param k_cursors k_checkNext k_on_mgr k_process_pending k_checkComputedChanged
      k_process_diagnostics k_updateAcsParameters k_world k_data)

lemma k_mgr_lock: "keeps I (mgr_lock x)"
  unfolding mgr_lock_def lockDM_def tryLock_def by (intro keeps_intros k_basic k_on_mgr)

lemma k_notified: "keeps I (notified x n)"
  unfolding notified_def tryLock_def by (intro keeps_intros k_basic k_process k_unlock k_on_mgr)

lemma k_apply: "keeps I (applyTransferRequest x tr)"
  unfolding applyTransferRequest_def by (intro keeps_intros k_basic k_applied)

lemma k_manage_transfers: "keeps I (manage_transfers x is)"
proof (induction "is")
  case (Cons i "is")
  then show ?case
    unfolding manage_transfers.simps manage_transfer_def addEventOnce_def
    by (intro keeps_intros k_basic k_apply k_applied)
qed simp

lemma k_manageEvents: "keeps I (manageEvents x evs)"
  unfolding manageEvents_def addEventOnce_def
  by (intro keeps_intros k_basic k_cursors k_computeNext k_manage_transfers)

lemma k_clearEvents: "keeps I clearEvents"
  unfolding clearEvents_def by (intro keeps_intros k_basic k_cursors)

lemma k_queues: "keeps I (removeTransferResult i)" "keeps I removeAllTransferResults"
  "keeps I mgr_removeFirstDownloadRequest" "keeps I removeAllDownloadRequests"
  unfolding removeTransferResult_def removeAllTransferResults_def mgr_removeFirstDownloadRequest_def removeAllDownloadRequests_def
  by (intro keeps_intros k_basic k_cursors)+

lemma k_clearKnown: "keeps I (clearKnownParameters n)"
  unfolding clearKnownParameters_def by (intro keeps_intros k_basic k_on_notif)

lemma k_inform: "keeps I (inform x msg)"
  unfolding inform_def inform_listener_def Let_def
  by (intro keeps_intros k_basic k_on_notif k_clearKnown)

lemma k_send_to: "keeps I (send_to has f)"
  unfolding send_to_def by (intro keeps_intros k_basic)

lemma k_loadLeafParameterValue: "keeps I (loadLeafParameterValue x n b)"
  unfolding loadLeafParameterValue_def
  by (intro keeps_intros k_basic k_param k_checkComputedChanged k_isLoaded k_load)

lemma k_message_parameters: "keeps I (message_parameters x)"
  unfolding message_parameters_def Let_def
  by (intro keeps_intros k_cursors k_loadLeafParameterValue k_basic)

lemma k_device_id: "keeps I (device_id x)"
  unfolding device_id_def identity_value_def getParameterValue_def
  by (intro keeps_intros k_basic k_param k_load)

end

end
