(* ===== verification/SchedRunProps.thy ===== *)
theory SchedRunProps
  imports SchedFrame
begin

text \<open>
  The scheduler thread beside the other threads of the agent, as a relation between states: a step
  is one of the thread, from one of its points to the next, an entry point called by another thread,
  a call of the communication module, or the passing of time.
\<close>

section \<open>The step relation\<close>

inductive sched_step :: "'w env \<Rightarrow> point \<times> 'w engine \<Rightarrow> point \<times> 'w engine \<Rightarrow> bool" for x where
  thread: "run_state (run_point x pc) e = (pc', e') \<Longrightarrow> sched_step x (pc, e) (pc', e')"
| entry: "sched_entry (e_sched e) (e_sched e') \<Longrightarrow> sched_step x (pc, e) (pc, e')"
| opened: "run_state (isSessionOpened b) e = (r, e') \<Longrightarrow> sched_step x (pc, e) (pc, e')"
| closed: "run_state (sessionClosed b) e = (r, e') \<Longrightarrow> sched_step x (pc, e) (pc, e')"
| ready: "run_state isReadyToClose e = (r, e') \<Longrightarrow> sched_step x (pc, e) (pc, e')"
| tick: "time_of e \<le> t \<Longrightarrow> sched_step x (pc, e) (pc, e\<lparr> e_data := (e_data e)\<lparr> now := t \<rparr> \<rparr>)"

inductive_cases sched_stepE: "sched_step x (pc, e) (pc', e')"

inductive reachable :: "'w env \<Rightarrow> point \<times> 'w engine \<Rightarrow> bool" for x where
  init: "s_retryDelay (e_sched e) = 0 \<Longrightarrow> reachable x (Starting, e)"
| step: "reachable x st \<Longrightarrow> sched_step x st st' \<Longrightarrow> reachable x st'"

text \<open>The operations that other threads start are entry points: they are steps of the rule \<open>entry\<close>.\<close>

interpretation entry_frame: engine_frame_all "\<lambda>e. sched_entry s (e_sched e)" for s
  by unfold_locales (auto intro: sched_entry_trans)

lemma notified_entry: "sched_step x (pc, e) (pc, snd (run_state (notified x n) e))"
  by (rule entry) (rule keepsD [OF entry_frame.k_notified], simp)

lemma unlock_entry: "sched_step x (pc, e) (pc, snd (run_state (unlock x) e))"
  by (rule entry) (rule keepsD [OF entry_frame.k_unlock], simp)

section \<open>The delay of retries\<close>

definition delay_ok :: "int \<Rightarrow> bool" where
  "delay_ok d \<longleftrightarrow> d \<in> {0, 5, 10, 20, 40, 80, 160, 320, 640, 1280, 2560}"

interpretation delay_frame: engine_frame_all "\<lambda>e. delay_ok (s_retryDelay (e_sched e))"
  by unfold_locales (auto simp: sched_entry_def)

lemma delay_next: "delay_ok d \<Longrightarrow> delay_ok (next_retry_delay d)"
  by (auto simp: delay_ok_def next_retry_delay_def INITIAL_RETRY_DELAY_def MAX_RETRY_DELAY_def)

lemma k_delay: "(\<And>s. delay_ok (s_retryDelay s) \<Longrightarrow> delay_ok (s_retryDelay (f s))) \<Longrightarrow>
    keeps (\<lambda>e. delay_ok (s_retryDelay (e_sched e))) (on_sched f)"
  by (simp add: keeps_def)

lemma delay_0: "delay_ok 0"
  by (simp add: delay_ok_def)

lemmas k_delays = keeps_intros delay_frame.k_basic delay_frame.k_mgr_lock delay_frame.k_unlock delay_frame.k_manageEvents
  delay_frame.k_clearEvents delay_frame.k_queues delay_frame.k_inform delay_frame.k_send_to delay_frame.k_clearKnown
  delay_frame.k_message_parameters delay_frame.k_device_id k_delay

lemma delay_session_loop: "keeps (\<lambda>e. delay_ok (s_retryDelay (e_sched e))) session_loop"
  unfolding session_loop_def session_end_def
  by (intro k_delays) (auto simp: forget_signals_def delay_next delay_0)

lemma delay_waits:
  "keeps (\<lambda>e. delay_ok (s_retryDelay (e_sched e))) leave_wait"
  "keeps (\<lambda>e. delay_ok (s_retryDelay (e_sched e))) (timed_wait t m)"
  "keeps (\<lambda>e. delay_ok (s_retryDelay (e_sched e))) (run_unlocked b)"
  "keeps (\<lambda>e. delay_ok (s_retryDelay (e_sched e))) (run_woken m)"
proof -
  show 1: "keeps (\<lambda>e. delay_ok (s_retryDelay (e_sched e))) leave_wait"
    unfolding leave_wait_def by (intro k_delays) (simp add: forget_signals_def)
  show 2: "keeps (\<lambda>e. delay_ok (s_retryDelay (e_sched e))) (timed_wait t m)" for t m
    unfolding timed_wait_def by (intro k_delays 1) (simp add: forget_signals_def)
  show "keeps (\<lambda>e. delay_ok (s_retryDelay (e_sched e))) (run_unlocked b)"
    unfolding run_unlocked_def Let_def by (intro k_delays 2) (simp_all add: forget_signals_def)
  show "keeps (\<lambda>e. delay_ok (s_retryDelay (e_sched e))) (run_woken m)"
    unfolding run_woken_def by (intro k_delays 1 2) simp
qed

lemma delay_top: "keeps (\<lambda>e. delay_ok (s_retryDelay (e_sched e))) (run_top x b)"
  unfolding run_top_def sendMessage_def set_status_def by (intro k_delays delay_session_loop) auto

lemma delay_session: "keeps (\<lambda>e. delay_ok (s_retryDelay (e_sched e))) (run_session x d)"
  unfolding run_session_def send_next_def notif_transferComplete_def notif_requestDownload_def
  by (intro k_delays delay_session_loop) auto

lemma delay_point: "keeps (\<lambda>e. delay_ok (s_retryDelay (e_sched e))) (run_point x pc)"
proof -
  have "keeps (\<lambda>e. delay_ok (s_retryDelay (e_sched e))) (run_start x)"
    "keeps (\<lambda>e. delay_ok (s_retryDelay (e_sched e))) (run_unlock x b)"
    "keeps (\<lambda>e. delay_ok (s_retryDelay (e_sched e))) (run_end x)"
    "keeps (\<lambda>e. delay_ok (s_retryDelay (e_sched e))) (run_lock x)"
    "keeps (\<lambda>e. delay_ok (s_retryDelay (e_sched e))) run_short" for b
    unfolding run_start_def run_unlock_def run_end_def run_lock_def run_short_def by (intro k_delays; simp)+
  then show ?thesis by (cases pc) (simp_all add: delay_waits delay_top delay_session)
qed

lemma delay_calls:
  "keeps (\<lambda>e. delay_ok (s_retryDelay (e_sched e))) (isSessionOpened b)"
  "keeps (\<lambda>e. delay_ok (s_retryDelay (e_sched e))) (sessionClosed b)"
  "keeps (\<lambda>e. delay_ok (s_retryDelay (e_sched e))) isReadyToClose"
proof -
  show 1: "keeps (\<lambda>e. delay_ok (s_retryDelay (e_sched e))) (isSessionOpened b)" for b
    unfolding isSessionOpened_def set_status_def by (intro k_delays) simp_all
  show "keeps (\<lambda>e. delay_ok (s_retryDelay (e_sched e))) (sessionClosed b)"
    unfolding sessionClosed_def by (intro k_delays 1) (simp add: signal_def)
  show "keeps (\<lambda>e. delay_ok (s_retryDelay (e_sched e))) isReadyToClose"
    unfolding isReadyToClose_def by (intro k_delays) (simp add: signal_def)
qed

lemma delay_invariant: "reachable x st \<Longrightarrow> delay_ok (s_retryDelay (e_sched (snd st)))"
proof (induction rule: reachable.induct)
  case (init e)
  then show ?case by (simp add: delay_0)
next
  case (step st st')
  from step.hyps(2) step.IH show ?case
  proof (cases rule: sched_step.cases)
    case (thread pc e pc' e')
    then show ?thesis using step.IH keepsD [OF delay_point, of e x pc] by simp
  next
    case (entry e e')
    then show ?thesis using step.IH by (simp add: sched_entry_def)
  next
    case (opened b e r e')
    then show ?thesis using step.IH keepsD [OF delay_calls(1), of e b] by simp
  next
    case (closed b e r e')
    then show ?thesis using step.IH keepsD [OF delay_calls(2), of e b] by simp
  next
    case (ready e r e')
    then show ?thesis using step.IH keepsD [OF delay_calls(3), of e] by simp
  qed simp
qed

text \<open>
  C4: The delay before a failed session is tried again is none or five seconds doubled at most nine
  times, in every state that the scheduler thread can reach beside the other threads.
\<close>

theorem retry_delay_bounded:
  assumes "reachable x (pc, e)"
  shows "s_retryDelay (e_sched e) \<in> {0, 5, 10, 20, 40, 80, 160, 320, 640, 1280, 2560}"
  using delay_invariant [OF assms] by (simp add: delay_ok_def)

theorem retry_delay_bounded_witness:
  "s_retryDelay (e_sched (snd (run_state (run_point demo_env Starting) (engine_init ())))) \<in> {0, 5, 10, 20, 40, 80, 160, 320, 640, 1280, 2560}"
proof (rule retry_delay_bounded)
  have "reachable demo_env (Starting, engine_init ())"
    by (rule reachable.init) (simp add: engine_init_def sched_init_def)
  from reachable.step [OF this thread]
  show "reachable demo_env (fst (run_state (run_point demo_env Starting) (engine_init ())), snd (run_state (run_point demo_env Starting) (engine_init ())))"
    by (metis prod.collapse)
qed

section \<open>Waiting\<close>

text \<open>
  What a waiting thread waits for has not happened yet, or it was signalled: an event that is pending,
  or the end of a session.
\<close>

fun wait_inv :: "point \<times> 'w engine \<Rightarrow> bool" where
  "wait_inv (WaitSignal, e) = (s_pendingEvents (e_sched e) = [] \<or> s_signalled (e_sched e))"
| "wait_inv (TimedWait m, e) = (s_pendingEvents (e_sched e) = [] \<or> s_signalled (e_sched e) \<or> s_nextInformTime (e_sched e) = m)"
| "wait_inv (Session d, e) = ((in_session (e_sched e) \<and> s_alive (e_sched e)) \<or> s_signalled (e_sched e))"
| "wait_inv (_, e) = True"

definition always :: "('w, point) m \<Rightarrow> bool" where
  "always m \<longleftrightarrow> (\<forall>e. wait_inv (run_state m e))"

named_theorems always_intros \<open>computations that end in a state of the invariant\<close>

lemma always_bind [always_intros]: "(\<And>y. always (f y)) \<Longrightarrow> always (m \<bind> f)"
  by (simp add: always_def case_prod_beta)

lemma always_if [always_intros]: "(c \<Longrightarrow> always m) \<Longrightarrow> (\<not> c \<Longrightarrow> always m') \<Longrightarrow> always (if c then m else m')"
  by simp

lemma always_ret [always_intros]:
  "always (ret Ending)" "always (ret (Unlocking b))" "always (ret (Unlocked b))" "always (ret (Top b))"
  "always (ret Done)" "always (ret ShortWait)" "always (ret Locking)"
  by (simp_all add: always_def)

lemma always_session_loop [always_intros]: "always session_loop"
proof -
  have "always session_end" unfolding session_end_def by (intro always_intros)
  then show ?thesis by (auto simp: session_loop_def always_def forget_signals_def in_session_def)
qed

lemma always_leave [always_intros]: "always leave_wait"
  unfolding leave_wait_def by (intro always_intros)

lemma wait_woken: "wait_inv (run_state (run_woken m) e)"
  using always_leave
  by (auto simp: run_woken_def timed_wait_def always_def forget_signals_def)

lemma wait_unlocked: "wait_inv (run_state (run_unlocked b) e)"
  using always_leave
  by (auto simp: run_unlocked_def timed_wait_def always_def forget_signals_def case_prod_beta Let_def)

lemma wait_point:
  fixes x :: "'w env"
  shows "wait_inv (run_state (run_point x pc) e)"
proof -
  have "always (run_start x)" "always (run_unlock x b)" "always (run_end x)" "always (run_lock x)"
    "always (run_short :: ('w, point) m)" "always (leave_wait :: ('w, point) m)"
    "always (run_top x b)" "always (run_session x d)" for b d
    unfolding run_start_def run_unlock_def run_end_def run_lock_def run_short_def run_top_def run_session_def
    by (intro always_intros | simp add: always_def)+
  then show ?thesis by (cases pc) (simp_all add: wait_woken wait_unlocked always_def)
qed

text \<open>The calls of other threads keep it.\<close>

definition call_ok :: "sched \<Rightarrow> 'w engine \<Rightarrow> bool" where
  "call_ok s e \<longleftrightarrow> (s_pendingEvents (e_sched e) = s_pendingEvents s \<or> s_signalled (e_sched e)) \<and>
     (s_signalled s \<longrightarrow> s_signalled (e_sched e)) \<and> s_nextInformTime (e_sched e) = s_nextInformTime s \<and>
     (in_session s \<and> s_alive s \<longrightarrow> (in_session (e_sched e) \<and> s_alive (e_sched e)) \<or> s_signalled (e_sched e))"

lemma call_ok_refl: "call_ok (e_sched e) e"
  by (simp add: call_ok_def)

lemma call_ok_wait: "wait_inv (pc, e) \<Longrightarrow> call_ok (e_sched e) e' \<Longrightarrow> wait_inv (pc, e')"
  by (cases pc) (auto simp: call_ok_def)

interpretation call_frame: engine_frame_all "call_ok s" for s
  by unfold_locales (auto simp: call_ok_def sched_entry_def in_session_def)

lemma k_call:
  "(\<And>e :: 'w engine. call_ok s e \<Longrightarrow> call_ok s (e\<lparr> e_sched := f (e_sched e) \<rparr>)) \<Longrightarrow>
   keeps (call_ok s) (on_sched f :: ('w, unit) m)"
  by (simp add: keeps_def)

lemma call_ok_calls:
  "keeps (call_ok s) (isSessionOpened b)" "keeps (call_ok s) (sessionClosed b)" "keeps (call_ok s) isReadyToClose"
proof -
  show 1: "keeps (call_ok s) (isSessionOpened b)" for b
    unfolding isSessionOpened_def set_status_def
    by (intro keeps_intros call_frame.k_clearEvents call_frame.k_clearKnown call_frame.k_queues k_call)
      (auto simp: call_ok_def in_session_def)
  show "keeps (call_ok s) (sessionClosed b)"
    unfolding sessionClosed_def by (intro keeps_intros 1 k_call) (auto simp: call_ok_def signal_def in_session_def)
  show "keeps (call_ok s) isReadyToClose"
    unfolding isReadyToClose_def by (intro keeps_intros k_call) (auto simp: call_ok_def signal_def in_session_def)
qed

lemma wait_invariant: "reachable x st \<Longrightarrow> wait_inv st"
proof (induction rule: reachable.induct)
  case (step st st')
  from step.hyps(2) show ?case
  proof (cases rule: sched_step.cases)
    case (thread pc e pc' e')
    then show ?thesis using wait_point [of x pc e] by simp
  next
    case (entry e e' pc)
    then have "call_ok (e_sched e) e'" by (auto simp: call_ok_def sched_entry_def in_session_def)
    then show ?thesis using step.IH entry call_ok_wait by blast
  next
    case (opened b e r e' pc)
    then have "call_ok (e_sched e) e'" using keepsD [OF call_ok_calls(1) call_ok_refl, of e b] by simp
    then show ?thesis using step.IH opened call_ok_wait by blast
  next
    case (closed b e r e' pc)
    then have "call_ok (e_sched e) e'" using keepsD [OF call_ok_calls(2) call_ok_refl, of e b] by simp
    then show ?thesis using step.IH closed call_ok_wait by blast
  next
    case (ready e r e' pc)
    then have "call_ok (e_sched e) e'" using keepsD [OF call_ok_calls(3) call_ok_refl, of e] by simp
    then show ?thesis using step.IH ready call_ok_wait by blast
  next
    case (tick e t pc)
    then have "call_ok (e_sched e) (e\<lparr> e_data := (e_data e)\<lparr> now := t \<rparr> \<rparr>)" by (simp add: call_ok_def)
    then show ?thesis using step.IH tick call_ok_wait by blast
  qed
qed simp


text \<open>A run where the agent is stopped just before its thread waits.\<close>

definition step_of :: "'w env \<Rightarrow> point \<times> 'w engine \<Rightarrow> point \<times> 'w engine" where
  "step_of x st = run_state (run_point x (fst st)) (snd st)"

lemma reachable_step_of: "reachable x st \<Longrightarrow> reachable x (step_of x st)"
  by (cases st; rule reachable.step, assumption) (simp add: step_of_def, metis sched_step.thread prod.collapse)

lemma reachable_stop: "reachable x (pc, e) \<Longrightarrow> reachable x (pc, e\<lparr> e_sched := sched_stop (e_sched e) \<rparr>)"
  by (rule reachable.step, assumption, rule entry) simp

definition open_engine :: "unit engine" where
  "open_engine = (engine_init ())\<lparr> e_mgr := mgr_init\<lparr> m_open := True \<rparr> \<rparr>"

definition before_stop :: "point \<times> unit engine" where
  "before_stop = (step_of demo_env ^^ 3) (Starting, open_engine)"

definition after_stop :: "point \<times> unit engine" where
  "after_stop = step_of demo_env (fst before_stop, (snd before_stop)\<lparr> e_sched := sched_stop (e_sched (snd before_stop)) \<rparr>)"

lemma after_stop_waits: "fst after_stop = WaitSignal \<and> \<not> s_alive (e_sched (snd after_stop)) \<and> \<not> s_signalled (e_sched (snd after_stop)) \<and> e_fault (snd after_stop) = None"
  by code_simp

lemma reachable_after_stop: "reachable demo_env after_stop"
proof -
  have "reachable demo_env (Starting, open_engine)"
    by (rule reachable.init) (simp add: open_engine_def engine_init_def sched_init_def)
  then have "reachable demo_env before_stop"
    by (simp add: before_stop_def eval_nat_numeral reachable_step_of)
  then show ?thesis
    unfolding after_stop_def by (intro reachable_step_of reachable_stop) simp
qed

text \<open>
  C3: No event waits for a thread that nobody wakes: in every reachable state where the scheduler waits
  and an event is pending, the signal was given, or the wait is the one that delays a retry and ends at
  its time; and where it waits for the end of a session that has ended, the signal was given.
\<close>

theorem no_lost_wakeup:
  assumes "reachable x (pc, e)" "pc = WaitSignal \<or> pc = TimedWait m \<or> pc = Session d"
    "\<not> s_signalled (e_sched e)"
  shows "case pc of
      WaitSignal \<Rightarrow> s_pendingEvents (e_sched e) = []
    | TimedWait m \<Rightarrow> s_pendingEvents (e_sched e) = [] \<or> s_nextInformTime (e_sched e) = m
    | _ \<Rightarrow> in_session (e_sched e) \<and> s_alive (e_sched e)"
  using wait_invariant [OF assms(1)] assms(2,3) by auto

theorem no_lost_wakeup_witness: "s_pendingEvents (e_sched (snd after_stop)) = []"
proof -
  have "reachable demo_env (WaitSignal, snd after_stop)"
    using reachable_after_stop after_stop_waits by (metis prod.collapse)
  from no_lost_wakeup [OF this] after_stop_waits show ?thesis by simp
qed

text \<open>
  The thread that delays a retry leaves its wait no sooner than the least time of the delay, however
  often it is woken before.
\<close>

theorem retry_not_early:
  assumes "sched_step x (TimedWait m, e) (pc, e')" "s_alive (e_sched e)" "0 < m" "pc \<noteq> TimedWait m"
  shows "m \<le> time_of e'"
  using assms(1)
proof (cases rule: sched_step.cases)
  case thread
  then show ?thesis using assms(2-4)
    by (auto simp: run_woken_def timed_wait_def leave_wait_def forget_signals_def split: if_splits)
qed (use assms in auto)

definition retrying :: "int \<Rightarrow> unit engine" where
  "retrying t = (engine_init ())\<lparr> e_data := data_init\<lparr> now := t \<rparr>, e_sched := sched_init\<lparr> s_alive := True, s_nextInformTime := 105 \<rparr> \<rparr>"

theorem retry_not_early_witness:
  "fst (step_of demo_env (TimedWait 105, retrying 107)) = ShortWait \<and> 105 \<le> time_of (snd (step_of demo_env (TimedWait 105, retrying 107)))"
proof
  show *: "fst (step_of demo_env (TimedWait 105, retrying 107)) = ShortWait" by code_simp
  have "sched_step demo_env (TimedWait 105, retrying 107) (ShortWait, snd (step_of demo_env (TimedWait 105, retrying 107)))"
    using * by (intro sched_step.thread) (metis step_of_def fst_conv snd_conv prod.collapse)
  then show "105 \<le> time_of (snd (step_of demo_env (TimedWait 105, retrying 107)))"
    by (rule retry_not_early) (simp_all add: retrying_def)
qed

text \<open>
  After a failed session the thread waits at least five seconds and at most the delay of retries;
  where no inform is planned, it waits five seconds whatever the delay has become.
\<close>

theorem retry_wait_bounds:
  assumes "s_retryOn s" "5 \<le> s_retryDelay s" "0 \<le> t" "wait_until t timeout s = (next, least)"
  shows "t + 5 \<le> next \<and> next \<le> t + s_retryDelay s \<and> least = t + 5 \<and> (timeout = 0 \<longrightarrow> next = t + 5)"
  using assms by (auto simp: wait_until_def INITIAL_RETRY_DELAY_def Let_def split: if_splits)

theorem retry_wait_bounds_witness:
  "wait_until 100 0 (sched_init\<lparr> s_retryOn := True, s_retryDelay := 640 \<rparr>) = (105, 105) \<and> 105 \<le> (100 + 640 :: int)"
proof
  show *: "wait_until 100 0 (sched_init\<lparr> s_retryOn := True, s_retryDelay := 640 \<rparr>) = (105, 105)" by code_simp
  show "105 \<le> (100 + 640 :: int)" using retry_wait_bounds [OF _ _ _ *] by simp
qed

text \<open>
  C31: A session that has reached its time limit ends: the thread goes on with the events, whatever the
  communication module did.
\<close>

theorem session_times_out:
  assumes "in_session (e_sched e)" "d \<le> time_of e"
  shows "fst (run_state (run_session x d) e) = Top True \<and>
    s_sendMessageStatus (e_sched (snd (run_state (run_session x d) e))) = NS_CANCELLED"
  using assms by (simp add: run_session_def session_loop_def session_end_def in_session_def)

theorem session_times_out_witness:
  "fst (run_state (run_session demo_env 600) (retrying 601\<lparr> e_sched := sched_init\<lparr> s_sendMessageStatus := NS_SESSION_OPENED \<rparr> \<rparr>)) = Top True"
  by (rule conjunct1, rule session_times_out) (simp_all add: retrying_def in_session_def)

text \<open>
  C32: A stop that comes while the thread gives the lock of the data model away is lost: there is a
  reachable state where the stopped thread waits for a signal that is not given.
\<close>

theorem stop_is_lost: "\<exists>e. reachable demo_env (WaitSignal, e) \<and> \<not> s_alive (e_sched e) \<and> \<not> s_signalled (e_sched e)"
  using reachable_after_stop after_stop_waits by (metis prod.collapse)

end
