(* ===== verification/Rpc.thy ===== *)
theory Rpc
  imports SchedRun
begin

text \<open>
  \<open>dm_engine/src/DM_ENG_RPCInterface.c\<close>: the procedures of TR-069 as the communication module and the
  local applications call them.  A call takes the lock of the parameters for itself, unless it is made
  by the ACS in its session or by the entity that holds the lock.
\<close>

section \<open>The lock of one call\<close>

definition toLockForOneCall :: "nat \<Rightarrow> ('w, bool) m" where
  "toLockForOneCall entity = do {
     opened \<leftarrow> (if entity \<noteq> ENTITY_ACS then ret False else isSessionOpened True);
     cur \<leftarrow> gets e_current;
     ret (\<not> opened \<and> cur \<noteq> Some entity) }"

definition begin_call :: "'w env \<Rightarrow> nat \<Rightarrow> ('w, bool) m" where
  "begin_call x entity = do {
     lockedForThisCall \<leftarrow> toLockForOneCall entity;
     (if lockedForThisCall then mgr_lock x else ret ());
     ret lockedForThisCall }"

definition DM_ENG_Lock :: "'w env \<Rightarrow> nat \<Rightarrow> ('w, unit) m" where
  "DM_ENG_Lock x entity = do {
     (if entity \<noteq> ENTITY_SYSTEM then mgr_lock x else lockDM);
     update (\<lambda>e. e\<lparr> e_current := Some entity \<rparr>) }"

definition DM_ENG_Unlock :: "'w env \<Rightarrow> ('w, unit) m" where
  "DM_ENG_Unlock x = do { update (\<lambda>e. e\<lparr> e_current := None \<rparr>); unlock x }"

section \<open>Notifications and the session\<close>

definition DM_ENG_ActivateNotification :: "nat \<Rightarrow> bool \<Rightarrow> bool \<Rightarrow> bool \<Rightarrow> bool \<Rightarrow> ('w, unit) m" where
  "DM_ENG_ActivateNotification = activate"

definition DM_ENG_DeactivateNotification :: "nat \<Rightarrow> ('w, unit) m" where
  "DM_ENG_DeactivateNotification = deactivate"

definition DM_ENG_SessionOpened :: "nat \<Rightarrow> ('w, unit) m" where
  "DM_ENG_SessionOpened entity = do {
     opened \<leftarrow> (if entity = ENTITY_ACS then isSessionOpened True else ret False);
     (if opened then mgr_sync False else ret ()) }"

definition DM_ENG_IsReadyToClose :: "nat \<Rightarrow> ('w, bool) m" where
  "DM_ENG_IsReadyToClose entity = do {
     opened \<leftarrow> (if entity = ENTITY_ACS then isSessionOpened True else ret False);
     if opened then isReadyToClose else ret True }"

definition DM_ENG_SessionClosed :: "'w env \<Rightarrow> nat \<Rightarrow> bool \<Rightarrow> ('w, unit) m" where
  "DM_ENG_SessionClosed x entity success =
     (if entity = ENTITY_ACS then do { sessionClosed success; checkReboot x } else ret ())"

text \<open>The configuration of the target leaves one of the procedures out.\<close>

definition rpc_methods :: "(bool \<times> string) list" where
  "rpc_methods = [(True, ''GetRPCMethods''), (True, ''SetParameterValues''), (True, ''GetParameterValues''),
     (True, ''GetParameterNames''), (True, ''SetParameterAttributes''), (True, ''GetParameterAttributes''),
     (True, ''AddObject''), (True, ''DeleteObject''), (True, ''Reboot''), (True, ''Download''), (True, ''Upload''),
     (True, ''FactoryReset''), (False, ''GetQueuedTransfers''), (True, ''GetAllQueuedTransfers''), (True, ''ScheduleInform'')]"

definition DM_ENG_GetRPCMethods :: "nat \<Rightarrow> int \<times> string list" where
  "DM_ENG_GetRPCMethods entity = (0, map snd (filter fst rpc_methods))"

section \<open>SetParameterValues\<close>

text \<open>A fault has the name of the parameter, its code and the text of the code.\<close>

type_synonym spv_fault = "string \<times> int \<times> string option"

definition newSetParameterValuesFault :: "string \<Rightarrow> int \<Rightarrow> spv_fault" where
  "newSetParameterValuesFault name c = (name, c, DM_ENG_getFaultString c)"

text \<open>
  The loop over the requested values: the status of the whole, the faults, and the values that the
  device has to set.
\<close>

type_synonym spv = "int \<times> spv_fault list \<times> (string \<times> cstr \<times> cstr) list"

definition load_names :: "'w env \<Rightarrow> cstr \<Rightarrow> ('w, int) m" where
  "load_names x name = loadSystemParameters x (gv_of x) (leaf_of x) name False"

definition set_one_value :: "'w env \<Rightarrow> nat \<Rightarrow> pvs \<Rightarrow> spv \<Rightarrow> ('w, spv) m" where
  "set_one_value x entity p l =
     (case l of (status, faults, sys) \<Rightarrow> do {
        loaded \<leftarrow> load_names x (Str (pv_name p));
        (res, stat, sysName, sysData) \<leftarrow>
          (if loaded = 0 then setParameterValue x entity (pv_name p) (pv_value p)
           else ret (loaded, STATUS_UNDEFINED, None, Null));
        if res = 0 \<or> res = 1 then do {
          let status' = (if status \<noteq> STATUS_READY_TO_APPLY then stat else status);
          (if res = 1 then
             (case sysName of
                None \<Rightarrow> do { fail (UB NullDeref); ret (status', faults, sys) }
              | Some n \<Rightarrow> ret (status', faults, sys @ [(n, pv_value p, sysData)]))
           else ret (status', faults, sys)) }
        else ret (status, faults @ [newSetParameterValuesFault (pv_name p) res], sys) })"

fun set_each_value :: "'w env \<Rightarrow> nat \<Rightarrow> pvs list \<Rightarrow> spv \<Rightarrow> ('w, spv) m" where
  "set_each_value x entity [] l = ret l"
| "set_each_value x entity (p # ps) l = do { l' \<leftarrow> set_one_value x entity p l; set_each_value x entity ps l' }"

text \<open>The device sets its values together; a refusal is a fault of each of them.\<close>

definition device_sets :: "'w env \<Rightarrow> spv \<Rightarrow> ('w, spv_fault list) m" where
  "device_sets x l =
     (case l of (status, faults, sys) \<Rightarrow>
        if faults = [] \<and> sys \<noteq> [] then do {
          res \<leftarrow> outside (x_setValues x sys);
          ret (if res \<noteq> 0 then map (\<lambda>s. newSetParameterValuesFault (fst s) res) sys else []) }
        else ret faults)"

fun commit_each :: "'w env \<Rightarrow> string list \<Rightarrow> ('w, unit) m" where
  "commit_each x [] = ret ()"
| "commit_each x (n # ns) = do { commitParameter x n; commit_each x ns }"

fun unset_each :: "'w env \<Rightarrow> string list \<Rightarrow> ('w, unit) m" where
  "unset_each x [] = ret ()"
| "unset_each x (n # ns) = do { unsetParameter x n; unset_each x ns }"

definition set_values :: "'w env \<Rightarrow> nat \<Rightarrow> pvs list \<Rightarrow> cstr \<Rightarrow> ('w, int \<times> spv_fault list) m" where
  "set_values x entity parameterList parameterKey = do {
     l \<leftarrow> set_each_value x entity parameterList (STATUS_UNDEFINED, [], []);
     faults \<leftarrow> device_sets x l;
     (if faults = [] \<and> entity = ENTITY_ACS then setParameterKey x parameterKey else ret ());
     (if faults = [] then commit_each x (map pv_name parameterList) else unset_each x (map pv_name parameterList));
     ret (fst l, faults) }"

text \<open>The results are the code, the status and the faults.\<close>

definition DM_ENG_SetParameterValues :: "'w env \<Rightarrow> nat \<Rightarrow> pvs list \<Rightarrow> cstr \<Rightarrow> ('w, int \<times> int \<times> spv_fault list) m" where
  "DM_ENG_SetParameterValues x entity parameterList parameterKey = do {
     lockedForThisCall \<leftarrow> begin_call x entity;
     setKnownParameterList x entity parameterList;
     (status, faults) \<leftarrow>
       (if entity = ENTITY_SYSTEM then do {
          updateParameterValues x (map (\<lambda>p. (pv_name p, pv_value p)) parameterList);
          ret (STATUS_APPLIED, []) }
        else set_values x entity parameterList parameterKey);
     (if lockedForThisCall then unlock x else mgr_sync True);
     ret (if faults = [] then 0 else DM_ENG_INVALID_ARGUMENTS, status, faults) }"

section \<open>Reading values and names\<close>

definition filteredValue :: "nat \<Rightarrow> param \<Rightarrow> cstr" where
  "filteredValue entity p =
     (if entity = ENTITY_ACS \<or> entity = ENTITY_SUBSCRIBER then DM_ENG_Parameter_getFilteredValue p else p_value p)"

definition is_path :: "string \<Rightarrow> bool" where
  "is_path n \<longleftrightarrow> n = [] \<or> last n = CHR ''.''"

text \<open>The visible parameters with a value below a path; the empty path is above all.\<close>

definition visible_below :: "string \<Rightarrow> param \<Rightarrow> bool" where
  "visible_below path p \<longleftrightarrow> prefixb path (p_name p) \<and> DM_ENG_Parameter_isValuable (p_name p) \<and> \<not> DM_ENG_Parameter_isHidden p"

definition params_where :: "(param \<Rightarrow> bool) \<Rightarrow> ('w, param list) m" where
  "params_where P = do {
     update (\<lambda>e. e\<lparr> e_cursor := None \<rparr>);
     gets (\<lambda>e. filter P (parameters (store_of e))) }"

text \<open>The parameters that a name of a request stands for, or a fault code.\<close>

definition requested :: "'w env \<Rightarrow> nat \<Rightarrow> bool \<Rightarrow> bool \<Rightarrow> string \<Rightarrow> ('w, int \<times> param list) m" where
  "requested x entity withValues protos name = do {
     loaded \<leftarrow> (if entity \<noteq> ENTITY_SYSTEM then loadSystemParameters x (gv_of x) (leaf_of x) (Str name) withValues else ret 0);
     if loaded \<noteq> 0 then ret (loaded, [])
     else do {
       po \<leftarrow> (if name = [] then ret None else lookup name);
       case po of
         None \<Rightarrow> if name = [] then do { l \<leftarrow> params_where (visible_below []); ret (0, l) }
                 else ret (DM_ENG_INVALID_PARAMETER_NAME, [])
       | Some p \<Rightarrow>
           if DM_ENG_Parameter_isHidden p \<or> (\<not> protos \<and> strstrb name ''..'') then ret (DM_ENG_INVALID_PARAMETER_NAME, [])
           else if is_path name then do { l \<leftarrow> params_where (visible_below name); ret (0, l) }
           else ret (0, [p]) } }"

fun collect :: "('n \<Rightarrow> ('w, int \<times> param list) m) \<Rightarrow> (param \<Rightarrow> 'r) \<Rightarrow> 'n list \<Rightarrow> 'r list \<Rightarrow> ('w, int \<times> 'r list) m" where
  "collect f g [] acc = ret (0, acc)"
| "collect f g (n # ns) acc = do {
     (res, l) \<leftarrow> f n;
     if res \<noteq> 0 then ret (res, []) else collect f g ns (acc @ map g l) }"

definition DM_ENG_GetParameterValues :: "'w env \<Rightarrow> nat \<Rightarrow> string list \<Rightarrow> ('w, int \<times> pvs list) m" where
  "DM_ENG_GetParameterValues x entity parameterNames = do {
     lockedForThisCall \<leftarrow> begin_call x entity;
     r \<leftarrow> collect (requested x entity True True) (\<lambda>p. (p_name p, p_type p, filteredValue entity p)) parameterNames [];
     (if lockedForThisCall then unlock x else ret ());
     ret r }"

text \<open>The names below a path, on the next level only or on all of them.\<close>

definition next_level :: "string \<Rightarrow> string \<Rightarrow> bool" where
  "next_level path n \<longleftrightarrow>
     (case dropWhile (\<lambda>c. c \<noteq> CHR ''.'') (drop (length path) n) of
        [] \<Rightarrow> length n > length path
      | [_] \<Rightarrow> length n > length path
      | _ \<Rightarrow> False)"

definition named_below :: "string \<Rightarrow> bool \<Rightarrow> param \<Rightarrow> bool" where
  "named_below path nextLevel p \<longleftrightarrow> prefixb path (p_name p) \<and> \<not> strstrb (p_name p) ''..'' \<and>
     (nextLevel \<longrightarrow> next_level path (p_name p)) \<and> \<not> DM_ENG_Parameter_isHidden p"

definition get_names :: "string \<Rightarrow> bool \<Rightarrow> ('w, int \<times> (string \<times> bool) list) m" where
  "get_names path nextLevel = do {
     po \<leftarrow> lookup path;
     if (path \<noteq> [] \<and> po = None) \<or> (nextLevel \<and> \<not> is_path path) \<or> strstrb path ''..'' \<or>
        (case po of None \<Rightarrow> False | Some p \<Rightarrow> DM_ENG_Parameter_isHidden p)
     then ret (DM_ENG_INVALID_PARAMETER_NAME, [])
     else if \<not> is_path path then ret (0, case po of None \<Rightarrow> [] | Some p \<Rightarrow> [(p_name p, p_writable p)])
     else do {
       l \<leftarrow> params_where (named_below path nextLevel);
       ret (0, map (\<lambda>p. (p_name p, p_writable p)) l) } }"

definition DM_ENG_GetParameterNames :: "'w env \<Rightarrow> nat \<Rightarrow> cstr \<Rightarrow> bool \<Rightarrow> ('w, int \<times> (string \<times> bool) list) m" where
  "DM_ENG_GetParameterNames x entity path nextLevel = do {
     lockedForThisCall \<leftarrow> begin_call x entity;
     loaded \<leftarrow> (if entity \<noteq> ENTITY_SYSTEM then load_names x path else ret 0);
     r \<leftarrow> (if loaded \<noteq> 0 then ret (loaded, [])
          else if path = Null then ret (DM_ENG_INVALID_PARAMETER_NAME, [])
          else get_names (ctext path) nextLevel);
     (if lockedForThisCall then unlock x else ret ());
     ret r }"

section \<open>Objects\<close>

definition end_call :: "'w env \<Rightarrow> bool \<Rightarrow> bool \<Rightarrow> ('w, unit) m" where
  "end_call x lockedForThisCall resetComputed = (if lockedForThisCall then unlock x else mgr_sync resetComputed)"

definition DM_ENG_AddObject :: "'w env \<Rightarrow> nat \<Rightarrow> string option \<Rightarrow> cstr \<Rightarrow> ('w, int \<times> 32 word \<times> int) m" where
  "DM_ENG_AddObject x entity objectName parameterKey =
     (case objectName of
        None \<Rightarrow> ret (DM_ENG_INVALID_PARAMETER_NAME, 0, STATUS_UNDEFINED)
      | Some name \<Rightarrow> do {
          lockedForThisCall \<leftarrow> begin_call x entity;
          (res, n, status) \<leftarrow> mgr_addObject x entity name;
          (if res = 0 \<and> entity = ENTITY_ACS then setParameterKey x parameterKey else ret ());
          end_call x lockedForThisCall True;
          ret (res, n, status) })"

definition DM_ENG_DeleteObject :: "'w env \<Rightarrow> nat \<Rightarrow> string option \<Rightarrow> cstr \<Rightarrow> ('w, int \<times> int) m" where
  "DM_ENG_DeleteObject x entity objectName parameterKey =
     (case objectName of
        None \<Rightarrow> ret (DM_ENG_INVALID_PARAMETER_NAME, STATUS_UNDEFINED)
      | Some name \<Rightarrow> do {
          lockedForThisCall \<leftarrow> begin_call x entity;
          (res, status) \<leftarrow> mgr_deleteObject x entity name;
          (if res = 0 \<and> entity = ENTITY_ACS then setParameterKey x parameterKey else ret ());
          end_call x lockedForThisCall True;
          ret (res, status) })"

section \<open>Attributes\<close>

record attributes =
  a_parameterName :: string
  a_notification :: DM_ENG_NotificationMode
  a_accessList :: acl

definition attributes_of :: "param \<Rightarrow> attributes" where
  "attributes_of p = \<lparr> a_parameterName = p_name p, a_notification = p_notification p, a_accessList = p_accessList p \<rparr>"

text \<open>The requested mode: -1 stands for an undefined one, other numbers than those of the modes are invalid.\<close>

definition requested_mode :: "DM_ENG_NotificationMode \<Rightarrow> DM_ENG_NotificationMode option" where
  "requested_mode n =
     (if nmode_to_int n = -1 then Some NM_UNDEFINED
      else if 0 \<le> nmode_to_int n \<and> nmode_to_int n \<le> 3 then Some (int_to_nmode (nmode_to_int n)) else None)"

definition set_attributes_of :: "string \<Rightarrow> DM_ENG_NotificationMode \<Rightarrow> acl \<Rightarrow> ('w, int) m" where
  "set_attributes_of n mode al = on_param n (\<lambda>p. DM_ENG_Parameter_setAttributes p mode al) 0"

text \<open>The attributes before the change are kept in a list; each loop ends at the first refusal.\<close>

definition attributes_body ::
    "string \<Rightarrow> DM_ENG_NotificationMode \<Rightarrow> acl \<Rightarrow> param \<Rightarrow> int \<times> attributes list \<Rightarrow> ('w, bool \<times> int \<times> attributes list) m" where
  "attributes_body path mode al p l =
     (if visible_below path p then do {
        res \<leftarrow> set_attributes_of (p_name p) mode al;
        ret (res \<noteq> 0, res, snd l @ [attributes_of p]) }
      else ret (False, l))"

definition set_attributes_below ::
    "'w env \<Rightarrow> string \<Rightarrow> DM_ENG_NotificationMode \<Rightarrow> acl \<Rightarrow> attributes list \<Rightarrow> ('w, int \<times> attributes list) m" where
  "set_attributes_below x path mode al back = for_params x (0, back) (attributes_body path mode al)"

definition set_attributes_item :: "'w env \<Rightarrow> attributes \<Rightarrow> attributes list \<Rightarrow> ('w, int \<times> attributes list) m" where
  "set_attributes_item x a back =
     (case requested_mode (a_notification a) of
        None \<Rightarrow> ret (DM_ENG_INVALID_ARGUMENTS, back)
      | Some mode \<Rightarrow> do {
          let name = a_parameterName a;
          loaded \<leftarrow> load_names x (Str name);
          if loaded \<noteq> 0 then ret (loaded, back)
          else if name = [] then set_attributes_below x [] mode (a_accessList a) back
          else do {
            po \<leftarrow> lookup name;
            case po of
              None \<Rightarrow> ret (DM_ENG_INVALID_PARAMETER_NAME, back)
            | Some p \<Rightarrow>
                if strstrb name ''..'' \<or> DM_ENG_Parameter_isHidden p then ret (DM_ENG_INVALID_PARAMETER_NAME, back)
                else if is_path name then set_attributes_below x name mode (a_accessList a) back
                else do {
                  res \<leftarrow> set_attributes_of name mode (a_accessList a);
                  ret (res, back @ [attributes_of p]) } } })"

fun set_attributes_items :: "'w env \<Rightarrow> attributes list \<Rightarrow> attributes list \<Rightarrow> ('w, int \<times> attributes list) m" where
  "set_attributes_items x [] back = ret (0, back)"
| "set_attributes_items x (a # as) back = do {
     (res, back') \<leftarrow> set_attributes_item x a back;
     if res \<noteq> 0 then ret (res, back') else set_attributes_items x as back' }"

text \<open>After a refusal the kept attributes are set again, from the first to the last.\<close>

fun restore_attributes :: "attributes list \<Rightarrow> ('w, unit) m" where
  "restore_attributes [] = ret ()"
| "restore_attributes (b # bs) = do {
     _ \<leftarrow> set_attributes_of (a_parameterName b) (a_notification b) (a_accessList b);
     restore_attributes bs }"

definition set_attributes :: "'w env \<Rightarrow> attributes list \<Rightarrow> ('w, int) m" where
  "set_attributes x pasList = do {
     (res, back) \<leftarrow> set_attributes_items x pasList [];
     (if res \<noteq> 0 then restore_attributes back else ret ());
     ret res }"

definition DM_ENG_SetParameterAttributes :: "'w env \<Rightarrow> nat \<Rightarrow> attributes list \<Rightarrow> ('w, int) m" where
  "DM_ENG_SetParameterAttributes x entity pasList =
     (if entity \<noteq> ENTITY_ACS then ret DM_ENG_REQUEST_DENIED
      else do {
        lockedForThisCall \<leftarrow> begin_call x entity;
        res \<leftarrow> set_attributes x pasList;
        end_call x lockedForThisCall False;
        ret res })"

definition DM_ENG_GetParameterAttributes :: "'w env \<Rightarrow> nat \<Rightarrow> string list \<Rightarrow> ('w, int \<times> attributes list) m" where
  "DM_ENG_GetParameterAttributes x entity names = do {
     lockedForThisCall \<leftarrow> begin_call x entity;
     r \<leftarrow> collect (requested x entity False False) attributes_of names [];
     (if lockedForThisCall then unlock x else ret ());
     ret r }"

section \<open>Informs, transfers and reboot\<close>

definition DM_ENG_ScheduleInform :: "'w env \<Rightarrow> nat \<Rightarrow> 32 word \<Rightarrow> string option \<Rightarrow> ('w, int) m" where
  "DM_ENG_ScheduleInform x entity delay commandKey = do {
     lockedForThisCall \<leftarrow> begin_call x entity;
     res \<leftarrow> scheduleInform delay commandKey;
     (if lockedForThisCall then unlock x else ret ());
     ret res }"

definition DM_ENG_RequestConnection :: "'w env \<Rightarrow> nat \<Rightarrow> ('w, int) m" where
  "DM_ENG_RequestConnection x entity = do {
     lockedForThisCall \<leftarrow> begin_call x entity;
     requestConnection;
     (if lockedForThisCall then unlock x else ret ());
     ret 0 }"

text \<open>The device must not call itself back: it may only ask for transfers later.\<close>

definition request_transfer :: "'w env \<Rightarrow> nat \<Rightarrow> 32 word \<Rightarrow> transfer \<Rightarrow> ('w, int \<times> (int \<times> int \<times> int) option) m" where
  "request_transfer x entity delay tr =
     (if entity = ENTITY_SYSTEM \<and> delay = 0 then ret (DM_ENG_REQUEST_DENIED, None)
      else do {
        lockedForThisCall \<leftarrow> begin_call x entity;
        r \<leftarrow> manageTransferRequest x delay tr;
        (if lockedForThisCall then unlock x else ret ());
        ret r })"

definition DM_ENG_Download ::
    "'w env \<Rightarrow> nat \<Rightarrow> string option \<Rightarrow> string option \<Rightarrow> string option \<Rightarrow> string option \<Rightarrow> 32 word \<Rightarrow> string option \<Rightarrow>
     32 word \<Rightarrow> string option \<Rightarrow> string option \<Rightarrow> string option \<Rightarrow> ('w, int \<times> (int \<times> int \<times> int) option) m" where
  "DM_ENG_Download x entity fileType url username password fileSize targetFileName delay successURL failureURL commandKey =
     request_transfer x entity delay (DM_ENG_newTransferRequest True NOT_YET_STARTED 0 fileType url username password
       fileSize targetFileName successURL failureURL commandKey None)"

definition DM_ENG_Upload ::
    "'w env \<Rightarrow> nat \<Rightarrow> string option \<Rightarrow> string option \<Rightarrow> string option \<Rightarrow> string option \<Rightarrow> 32 word \<Rightarrow> string option \<Rightarrow>
     ('w, int \<times> (int \<times> int \<times> int) option) m" where
  "DM_ENG_Upload x entity fileType url username password delay commandKey =
     request_transfer x entity delay (DM_ENG_newTransferRequest False NOT_YET_STARTED 0 fileType url username password
       0 None None None commandKey None)"

definition DM_ENG_Reboot :: "'w env \<Rightarrow> nat \<Rightarrow> string option \<Rightarrow> ('w, int) m" where
  "DM_ENG_Reboot x entity commandKey = do {
     lockedForThisCall \<leftarrow> begin_call x entity;
     on_ctrl_ub (addRebootCommandKey commandKey);
     (if lockedForThisCall then do { unlock x; checkReboot x } else ret ());
     ret 0 }"

definition DM_ENG_FactoryReset :: "'w env \<Rightarrow> nat \<Rightarrow> ('w, int) m" where
  "DM_ENG_FactoryReset x entity = DM_ENG_Reboot x entity (Some ''*'')"

definition DM_ENG_GetAllQueuedTransfers ::
    "'w env \<Rightarrow> nat \<Rightarrow> ('w, int \<times> (bool \<times> int \<times> string option \<times> 32 word \<times> string option \<times> string option) list) m" where
  "DM_ENG_GetAllQueuedTransfers x entity = do {
     lockedForThisCall \<leftarrow> begin_call x entity;
     l \<leftarrow> gets (\<lambda>e. getAllQueuedTransfers (ctrl_of e));
     (if lockedForThisCall then do { unlock x; checkReboot x } else ret ());
     ret (0, l) }"

end
