(* ===== verification/LocalStore.thy ===== *)
theory LocalStore
  imports Rpc
begin

text \<open>
  A data model whose values are all kept by the agent: no parameter is computed or obtained from the
  device.  Loading does nothing to it but write the default value of a date or a boolean that has none;
  here is the interface of the views of a parameter that loading and the notifications leave alone.
\<close>

section \<open>Triples\<close>

text \<open>\<open>valid I m Q\<close>: from a state of \<open>I\<close> the result is in \<open>Q\<close> and the state again in \<open>I\<close>.\<close>

named_theorems valid_intros \<open>triples of the constructs of the monad\<close>

definition valid :: "('s \<Rightarrow> bool) \<Rightarrow> ('s, 'a) state \<Rightarrow> ('a \<Rightarrow> bool) \<Rightarrow> bool" where
  "valid I m Q \<longleftrightarrow> (\<forall>s. I s \<longrightarrow> Q (fst (run_state m s)) \<and> I (snd (run_state m s)))"

lemma validD: "valid I m Q \<Longrightarrow> I s \<Longrightarrow> Q (fst (run_state m s)) \<and> I (snd (run_state m s))"
  by (simp add: valid_def)

lemma keeps_valid: "keeps I m \<longleftrightarrow> valid I m (\<lambda>_. True)"
  by (simp add: keeps_def valid_def)

lemma valid_keeps: "valid I m Q \<Longrightarrow> keeps I m"
  by (simp add: keeps_def valid_def)

lemma valid_ret [valid_intros]: "Q x \<Longrightarrow> valid I (ret x) Q"
  by (simp add: valid_def)

lemma valid_bind [valid_intros]: "valid I m P \<Longrightarrow> (\<And>x. P x \<Longrightarrow> valid I (f x) Q) \<Longrightarrow> valid I (m \<bind> f) Q"
  by (simp add: valid_def case_prod_beta)

lemma valid_if [valid_intros]: "(c \<Longrightarrow> valid I m Q) \<Longrightarrow> (\<not> c \<Longrightarrow> valid I m' Q) \<Longrightarrow> valid I (if c then m else m') Q"
  by simp

lemma valid_option [valid_intros]:
  "(a = None \<Longrightarrow> valid I m Q) \<Longrightarrow> (\<And>x. a = Some x \<Longrightarrow> valid I (f x) Q) \<Longrightarrow> valid I (case a of None \<Rightarrow> m | Some x \<Rightarrow> f x) Q"
  by (cases a) simp_all

lemma valid_prod [valid_intros]: "(\<And>x y. a = (x, y) \<Longrightarrow> valid I (f x y) Q) \<Longrightarrow> valid I (case a of (x, y) \<Rightarrow> f x y) Q"
  by (cases a) simp

lemma valid_keep: "keeps I m \<Longrightarrow> valid I m (\<lambda>_. True)"
  by (simp add: keeps_valid)

section \<open>Local parameters\<close>

definition local_param :: "param \<Rightarrow> bool" where
  "local_param p \<longleftrightarrow> p_storageMode p = DM_ONLY \<and> even (p_loadingMode p)"

text \<open>The value up to the defaults that are written when it is looked at.\<close>

definition shown :: "string \<Rightarrow> DM_ENG_ParameterType \<Rightarrow> cstr \<Rightarrow> cstr" where
  "shown n t v =
     (if DM_ENG_Parameter_isNode n then Null
      else if t = PT_DATE \<and> (v = Null \<or> v = Empty) then Str DM_ENG_UNKNOWN_TIME
      else if t = PT_BOOLEAN \<and> (v = Null \<or> v = Empty) then Str DM_ENG_FALSE_STRING
      else v)"

definition shown_value :: "param \<Rightarrow> cstr" where
  "shown_value p = shown (p_name p) (p_type p) (p_value p)"

text \<open>The value that counts while a change is requested and not yet committed.\<close>

definition settled_value :: "param \<Rightarrow> cstr" where
  "settled_value p = shown (p_name p) (p_type p) (if CHANGE_REQUESTED (p_state p) then p_backValue p else p_value p)"

locale local_view =
  fixes V :: "param \<Rightarrow> 'v"
  assumes isLoaded: "local_param p \<Longrightarrow> V (fst (snd (DM_ENG_Parameter_isLoaded p w))) = V p"
    and markLoaded: "local_param p \<Longrightarrow> DM_ENG_Parameter_isNode (p_name p) \<Longrightarrow> V (fst (DM_ENG_Parameter_markLoaded p w)) = V p"
    and get_value: "local_param p \<Longrightarrow> V (fst (snd (DM_ENG_Parameter_getValue p))) = V p"
begin

definition sees :: "'v list \<Rightarrow> 'w engine \<Rightarrow> bool" where
  "sees b e \<longleftrightarrow> map V (parameters (store_of e)) = b \<and> (\<forall>p\<in>set (parameters (store_of e)). local_param p)"

lemma map_upd_name:
  "(\<And>p. p \<in> set ps \<Longrightarrow> p_name p = n \<Longrightarrow> find (\<lambda>p. p_name p = n) ps = Some p \<Longrightarrow> V q = V p) \<Longrightarrow>
   map V (upd_name n (\<lambda>_. q) ps) = map V ps"
  by (induction ps) auto

lemma set_upd_name: "p \<in> set (upd_name n (\<lambda>_. q) ps) \<Longrightarrow> p = q \<or> p \<in> set ps"
  by (induction ps) (auto split: if_splits)

lemma sees_upd:
  assumes "sees b e" "getParameter (store_of e) n = Some p" "V q = V p" "local_param q"
  shows "map V (upd_name n (\<lambda>_. q) (parameters (store_of e))) = b"
    "\<forall>r\<in>set (upd_name n (\<lambda>_. q) (parameters (store_of e))). local_param r"
  using assms map_upd_name [of "parameters (store_of e)" n q] set_upd_name [of _ n q "parameters (store_of e)"]
  by (auto simp: sees_def getParameter_def)

lemma found_local: "sees b e \<Longrightarrow> getParameter (store_of e) n = Some p \<Longrightarrow> local_param p \<and> p_name p = n"
  by (auto simp: sees_def getParameter_def find_Some_iff)

lemma v_on_param:
  assumes "\<And>p. local_param p \<Longrightarrow> p_name p = n \<Longrightarrow> V (fst (snd (f p))) = V p \<and> local_param (fst (snd (f p)))"
  shows "keeps (sees b) (on_param n f d)"
  unfolding keeps_def
proof (intro allI impI)
  fix e :: "'w engine"
  assume s: "sees b e"
  show "sees b (snd (run_state (on_param n f d) e))"
  proof (cases "getParameter (store_of e) n")
    case (Some p)
    with found_local [OF s] assms [of p] have q: "V (fst (snd (f p))) = V p" "local_param (fst (snd (f p)))" by auto
    show ?thesis using sees_upd [OF s Some q]
      by (simp add: run_on_param Some case_prod_beta) (simp add: sees_def)
  qed (use s in \<open>simp add: run_on_param sees_def\<close>)
qed

lemma v_isLoaded: "keeps (sees b) (isLoaded n w)"
  unfolding isLoaded_def
  by (rule v_on_param) (simp add: isLoaded, simp add: DM_ENG_Parameter_isLoaded_def local_param_def Let_def)

lemma v_lookup: "valid (sees b) (lookup n) (\<lambda>po. case po of None \<Rightarrow> True | Some p \<Rightarrow> local_param p \<and> p_name p = n)"
  by (auto simp: valid_def lookup_def found_local split: option.split)

lemma v_markLoaded:
  "DM_ENG_Parameter_isNode n \<Longrightarrow> keeps (sees b) (markLoaded n w)"
  unfolding markLoaded_def upd_param_def
  by (rule v_on_param) (auto simp: markLoaded, auto simp: DM_ENG_Parameter_markLoaded_def local_param_def Let_def)

lemma v_basic:
  "keeps (sees b) (fail f)" "keeps (sees b) (outside g)" "keeps (sees b) (on_sched h)" "keeps (sees b) (on_ctrl c)"
  "keeps (sees b) (emit k)" "keeps (sees b) (on_mgr m)" "keeps (sees b) (update (\<lambda>e. e\<lparr> e_cursor := r e \<rparr>))"
  "keeps (sees b) (update (\<lambda>e. e\<lparr> e_world := w e \<rparr>))"
  by (simp_all add: keeps_def sees_def)

lemma v_cursor:
  "valid (sees b) getFirst (\<lambda>_. True)" "valid (sees b) getNext (\<lambda>_. True)"
  "valid (sees b) getCurrent (\<lambda>po. case po of None \<Rightarrow> True | Some p \<Rightarrow> local_param p)"
proof -
  show "valid (sees b) getFirst (\<lambda>_. True)" "valid (sees b) getNext (\<lambda>_. True)"
    unfolding keeps_valid [symmetric] getFirst_def getNext_def by (intro keeps_intros v_basic)+
  have "valid (sees b) (lookup n) (\<lambda>po. case po of None \<Rightarrow> True | Some p \<Rightarrow> local_param p)" for n
    using v_lookup [of b n] by (auto simp: valid_def split: option.splits)
  then show "valid (sees b) getCurrent (\<lambda>po. case po of None \<Rightarrow> True | Some p \<Rightarrow> local_param p)"
    unfolding getCurrent_def by (intro valid_bind [of _ _ "\<lambda>_. True"] valid_option) (auto simp: valid_def)
qed

lemma v_loop:
  assumes "\<And>p l. Q l \<Longrightarrow> valid (sees b) (body p l) (Q \<circ> snd)"
  shows "Q l \<Longrightarrow> valid (sees b) (loop_from k po l body) Q"
proof (induction k arbitrary: po l)
  case 0
  then show ?case by (cases po) (auto intro: valid_intros valid_keep v_basic)
next
  case (Suc k)
  show ?case
  proof (cases po)
    case (Some p)
    show ?thesis unfolding Some loop_from.simps
    proof (rule valid_bind [OF assms [OF Suc.prems]], clarsimp, intro conjI impI)
      fix leave l'
      assume q: "Q l'"
      then show "valid (sees b) (ret l') Q" by (rule valid_ret)
      show "valid (sees b) (do { q \<leftarrow> getNext; loop_from k q l' body }) Q"
        by (rule valid_bind [OF v_cursor(2)]) (rule Suc.IH [OF q])
    qed
  qed (simp add: valid_ret Suc.prems)
qed

lemma v_for_params:
  "(\<And>p l. Q l \<Longrightarrow> valid (sees b) (body p l) (Q \<circ> snd)) \<Longrightarrow> Q l \<Longrightarrow> valid (sees b) (for_params x l body) Q"
  unfolding for_params_def by (rule valid_bind [OF v_cursor(1)]) (rule v_loop)

section \<open>Loading\<close>

text \<open>The value of a local parameter is not asked for.\<close>

lemma run_load_local:
  "getParameter (store_of e) n = Some p \<Longrightarrow> local_param p \<Longrightarrow> run_state (loadSystemParameter_value x gv n) e = ((0, Null), e)"
  by (simp add: loadSystemParameter_value_def lookup_def local_param_def)

lemma v_load_value:
  fixes x :: "'w env"
  shows "valid (sees b) (loadSystemParameter_value x gv n) (\<lambda>r. fst r = 0)"
  unfolding valid_def
proof (intro allI impI)
  fix e :: "'w engine"
  assume s: "sees b e"
  show "fst (fst (run_state (loadSystemParameter_value x gv n) e)) = 0 \<and>
    sees b (snd (run_state (loadSystemParameter_value x gv n) e))"
  proof (cases "getParameter (store_of e) n")
    case None
    then show ?thesis using s by (simp add: loadSystemParameter_value_def lookup_def sees_def)
  next
    case (Some p)
    then show ?thesis using s run_load_local [OF Some] found_local [OF s Some] by simp
  qed
qed

lemma v_pass_body:
  assumes "l = (0, None, None)"
  shows "valid (sees b) (sub_pass_body x gv name w p l) ((\<lambda>l. l = (0, None, None)) \<circ> snd)"
proof -
  have "valid (sees b) (do { po \<leftarrow> getCurrent; case po of
        None \<Rightarrow> do { fail (UB NullDeref); ret (False, l) }
      | Some p \<Rightarrow>
          if odd (p_loadingMode p) \<or> \<not> DM_ENG_Parameter_isNode n then do {
            loaded \<leftarrow> isLoaded n w;
            if loaded then ret (False, l)
            else if \<not> odd (p_loadingMode p) \<and> p_storageMode p \<noteq> COMPUTED then do {
              (r, _) \<leftarrow> loadSystemParameter_value x gv n;
              if r \<noteq> 0 then ret (True, r, None, None) else ret (False, r, None, None) }
            else m p }
          else ret (False, l) }) ((\<lambda>l. l = (0, None, None)) \<circ> snd)" for n m
  proof (rule valid_bind [OF v_cursor(3)], rule valid_option)
    fix po p
    assume "case po of None \<Rightarrow> True | Some p \<Rightarrow> local_param p" "po = Some p"
    then have p: "even (p_loadingMode p)" "p_storageMode p = DM_ONLY" by (simp_all add: local_param_def)
    show "valid (sees b) (if odd (p_loadingMode p) \<or> \<not> DM_ENG_Parameter_isNode n then do {
            loaded \<leftarrow> isLoaded n w;
            if loaded then ret (False, l)
            else if \<not> odd (p_loadingMode p) \<and> p_storageMode p \<noteq> COMPUTED then do {
              (r, _) \<leftarrow> loadSystemParameter_value x gv n;
              if r \<noteq> 0 then ret (True, r, None, None) else ret (False, r, None, None) }
            else m p }
          else ret (False, l)) ((\<lambda>l. l = (0, None, None)) \<circ> snd)"
      by (intro valid_if valid_bind [OF valid_keep [OF v_isLoaded]] valid_bind [OF v_load_value] valid_prod valid_ret)
        (auto simp: assms p)
  qed (auto simp: assms intro!: valid_bind [OF valid_keep [OF v_basic(1)]] valid_ret)
  note inner = this
  show ?thesis
    unfolding sub_pass_body_def Let_def assms prod.case
    by (rule valid_if, rule inner [unfolded assms]) (simp add: valid_ret)
qed

lemma v_sub_loop: "valid (sees b) (sub_loop k x gv leaf name w 0) (\<lambda>r. r \<noteq> 1)"
proof -
  have "valid (sees b) (for_params x (0, None, None) (sub_pass_body x gv name w)) (\<lambda>l. l = (0, None, None))"
    by (rule v_for_params [OF v_pass_body]) simp_all
  then show ?thesis
    by (subst sub_loop.simps, rule valid_bind)
      (auto simp: Let_def DM_ENG_INTERNAL_ERROR_def intro!: valid_ret split: nat.split)
qed

lemma v_load_names: "valid (sees b) (load_names x name) (\<lambda>r. r \<noteq> 1)"
proof -
  have sub: "valid (sees b) (loadSubParameters x gv leaf (Some p) False) (\<lambda>r. r \<noteq> 1)" if "local_param p" for gv leaf p
    using that by (auto simp: loadSubParameters_def local_param_def simp del: sub_loop.simps
        intro!: valid_ret valid_bind [OF valid_keep [OF v_markLoaded]] v_sub_loop)
  have root: "valid (sees b) (loadSystemParameter x gv leaf n False) (\<lambda>r. r \<noteq> 1)" for gv leaf n
    unfolding loadSystemParameter_def
  proof (rule valid_bind [OF valid_keep [OF v_isLoaded]], rule valid_if)
    show "valid (sees b) (ret (0 :: int)) (\<lambda>r. r \<noteq> 1)" by (rule valid_ret) simp
    show "valid (sees b) (do {
        po \<leftarrow> lookup n;
        case po of
          None \<Rightarrow> ret 0
        | Some p \<Rightarrow>
            if odd (p_loadingMode p) then do {
              root \<leftarrow> gets (\<lambda>e. group_root (getParameter (store_of e)) n);
              loadFinal x gv leaf root False }
            else loadSubParameters x gv leaf (Some p) False }) (\<lambda>r. r \<noteq> 1)"
    proof (rule valid_bind [OF v_lookup], rule valid_option)
      fix po p
      assume "case po of None \<Rightarrow> True | Some p \<Rightarrow> local_param p \<and> p_name p = n" "po = Some p"
      then have p: "local_param p" by simp
      then have "\<not> odd (p_loadingMode p)" by (simp add: local_param_def)
      then show "valid (sees b) (if odd (p_loadingMode p) then do {
              root \<leftarrow> gets (\<lambda>e. group_root (getParameter (store_of e)) n);
              loadFinal x gv leaf root False }
            else loadSubParameters x gv leaf (Some p) False) (\<lambda>r. r \<noteq> 1)"
        using sub [OF p] by simp
    qed (rule valid_ret, simp)
  qed
  have inv: "DM_ENG_INVALID_PARAMETER_NAME \<noteq> 1" by (simp add: DM_ENG_INVALID_PARAMETER_NAME_def)
  have top: "valid (sees b) (loadSubParameters x gv leaf None False) (\<lambda>r. r \<noteq> 1)" for gv leaf
    unfolding loadSubParameters_def option.case by (rule v_sub_loop)
  show ?thesis
    unfolding load_names_def loadSystemParameters_def
    by (intro valid_if valid_ret inv top valid_bind [OF valid_keep [OF keeps_gets]] valid_option root)
qed

section \<open>Notifications\<close>

lemma v_getParameterValue: "keeps (sees b) (getParameterValue x n)"
proof -
  have "keeps (sees b) (on_param n DM_ENG_Parameter_getValue Null)"
    by (rule v_on_param) (simp add: get_value, simp add: DM_ENG_Parameter_getValue_def local_param_def)
  moreover have "keeps (sees b) (lookup n)" by (simp add: lookup_def)
  ultimately show ?thesis
    unfolding getParameterValue_def by (intro keeps_intros valid_keeps [OF v_load_value])
qed

lemma v_notify: "keeps (sees b) (notify_sched x c)"
proof -
  have acs: "keeps (sees b) (updateAcsParameters x)"
    unfolding updateAcsParameters_def by (intro keeps_intros v_getParameterValue v_basic)
  have boot: "keeps (sees b) (bootEvent r)" for r
    unfolding bootEvent_def by (intro keeps_intros v_basic)
  show ?thesis
    by (cases c) (auto simp: diagnosticsComplete_def parameterValueChanged_def sched_start_def Let_def
        intro!: keeps_intros v_basic acs boot)
qed

lemma v_notify_all: "keeps (sees b) (notify_all (notify_of x) cs)"
  by (induction cs) (auto intro: keeps_intros v_notify)

lemma v_commit_effects: "keeps (sees b) (commit_effects x n v)"
  unfolding commit_effects_def bootstrapInform_def by (auto intro!: keeps_intros v_basic split: option.split)

end

end
