(* ===== verification/RpcProps.thy ===== *)
theory RpcProps
  imports LocalStore SchedRunProps MgrEventsProps
begin

text \<open>
  The properties of \<open>DM_ENG_RPCInterface.c\<close>: a request to set values is carried out as a whole or not
  at all, a refused change of attributes is taken back, passwords and hidden parameters are not shown.
\<close>

section \<open>Views\<close>

definition full_view :: "param \<Rightarrow> string \<times> DM_ENG_ParameterType \<times> cstr \<times> cstr \<times> bool" where
  "full_view p = (p_name p, p_type p, settled_value p, shown_value p, CHANGE_REQUESTED (p_state p))"

definition value_view :: "string option \<Rightarrow> param \<Rightarrow> string \<times> DM_ENG_ParameterType \<times> cstr" where
  "value_view key p = (p_name p, p_type p, if Some (p_name p) = key then Null else shown_value p)"

lemmas view_defs = full_view_def value_view_def settled_value_def shown_value_def shown_def

interpretation loading: local_view full_view
  by unfold_locales (auto simp: view_defs local_param_def DM_ENG_Parameter_isLoaded_def DM_ENG_Parameter_markLoaded_def
      DM_ENG_Parameter_getValue_def Let_def)

interpretation notifying: local_view "value_view key" for key
  by unfold_locales (auto simp: view_defs local_param_def DM_ENG_Parameter_isLoaded_def DM_ENG_Parameter_markLoaded_def
      DM_ENG_Parameter_getValue_def Let_def)

section \<open>One parameter\<close>

definition with_param :: "'w engine \<Rightarrow> string \<Rightarrow> param \<Rightarrow> bool \<Rightarrow> 'w engine" where
  "with_param e n q changed = e\<lparr> e_data := (e_data e)\<lparr> d_store := (store_of e)\<lparr>
     parameters := upd_name n (\<lambda>_. q) (parameters (store_of e)), dataChanged := changed \<rparr> \<rparr> \<rparr>"

lemma upd_name_twice: "p_name q = n \<Longrightarrow> upd_name n (\<lambda>_. r) (upd_name n (\<lambda>_. q) ps) = upd_name n (\<lambda>_. r) ps"
  by (induction ps) auto

lemma with_param_twice: "p_name q = n \<Longrightarrow> with_param (with_param e n q c) n r d = with_param e n r d"
  by (simp add: with_param_def upd_name_twice)

lemma with_param_same: "getParameter (store_of e) n = Some p \<Longrightarrow> with_param e n p (dataChanged (store_of e)) = e"
  by (simp add: with_param_def upd_name_id)

lemma getParameter_with:
  "getParameter (store_of e) n = Some p \<Longrightarrow> p_name q = n \<Longrightarrow>
   getParameter (store_of (with_param e n q c)) m = (if m = n then Some q else getParameter (store_of e) m)"
  by (simp add: with_param_def getParameter_def find_upd_name)

lemma dataChanged_with [simp]: "dataChanged (store_of (with_param e n q c)) = c"
  by (simp add: with_param_def)

lemma run_on_param_with:
  "getParameter (store_of e) n = Some p \<Longrightarrow> f p = (v, q, c) \<Longrightarrow>
   run_state (on_param n f d) e = (v, with_param e n q (dataChanged (store_of e) \<or> c))"
  by (simp add: run_on_param with_param_def)

lemma run_on_param_at:
  "getParameter (store_of e) n = Some p \<Longrightarrow>
   run_state (on_param n f d) e = (fst (f p), with_param e n (fst (snd (f p))) (dataChanged (store_of e) \<or> snd (snd (f p))))"
  by (simp add: run_on_param with_param_def case_prod_beta)

lemma run_upd_param_with:
  "getParameter (store_of e) n = Some p \<Longrightarrow> f p = (q, c) \<Longrightarrow>
   run_state (upd_param n f) e = ((), with_param e n q (dataChanged (store_of e) \<or> c))"
  by (simp add: run_upd_param with_param_def)

lemma run_set_one_local:
  assumes "getParameter (store_of e) n = Some p" "local_param p"
  shows "run_state (setParameterValue_one x n v d) e =
    (if DM_ENG_Parameter_checkBeforeSetValue (x_tz x) p v \<noteq> 0 then ((DM_ENG_Parameter_checkBeforeSetValue (x_tz x) p v, d), e)
     else ((0, d), with_param e n (snd (DM_ENG_Parameter_setValue p v)) True))"
proof -
  have "fst (DM_ENG_Parameter_setValue p v) = 0"
    using assms(2) by (simp add: DM_ENG_Parameter_setValue_def local_param_def)
  then have s: "DM_ENG_Parameter_setValue p v = (0, snd (DM_ENG_Parameter_setValue p v))" by (metis prod.collapse)
  then have f: "(case DM_ENG_Parameter_setValue p v of (r, p') \<Rightarrow> (r, p', True)) = (0, snd (DM_ENG_Parameter_setValue p v), True)"
    by (metis case_prod_conv)
  have "run_state (on_param n (\<lambda>p. case DM_ENG_Parameter_setValue p v of (r, p') \<Rightarrow> (r, p', True)) 0) e
      = (0, with_param e n (snd (DM_ENG_Parameter_setValue p v)) True)"
    using run_on_param_with [OF assms(1), of "\<lambda>p. case DM_ENG_Parameter_setValue p v of (r, p') \<Rightarrow> (r, p', True)", OF f, of 0] by simp
  moreover have "run_state (on_param n (\<lambda>p. (DM_ENG_Parameter_checkBeforeSetValue (x_tz x) p v, p, False)) 0) e
      = (DM_ENG_Parameter_checkBeforeSetValue (x_tz x) p v, e)"
    by (simp add: run_on_param_at [OF assms(1)] with_param_same [OF assms(1)])
  ultimately show ?thesis
    using loading.run_load_local [OF assms, of x "gv_of x"] by (simp add: setParameterValue_one_def lookup_def)
qed

text \<open>What a call to set a value may do to a parameter.\<close>

definition set_result :: "param \<Rightarrow> cstr \<Rightarrow> int \<Rightarrow> param \<Rightarrow> bool" where
  "set_result p v r q \<longleftrightarrow> p_name q = p_name p \<and> local_param q \<and> p_type q = p_type p \<and> settled_value q = settled_value p \<and> r \<noteq> 1 \<and>
     (if r = 0 then \<not> DM_ENG_Parameter_isNode (p_name p) \<and> \<not> CHANGE_REQUESTED (p_state p) \<and> CHANGE_REQUESTED (p_state q) \<and> shown_value q = shown (p_name p) (p_type p) (dup v)
      else CHANGE_REQUESTED (p_state q) = CHANGE_REQUESTED (p_state p) \<and> shown_value q = shown_value p)"

lemma errors_not_0_1:
  "DM_ENG_INVALID_PARAMETER_NAME \<noteq> 0" "DM_ENG_INVALID_PARAMETER_NAME \<noteq> 1" "DM_ENG_READ_ONLY_PARAMETER \<noteq> 0"
  "DM_ENG_READ_ONLY_PARAMETER \<noteq> 1" "DM_ENG_INTERNAL_ERROR \<noteq> 0" "DM_ENG_INTERNAL_ERROR \<noteq> 1"
  "DM_ENG_Parameter_checkBeforeSetValue tz p v \<noteq> 1"
  by (simp_all add: DM_ENG_INVALID_PARAMETER_NAME_def DM_ENG_READ_ONLY_PARAMETER_def DM_ENG_INTERNAL_ERROR_def
      DM_ENG_Parameter_checkBeforeSetValue_def DM_ENG_INVALID_ARGUMENTS_def DM_ENG_INVALID_PARAMETER_VALUE_def)

lemma set_result_refl: "local_param p \<Longrightarrow> r \<noteq> 0 \<Longrightarrow> r \<noteq> 1 \<Longrightarrow> set_result p v r p"
  by (simp add: set_result_def)

lemma run_set_local:
  assumes found: "getParameter (store_of e) n = Some p" and "local_param p" "entity \<noteq> ENTITY_SYSTEM" "0 < x_fuel x"
  shows "\<exists>r out q c. run_state (setParameterValue x entity n v) e = ((r, out), with_param e n q c) \<and> set_result p v r q"
proof -
  obtain k where k: "x_fuel x = Suc k" using assms(4) by (cases "x_fuel x") auto
  have nm: "p_name p = n" by (rule find_name [OF found])
  have same: "\<exists>q c. ((r, out), e) = ((r, out), with_param e n q c) \<and> set_result p v r q" if "r \<noteq> 0" "r \<noteq> 1"
    for r and out :: "int \<times> string option \<times> cstr"
    using with_param_same [OF found] set_result_refl [OF assms(2) that] by metis
  show ?thesis
  proof (cases "DM_ENG_Parameter_isNode (p_name p) \<or> DM_ENG_Parameter_isHidden p \<or>
      \<not> p_writable p \<or> \<not> DM_ENG_EntityType_belongsTo (e_entities e) entity (acl_list (p_accessList p))")
    case True
    then show ?thesis
      using same [of DM_ENG_INVALID_PARAMETER_NAME] same [of DM_ENG_READ_ONLY_PARAMETER]
      by (auto simp: setParameterValue_def k lookup_def found errors_not_0_1 assms(3))
  next
    case ok: False
    define m where "m = DM_ENG_Parameter_markBeingEvaluated p"
    define e1 where "e1 = with_param e n m True"
    have m: "p_name m = n" "local_param m" "p_type m = p_type p" "settled_value m = settled_value p" "shown_value m = shown_value p"
      "CHANGE_REQUESTED (p_state m) = CHANGE_REQUESTED (p_state p)"
      using assms(2) by (simp_all add: m_def DM_ENG_Parameter_markBeingEvaluated_def local_param_def settled_value_def shown_value_def nm)
    have f1: "getParameter (store_of e1) n = Some m" by (simp add: e1_def getParameter_with [OF found] m)
    show ?thesis
    proof (cases "DM_ENG_Parameter_isBeingEvaluated p")
      case True
      define u where "u = DM_ENG_Parameter_unmarkBeingEvaluated p"
      have "run_state (setParameterValue x entity n v) e = ((DM_ENG_INTERNAL_ERROR, STATUS_UNDEFINED, None, Null), with_param e n u True)"
        using ok True run_upd_param_with [OF found, of "\<lambda>p. (DM_ENG_Parameter_unmarkBeingEvaluated p, True)" u True]
        by (simp add: setParameterValue_def k lookup_def found assms(3) u_def)
      moreover have "set_result p v DM_ENG_INTERNAL_ERROR u"
        using assms(2) by (simp add: set_result_def u_def DM_ENG_Parameter_unmarkBeingEvaluated_def local_param_def settled_value_def
            shown_value_def errors_not_0_1)
      ultimately show ?thesis by blast
    next
      case False
      define r where "r = DM_ENG_Parameter_checkBeforeSetValue (x_tz x) m v"
      define q where "q = (if r = 0 then snd (DM_ENG_Parameter_setValue m v) else m)"
      define u where "u = DM_ENG_Parameter_unmarkBeingEvaluated q"
      have q: "p_name q = n" "local_param q"
        using m by (auto simp: q_def DM_ENG_Parameter_setValue_def local_param_def)
      have one: "run_state (setParameterValue_one x n v Null) e1 = ((r, Null), with_param e1 n q True)"
        using run_set_one_local [OF f1 m(2), of x v Null] with_param_same [OF f1] by (simp add: r_def q_def e1_def)
      have f2: "getParameter (store_of (with_param e1 n q True)) n = Some q" by (simp add: getParameter_with [OF f1] q)
      have mark: "run_state (upd_param n (\<lambda>p. (DM_ENG_Parameter_markBeingEvaluated p, True))) e = ((), e1)"
        using run_upd_param_with [OF found, of "\<lambda>p. (DM_ENG_Parameter_markBeingEvaluated p, True)" m True] by (simp add: m_def e1_def)
      have unmark: "run_state (upd_param n (\<lambda>p. (DM_ENG_Parameter_unmarkBeingEvaluated p, True))) (with_param e1 n q True) = ((), with_param e n u True)"
        using run_upd_param_with [OF f2, of "\<lambda>p. (DM_ENG_Parameter_unmarkBeingEvaluated p, True)" u True]
        by (simp add: u_def e1_def with_param_twice m(1) q(1))
      have red: "redirection p n = None" using assms(2) by (simp add: redirection_def local_param_def)
      have "run_state (setParameterValue x entity n v) e = ((r, status_of p, Some n, Null), with_param e n u True)"
        using ok False by (simp add: setParameterValue_def k lookup_def found assms(3) mark one unmark red)
      moreover have "set_result p v r u"
      proof (cases "r = 0")
        case True
        then have "\<not> CHANGE_REQUESTED (p_state p)"
          using m(6) by (auto simp: r_def DM_ENG_Parameter_checkBeforeSetValue_def DM_ENG_INVALID_ARGUMENTS_def split: if_splits)
        then show ?thesis using True assms(2) nm ok
          by (simp add: set_result_def u_def q_def m_def DM_ENG_Parameter_unmarkBeingEvaluated_def DM_ENG_Parameter_setValue_def
              DM_ENG_Parameter_markBeingEvaluated_def local_param_def settled_value_def shown_value_def)
      next
        case False
        then show ?thesis using assms(2) nm errors_not_0_1(7) [of "x_tz x" m v]
          by (simp add: set_result_def u_def q_def m_def r_def DM_ENG_Parameter_unmarkBeingEvaluated_def
              DM_ENG_Parameter_markBeingEvaluated_def local_param_def settled_value_def shown_value_def)
      qed
      ultimately show ?thesis by blast
    qed
  qed
qed

section \<open>The loop over the request\<close>

text \<open>What holds after the values \<open>dn\<close> of the request were set or refused.\<close>

definition settled_list :: "param list \<Rightarrow> (string \<times> DM_ENG_ParameterType \<times> cstr) list" where
  "settled_list ps = map (\<lambda>p. (p_name p, p_type p, settled_value p)) ps"

definition set_inv :: "(string \<times> DM_ENG_ParameterType \<times> cstr) list \<Rightarrow> pvs list \<Rightarrow> spv_fault list \<Rightarrow> param list \<Rightarrow> bool" where
  "set_inv b dn faults ps \<longleftrightarrow> settled_list ps = b \<and> (\<forall>p\<in>set ps. local_param p) \<and>
     (\<forall>p\<in>set ps. CHANGE_REQUESTED (p_state p) \<longrightarrow> p_name p \<in> pv_name ` set dn \<and> \<not> DM_ENG_Parameter_isNode (p_name p)) \<and>
     (faults = [] \<longrightarrow> (\<forall>r\<in>set dn. \<exists>p. find (\<lambda>p. p_name p = pv_name r) ps = Some p \<and> CHANGE_REQUESTED (p_state p) \<and>
        shown_value p = shown (p_name p) (p_type p) (dup (pv_value r))))"

lemma find_view:
  assumes "map full_view ps = map full_view qs" "find (\<lambda>p. p_name p = n) ps = Some p"
  shows "\<exists>q. find (\<lambda>p. p_name p = n) qs = Some q \<and> full_view q = full_view p"
  using assms
proof (induction ps arbitrary: qs)
  case (Cons a ps)
  then obtain c qs' where "qs = c # qs'" "full_view a = full_view c" "map full_view ps = map full_view qs'" by (cases qs) auto
  with Cons show ?case by (auto simp: full_view_def split: if_splits)
qed simp

lemma set_inv_load:
  assumes "set_inv b dn faults ps" "map full_view qs = map full_view ps" "\<forall>p\<in>set qs. local_param p"
  shows "set_inv b dn faults qs"
proof -
  have "settled_list qs = map (\<lambda>(n, t, s, _). (n, t, s)) (map full_view qs)" for qs
    by (simp add: settled_list_def full_view_def)
  then have "settled_list qs = settled_list ps" using assms(2) by metis
  moreover have "\<forall>p\<in>set qs. CHANGE_REQUESTED (p_state p) \<longrightarrow> p_name p \<in> pv_name ` set dn \<and> \<not> DM_ENG_Parameter_isNode (p_name p)"
  proof (intro ballI impI)
    fix q assume q: "q \<in> set qs" "CHANGE_REQUESTED (p_state q)"
    then have "full_view q \<in> full_view ` set ps" using assms(2) by (metis image_eqI list.set_map)
    then obtain p where p: "p \<in> set ps" "full_view p = full_view q" by auto
    then have "p_name p = p_name q" "CHANGE_REQUESTED (p_state p)" using q(2) by (simp_all add: full_view_def)
    moreover have "CHANGE_REQUESTED (p_state p) \<longrightarrow> p_name p \<in> pv_name ` set dn \<and> \<not> DM_ENG_Parameter_isNode (p_name p)"
      using assms(1) p(1) unfolding set_inv_def by blast
    ultimately show "p_name q \<in> pv_name ` set dn \<and> \<not> DM_ENG_Parameter_isNode (p_name q)" by simp
  qed
  moreover have "\<exists>q. find (\<lambda>p. p_name p = pv_name r) qs = Some q \<and> CHANGE_REQUESTED (p_state q) \<and>
      shown_value q = shown (p_name q) (p_type q) (dup (pv_value r))" if f: "faults = []" "r \<in> set dn" for r
  proof -
    obtain p where p: "find (\<lambda>p. p_name p = pv_name r) ps = Some p" "CHANGE_REQUESTED (p_state p)"
      "shown_value p = shown (p_name p) (p_type p) (dup (pv_value r))"
      using assms(1) f unfolding set_inv_def by blast
    then show ?thesis using find_view [OF assms(2) [symmetric] p(1)] by (auto simp: full_view_def)
  qed
  ultimately show ?thesis using assms(1,3) by (simp add: set_inv_def)
qed

lemma settled_upd:
  "find (\<lambda>p. p_name p = n) ps = Some p \<Longrightarrow> p_name q = p_name p \<Longrightarrow> p_type q = p_type p \<Longrightarrow> settled_value q = settled_value p \<Longrightarrow>
   settled_list (upd_name n (\<lambda>_. q) ps) = settled_list ps"
  by (induction ps) (auto simp: settled_list_def split: if_splits)

lemma in_upd_name: "r \<in> set (upd_name n (\<lambda>_. q) ps) \<Longrightarrow> r = q \<or> r \<in> set ps"
  by (induction ps) (auto split: if_splits)

lemma set_inv_set:
  assumes inv: "set_inv b dn faults ps" and found: "find (\<lambda>p. p_name p = n) ps = Some p" and res: "set_result p v r q"
    and f: "faults' = [] \<longrightarrow> faults = [] \<and> r = 0"
  shows "set_inv b (dn @ [(n, t, v)]) faults' (upd_name n (\<lambda>_. q) ps)"
proof -
  have nm: "p_name p = n" and pin: "p \<in> set ps" using found by (auto simp: find_Some_iff)
  have q: "p_name q = n" "local_param q" "p_type q = p_type p" "settled_value q = settled_value p"
    using res nm by (simp_all add: set_result_def)
  have find': "find (\<lambda>p. p_name p = m) (upd_name n (\<lambda>_. q) ps) = (if m = n then Some q else find (\<lambda>p. p_name p = m) ps)" for m
    by (rule find_upd_name [OF q(1) found])
  have "\<exists>p'. find (\<lambda>p. p_name p = pv_name d) (upd_name n (\<lambda>_. q) ps) = Some p' \<and> CHANGE_REQUESTED (p_state p') \<and>
      shown_value p' = shown (p_name p') (p_type p') (dup (pv_value d))"
    if "faults' = []" "d \<in> set (dn @ [(n, t, v)])" for d
  proof (cases "pv_name d = n")
    case True
    have r: "r = 0" "faults = []" using f that(1) by simp_all
    then have new: "\<not> CHANGE_REQUESTED (p_state p)" "CHANGE_REQUESTED (p_state q)"
      "shown_value q = shown n (p_type p) (dup v)" using res nm by (simp_all add: set_result_def)
    have "d = (n, t, v)" using that(2) inv r(2) True found new(1) by (auto simp: set_inv_def)
    then show ?thesis using new q by (simp add: find')
  next
    case False
    then show ?thesis using that(2) inv f that(1) by (auto simp: set_inv_def find')
  qed
  moreover have "p_name p' \<in> pv_name ` set (dn @ [(n, t, v)]) \<and> \<not> DM_ENG_Parameter_isNode (p_name p')"
    if "p' \<in> set (upd_name n (\<lambda>_. q) ps)" "CHANGE_REQUESTED (p_state p')" for p'
  proof (cases "p' = q")
    case True
    have "CHANGE_REQUESTED (p_state p) \<longrightarrow> \<not> DM_ENG_Parameter_isNode (p_name p)"
      using inv pin by (simp add: set_inv_def)
    then show ?thesis using True that(2) res q(1) nm by (auto simp: set_result_def split: if_splits)
  next
    case False
    then show ?thesis using in_upd_name [OF that(1)] that(2) inv by (auto simp: set_inv_def)
  qed
  moreover have "\<forall>p\<in>set (upd_name n (\<lambda>_. q) ps). local_param p"
    using in_upd_name [of _ n q ps] inv q(2) by (auto simp: set_inv_def)
  ultimately show ?thesis
    using inv settled_upd [OF found _ q(3,4)] q(1) nm by (simp add: set_inv_def)
qed

lemma set_inv_refused: "set_inv b dn faults ps \<Longrightarrow> faults' \<noteq> [] \<Longrightarrow> set_inv b (dn @ [r]) faults' ps"
  by (auto simp: set_inv_def)

lemma set_one_value_inv:
  assumes "set_inv b dn faults (parameters (store_of e))" "entity \<noteq> ENTITY_SYSTEM" "0 < x_fuel x"
    "run_state (set_one_value x entity r (status, faults, [])) e = ((status', faults', sys'), e')"
  shows "sys' = [] \<and> set_inv b (dn @ [r]) faults' (parameters (store_of e'))"
proof -
  obtain n t v where r: "r = (n, t, v)" by (metis prod.collapse)
  define e1 where "e1 = snd (run_state (load_names x (Str n)) e)"
  have "fst (run_state (load_names x (Str n)) e) \<noteq> 1"
    using validD [OF loading.v_load_names, of "map full_view (parameters (store_of e))" e x "Str n"] assms(1)
    by (simp add: loading.sees_def set_inv_def)
  define loaded where "loaded = fst (run_state (load_names x (Str n)) e)"
  have run1: "run_state (load_names x (Str n)) e = (loaded, e1)" by (simp add: e1_def loaded_def)
  have "loading.sees (map full_view (parameters (store_of e))) e"
    using assms(1) by (simp add: loading.sees_def set_inv_def)
  then have "loading.sees (map full_view (parameters (store_of e))) e1"
    unfolding e1_def by (rule keepsD [OF valid_keeps [OF loading.v_load_names]])
  then have inv1: "set_inv b dn faults (parameters (store_of e1))"
    using set_inv_load [OF assms(1)] by (simp add: loading.sees_def)
  show ?thesis
  proof (cases "loaded = 0")
    case False
    moreover have "loaded \<noteq> 1" using \<open>fst (run_state (load_names x (Str n)) e) \<noteq> 1\<close> by (simp add: loaded_def)
    ultimately have "run_state (set_one_value x entity r (status, faults, [])) e
        = ((status, faults @ [newSetParameterValuesFault n loaded], []), e1)"
      by (simp add: set_one_value_def r run1)
    then show ?thesis using assms(4) set_inv_refused [OF inv1] by auto
  next
    case True
    show ?thesis
    proof (cases "getParameter (store_of e1) n")
      case None
      have "run_state (setParameterValue x entity n v) e1 = ((DM_ENG_INVALID_PARAMETER_NAME, STATUS_UNDEFINED, None, Null), e1)"
        using None assms(3) by (cases "x_fuel x") (simp_all add: setParameterValue_def lookup_def)
      then have "run_state (set_one_value x entity r (status, faults, [])) e
          = ((status, faults @ [newSetParameterValuesFault n DM_ENG_INVALID_PARAMETER_NAME], []), e1)"
        using True by (simp add: set_one_value_def r run1 errors_not_0_1)
      then show ?thesis using assms(4) set_inv_refused [OF inv1] by auto
    next
      case (Some p)
      then have "local_param p" using inv1 by (auto simp: set_inv_def getParameter_def find_Some_iff)
      from run_set_local [OF Some this assms(2,3)] obtain res out q c where
        run2: "run_state (setParameterValue x entity n v) e1 = ((res, out), with_param e1 n q c)" and sr: "set_result p v res q" by blast
      have "res \<noteq> 1" using sr by (simp add: set_result_def)
      obtain stat sn sd where out: "out = (stat, sn, sd)" by (metis prod.collapse)
      have find: "find (\<lambda>p. p_name p = n) (parameters (store_of e1)) = Some p" using Some by (simp add: getParameter_def)
      have "run_state (set_one_value x entity r (status, faults, [])) e =
          ((if res = 0 then (if status \<noteq> STATUS_READY_TO_APPLY then stat else status) else status,
            if res = 0 then faults else faults @ [newSetParameterValuesFault n res], []), with_param e1 n q c)"
        using True \<open>res \<noteq> 1\<close> by (simp add: set_one_value_def r run1 run2 out Let_def)
      then show ?thesis using assms(4) set_inv_set [OF inv1 find sr, of faults' t]
        by (auto simp: r with_param_def split: if_splits)
    qed
  qed
qed

lemma set_each_value_inv:
  assumes "entity \<noteq> ENTITY_SYSTEM" "0 < x_fuel x"
  shows "set_inv b dn faults (parameters (store_of e)) \<Longrightarrow>
    run_state (set_each_value x entity l (status, faults, [])) e = ((status', faults', sys'), e') \<Longrightarrow>
    sys' = [] \<and> set_inv b (dn @ l) faults' (parameters (store_of e'))"
proof (induction l arbitrary: dn status faults e)
  case (Cons r l)
  obtain st fs sy e1 where one: "run_state (set_one_value x entity r (status, faults, [])) e = ((st, fs, sy), e1)"
    by (metis prod.collapse)
  have inv: "sy = []" "set_inv b (dn @ [r]) fs (parameters (store_of e1))"
    using set_one_value_inv [OF Cons.prems(1) assms one] by simp_all
  then have "run_state (set_each_value x entity l (st, fs, [])) e1 = ((status', faults', sys'), e')"
    using Cons.prems(2) one by simp
  from Cons.IH [OF inv(2) this] show ?case by simp
qed simp

section \<open>Taking back\<close>

definition requests_in :: "(string \<times> DM_ENG_ParameterType \<times> cstr) list \<Rightarrow> string set \<Rightarrow> param list \<Rightarrow> bool" where
  "requests_in b N ps \<longleftrightarrow> settled_list ps = b \<and> distinct (map fst b) \<and> (\<forall>p\<in>set ps. local_param p) \<and>
     (\<forall>p\<in>set ps. CHANGE_REQUESTED (p_state p) \<longrightarrow> p_name p \<in> N \<and> \<not> DM_ENG_Parameter_isNode (p_name p))"

lemma upd_distinct:
  "distinct (map p_name ps) \<Longrightarrow> find (\<lambda>p. p_name p = n) ps = Some p \<Longrightarrow> r \<in> set (upd_name n (\<lambda>_. q) ps) \<Longrightarrow>
   r = q \<or> (r \<in> set ps \<and> p_name r \<noteq> n)"
  by (induction ps) (auto simp: image_iff split: if_splits)

lemma found_distinct:
  "distinct (map p_name ps) \<Longrightarrow> p \<in> set ps \<Longrightarrow> find (\<lambda>q. p_name q = p_name p) ps = Some p"
  by (induction ps) auto

lemma settled_names: "map fst (settled_list ps) = map p_name ps"
  by (simp add: settled_list_def o_def)

lemma unset_step:
  assumes "requests_in b N (parameters (store_of e))" "0 < x_fuel x"
  shows "requests_in b (N - {n}) (parameters (store_of (snd (run_state (unsetParameter x n) e))))"
proof -
  let ?ps = "parameters (store_of e)"
  obtain k where k: "x_fuel x = Suc k" using assms(2) by (cases "x_fuel x") auto
  have dist: "distinct (map p_name ?ps)"
    using assms(1) settled_names [of ?ps] by (auto simp: requests_in_def)
  have skip: "requests_in b (N - {n}) ?ps" if "\<forall>p\<in>set ?ps. p_name p = n \<longrightarrow> \<not> CHANGE_REQUESTED (p_state p)"
    using assms(1) that by (auto simp: requests_in_def)
  show ?thesis
  proof (cases "getParameter (store_of e) n")
    case None
    then have "\<forall>p\<in>set ?ps. p_name p \<noteq> n" by (auto simp: getParameter_def find_None_iff)
    then show ?thesis using None skip by (simp add: unsetParameter_def k lookup_def)
  next
    case (Some p)
    then have found: "find (\<lambda>p. p_name p = n) ?ps = Some p" by (simp add: getParameter_def)
    then have p: "p \<in> set ?ps" "p_name p = n" by (auto simp: find_Some_iff)
    have lp: "local_param p" using assms(1) p(1) by (simp add: requests_in_def)
    then have red: "redirection p n = None" by (simp add: redirection_def local_param_def)
    show ?thesis
    proof (cases "CHANGE_REQUESTED (p_state p)")
      case False
      then have "\<forall>p\<in>set ?ps. p_name p = n \<longrightarrow> \<not> CHANGE_REQUESTED (p_state p)"
        using found_distinct [OF dist] found by (metis option.inject)
      moreover have "snd (run_state (unsetParameter x n) e) = e"
        using Some False with_param_same [OF Some]
        by (simp add: unsetParameter_def k lookup_def run_on_param_at [OF Some] DM_ENG_Parameter_cancelChange_def)
      ultimately show ?thesis using skip by simp
    next
      case True
      define q where "q = snd (DM_ENG_Parameter_cancelChange p)"
      have q: "p_name q = p_name p" "p_type q = p_type p" "settled_value q = settled_value p" "local_param q"
        "\<not> CHANGE_REQUESTED (p_state q)"
        using True lp by (simp_all add: q_def DM_ENG_Parameter_cancelChange_def settled_value_def local_param_def INITIAL_def)
      have "\<not> DM_ENG_Parameter_isNode n" using assms(1) p True by (auto simp: requests_in_def)
      then have "parameters (store_of (snd (run_state (unsetParameter x n) e))) = upd_name n (\<lambda>_. q) ?ps"
        using Some True by (simp add: unsetParameter_def k lookup_def run_on_param_at [OF Some] p(2) red with_param_def
            DM_ENG_Parameter_cancelChange_def q_def)
      moreover have "requests_in b (N - {n}) (upd_name n (\<lambda>_. q) ?ps)"
        using assms(1) upd_distinct [OF dist found, of _ q] settled_upd [OF found q(1-3)] q(4,5)
        by (auto simp: requests_in_def)
      ultimately show ?thesis by simp
    qed
  qed
qed

lemma unset_each_back:
  "0 < x_fuel x \<Longrightarrow> requests_in b N (parameters (store_of e)) \<Longrightarrow>
   requests_in b (N - set ns) (parameters (store_of (snd (run_state (unset_each x ns) e))))"
proof (induction ns arbitrary: e N)
  case (Cons n ns)
  have "N - insert n (set ns) = (N - {n}) - set ns" by blast
  then show ?case using Cons.IH [OF Cons.prems(1) unset_step [OF Cons.prems(2,1), of n]] by (simp add: case_prod_beta)
qed simp

lemma shown_settled:
  "requests_in b {} ps \<Longrightarrow> map (\<lambda>p. (p_name p, p_type p, shown_value p)) ps = b"
  by (auto simp: requests_in_def settled_list_def settled_value_def shown_value_def)

section \<open>Carrying out\<close>

lemma v_commit: "keeps (notifying.sees key b) (commitParameter x n)"
proof -
  have c: "keeps (notifying.sees key b) (on_param n (\<lambda>p. case DM_ENG_Parameter_commit p of (p', cs) \<Rightarrow> (cs, p', True)) [])"
    by (rule notifying.v_on_param)
      (auto simp: DM_ENG_Parameter_commit_def value_view_def shown_value_def local_param_def Let_def)
  have "valid (notifying.sees key b) (commitParameter_rec k x n) (\<lambda>_. True)" for k
  proof (cases k)
    case (Suc k')
    have step: "valid (notifying.sees key b) (if DM_ENG_Parameter_isNode (p_name p) then ret () else do {
         calls \<leftarrow> on_param n (\<lambda>p. case DM_ENG_Parameter_commit p of (p', cs) \<Rightarrow> (cs, p', True)) [];
         notify_all (notify_of x) calls;
         commit_effects x n (p_value p);
         case redirection p n of None \<Rightarrow> ret () | Some nextName \<Rightarrow> commitParameter_rec k' x nextName }) (\<lambda>_. True)"
      if "local_param p" for p
    proof -
      have "redirection p n = None" using that by (simp add: redirection_def local_param_def)
      then show ?thesis
        by (simp add: keeps_valid [symmetric])
          (intro conjI impI keeps_intros c notifying.v_notify_all notifying.v_commit_effects)
    qed
    show ?thesis unfolding Suc commitParameter_rec.simps
    proof (rule valid_bind [OF notifying.v_lookup], rule valid_option)
      fix po p
      assume "case po of None \<Rightarrow> True | Some p \<Rightarrow> local_param p \<and> p_name p = n" "po = Some p"
      then have "local_param p" by simp
      then show "valid (notifying.sees key b) (if DM_ENG_Parameter_isNode (p_name p) then ret () else do {
         calls \<leftarrow> on_param n (\<lambda>p. case DM_ENG_Parameter_commit p of (p', cs) \<Rightarrow> (cs, p', True)) [];
         notify_all (notify_of x) calls;
         commit_effects x n (p_value p);
         case redirection p n of None \<Rightarrow> ret () | Some nextName \<Rightarrow> commitParameter_rec k' x nextName }) (\<lambda>_. True)"
        by (rule step)
    qed (rule valid_ret, simp)
  qed (simp add: keeps_valid [symmetric] notifying.v_basic)
  then show ?thesis by (simp add: commitParameter_def keeps_valid)
qed

lemma v_commit_each: "keeps (notifying.sees key b) (commit_each x ns)"
  by (induction ns) (auto intro: keeps_intros v_commit)

text \<open>The key of the request is set last; where it was among the requested values, it is not set again.\<close>

lemma v_setParameterKey: "keeps (notifying.sees (Some DM_ENG_PARAMETER_KEY_NAME) b) (setParameterKey x key)"
proof -
  let ?K = DM_ENG_PARAMETER_KEY_NAME
  have c: "keeps (notifying.sees (Some ?K) b) (on_param ?K (\<lambda>p. case DM_ENG_Parameter_commit p of (p', cs) \<Rightarrow> (cs, p', True)) [])"
    by (rule notifying.v_on_param) (auto simp: DM_ENG_Parameter_commit_def value_view_def local_param_def Let_def)
  have s: "keeps (notifying.sees (Some ?K) b) (on_param ?K (\<lambda>p. case DM_ENG_Parameter_setValue p v of (r, p') \<Rightarrow> (r, p', True)) 0)" for v
    by (rule notifying.v_on_param) (auto simp: DM_ENG_Parameter_setValue_def value_view_def local_param_def)
  have k: "keeps (notifying.sees (Some ?K) b) (on_param ?K (\<lambda>p. (f p, p, False)) 0)" for f :: "param \<Rightarrow> int"
    by (rule notifying.v_on_param) simp
  have one: "keeps (notifying.sees (Some ?K) b) (setParameterValue_one x ?K v d)" for v d
    unfolding setParameterValue_one_def Let_def lookup_def
    by (intro keeps_intros s k valid_keeps [OF notifying.v_load_value])
  show ?thesis
    unfolding setParameterKey_def by (intro keeps_intros c one notifying.v_notify_all)
qed

lemma v_setParameterKey_again:
  assumes "notifying.sees None b e" "getParameter (store_of e) DM_ENG_PARAMETER_KEY_NAME = Some p" "CHANGE_REQUESTED (p_state p)"
  shows "notifying.sees None b (snd (run_state (setParameterKey x key) e))"
proof (cases "key = Null")
  case False
  let ?K = DM_ENG_PARAMETER_KEY_NAME
  have "local_param p" using notifying.found_local [OF assms(1,2)] by simp
  then have one: "snd (run_state (setParameterValue_one x ?K key Null) e) = e"
    using assms(3) by (simp add: run_set_one_local [OF assms(2)] DM_ENG_Parameter_checkBeforeSetValue_def DM_ENG_INVALID_ARGUMENTS_def)
  have "keeps (notifying.sees None b) (on_param ?K (\<lambda>p. case DM_ENG_Parameter_commit p of (p', cs) \<Rightarrow> (cs, p', True)) [])"
    by (rule notifying.v_on_param) (auto simp: DM_ENG_Parameter_commit_def value_view_def shown_value_def local_param_def Let_def)
  then have "keeps (notifying.sees None b) (do {
      calls \<leftarrow> on_param ?K (\<lambda>p. case DM_ENG_Parameter_commit p of (p', cs) \<Rightarrow> (cs, p', True)) [];
      notify_all (notify_of x) calls })"
    by (intro keeps_intros notifying.v_notify_all)
  from keepsD [OF this assms(1)] False one show ?thesis by (simp add: setParameterKey_def case_prod_beta)
qed (use assms in \<open>simp add: setParameterKey_def\<close>)

section \<open>All or nothing\<close>

definition shown_at :: "'w engine \<Rightarrow> string \<Rightarrow> cstr option" where
  "shown_at e n = map_option shown_value (getParameter (store_of e) n)"

definition local_engine :: "'w engine \<Rightarrow> bool" where
  "local_engine e \<longleftrightarrow> distinct (map p_name (parameters (store_of e))) \<and>
     (\<forall>p\<in>set (parameters (store_of e)). local_param p \<and> \<not> CHANGE_REQUESTED (p_state p))"

lemma find_values:
  "map (value_view key) ps = map (value_view key) qs \<Longrightarrow> Some n \<noteq> key \<Longrightarrow>
   rel_option (\<lambda>p q. p_type p = p_type q \<and> shown_value p = shown_value q) (find (\<lambda>p. p_name p = n) ps) (find (\<lambda>p. p_name p = n) qs)"
proof (induction ps arbitrary: qs)
  case (Cons a ps)
  then obtain c qs' where "qs = c # qs'" by (cases qs) auto
  with Cons show ?case by (auto simp: value_view_def split: if_splits)
qed simp

lemma find_settled:
  "settled_list ps = settled_list qs \<Longrightarrow>
   map_option settled_value (find (\<lambda>p. p_name p = n) ps) = map_option settled_value (find (\<lambda>p. p_name p = n) qs)"
proof (induction ps arbitrary: qs)
  case (Cons a ps)
  then obtain c qs' where "qs = c # qs'" by (cases qs) (auto simp: settled_list_def)
  with Cons show ?case by (auto simp: settled_list_def)
qed (simp add: settled_list_def)

lemma shown_values_eq:
  "map (value_view key) ps = map (value_view key) qs \<Longrightarrow> Some n \<noteq> key \<Longrightarrow>
   map_option shown_value (find (\<lambda>p. p_name p = n) ps) = map_option shown_value (find (\<lambda>p. p_name p = n) qs)"
  using find_values [of key ps qs n]
  by (cases "find (\<lambda>p. p_name p = n) ps"; cases "find (\<lambda>p. p_name p = n) qs") auto

lemma shown_untouched:
  assumes "set_inv b l faults ps" "settled_list qs = b" "\<forall>p\<in>set qs. \<not> CHANGE_REQUESTED (p_state p)" "n \<notin> pv_name ` set l"
  shows "map_option shown_value (find (\<lambda>p. p_name p = n) ps) = map_option shown_value (find (\<lambda>p. p_name p = n) qs)"
proof -
  have same: "map_option shown_value (find (\<lambda>p. p_name p = n) rs) = map_option settled_value (find (\<lambda>p. p_name p = n) rs)"
    if "\<forall>p\<in>set rs. p_name p = n \<longrightarrow> \<not> CHANGE_REQUESTED (p_state p)" for rs
  proof (cases "find (\<lambda>p. p_name p = n) rs")
    case (Some p)
    then have "p \<in> set rs" "p_name p = n" by (auto simp: find_Some_iff)
    then have "shown_value p = settled_value p" using that by (simp add: shown_value_def settled_value_def)
    then show ?thesis by (simp add: Some)
  qed simp
  have "\<forall>p\<in>set ps. p_name p = n \<longrightarrow> \<not> CHANGE_REQUESTED (p_state p)"
    using assms(1,4) by (auto simp: set_inv_def)
  moreover have "settled_list ps = settled_list qs" using assms(1,2) by (simp add: set_inv_def)
  ultimately show ?thesis using same [of ps] same [of qs] assms(3) find_settled [of ps qs n] by simp
qed

text \<open>The two ends of \<open>set_values\<close>.\<close>

lemma set_values_refused:
  assumes "set_inv (settled_list (parameters (store_of e))) l faults (parameters (store_of e1))" "local_engine e" "0 < x_fuel x"
  shows "shown_at (snd (run_state (unset_each x (map pv_name l)) e1)) n = shown_at e n"
proof -
  let ?ps = "parameters (store_of e)" and ?qs = "parameters (store_of (snd (run_state (unset_each x (map pv_name l)) e1)))"
  have "requests_in (settled_list ?ps) (pv_name ` set l) (parameters (store_of e1))"
    using assms(1,2) by (simp add: requests_in_def set_inv_def local_engine_def settled_names)
  from unset_each_back [OF assms(3) this, of "map pv_name l"] have "requests_in (settled_list ?ps) {} ?qs" by simp
  moreover have "requests_in (settled_list ?ps) {} ?ps"
    using assms(2) by (simp add: requests_in_def local_engine_def settled_names)
  ultimately have "map (value_view None) ?qs = map (value_view None) ?ps"
    by (simp add: shown_settled value_view_def cong: map_cong)
  then show ?thesis by (simp add: shown_at_def getParameter_def shown_values_eq)
qed

lemma set_values_done:
  assumes inv: "set_inv (settled_list (parameters (store_of e))) l [] (parameters (store_of e1))"
    and e2: "e2 = snd (run_state (if entity = ENTITY_ACS then setParameterKey x key else ret ()) e1)"
    and e3: "e3 = snd (run_state (commit_each x ns) e2)"
  shows "\<exists>kv. (kv = None \<or> (entity = ENTITY_ACS \<and> kv = Some DM_ENG_PARAMETER_KEY_NAME \<and> DM_ENG_PARAMETER_KEY_NAME \<notin> pv_name ` set l)) \<and>
    map (value_view kv) (parameters (store_of e3)) = map (value_view kv) (parameters (store_of e1))"
proof -
  have sees1: "notifying.sees kv (map (value_view kv) (parameters (store_of e1))) e1" for kv
    using inv by (simp add: notifying.sees_def set_inv_def)
  have fin: ?thesis if "notifying.sees kv (map (value_view kv) (parameters (store_of e1))) e2"
      "kv = None \<or> (entity = ENTITY_ACS \<and> kv = Some DM_ENG_PARAMETER_KEY_NAME \<and> DM_ENG_PARAMETER_KEY_NAME \<notin> pv_name ` set l)" for kv
    using keepsD [OF v_commit_each that(1), of x ns] that(2) unfolding e3 by (auto simp: notifying.sees_def)
  show ?thesis
  proof (cases "entity = ENTITY_ACS")
    case False
    then show ?thesis using fin [of None] sees1 [of None] by (simp add: e2)
  next
    case acs: True
    show ?thesis
    proof (cases "DM_ENG_PARAMETER_KEY_NAME \<in> pv_name ` set l")
      case False
      then show ?thesis
        using fin [of "Some DM_ENG_PARAMETER_KEY_NAME"] keepsD [OF v_setParameterKey sees1] acs by (simp add: e2)
    next
      case True
      then obtain p where "getParameter (store_of e1) DM_ENG_PARAMETER_KEY_NAME = Some p" "CHANGE_REQUESTED (p_state p)"
        using inv by (auto simp: set_inv_def getParameter_def)
      from v_setParameterKey_again [OF sees1 this] show ?thesis using fin [of None] acs by (simp add: e2)
    qed
  qed
qed

text \<open>
  C2: In a data model whose values the agent keeps itself, a request to set values is carried out as a
  whole or not at all: without a fault each requested parameter has its value, and no other one has
  changed but the key of the request; with a fault every parameter has the value it had.
\<close>

theorem set_values_all_or_nothing:
  assumes "local_engine e" "entity \<noteq> ENTITY_SYSTEM" "0 < x_fuel x"
    "run_state (set_values x entity l key) e = ((status, faults), e')"
  shows "if faults = [] then
      (\<forall>r\<in>set l. \<exists>p. getParameter (store_of e') (pv_name r) = Some p \<and> shown_value p = shown (pv_name r) (p_type p) (dup (pv_value r))) \<and>
      (\<forall>n. n \<notin> pv_name ` set l \<and> (entity = ENTITY_ACS \<longrightarrow> n \<noteq> DM_ENG_PARAMETER_KEY_NAME) \<longrightarrow> shown_at e' n = shown_at e n)
    else \<forall>n. shown_at e' n = shown_at e n"
proof -
  let ?ps = "parameters (store_of e)"
  obtain st fs sy e1 where loop: "run_state (set_each_value x entity l (STATUS_UNDEFINED, [], [])) e = ((st, fs, sy), e1)"
    by (metis prod.collapse)
  have "set_inv (settled_list ?ps) [] [] ?ps" using assms(1) by (simp add: set_inv_def local_engine_def)
  from set_each_value_inv [OF assms(2,3) this loop] have inv: "sy = []" "set_inv (settled_list ?ps) l fs (parameters (store_of e1))"
    by simp_all
  define e2 where "e2 = snd (run_state (if entity = ENTITY_ACS then setParameterKey x key else ret ()) e1)"
  define e3 where "e3 = snd (run_state (commit_each x (map pv_name l)) e2)"
  have run: "faults = fs" "e' = (if fs = [] then e3 else snd (run_state (unset_each x (map pv_name l)) e1))"
    using assms(4) by (auto simp: set_values_def loop device_sets_def inv(1) case_prod_beta e2_def e3_def split: if_splits)
  show ?thesis
  proof (cases "fs = []")
    case False
    then show ?thesis using run set_values_refused [OF inv(2) assms(1,3)] by simp
  next
    case True
    from set_values_done [OF inv(2) [unfolded True] e2_def e3_def] obtain kv where
      kv: "kv = None \<or> (entity = ENTITY_ACS \<and> kv = Some DM_ENG_PARAMETER_KEY_NAME \<and> DM_ENG_PARAMETER_KEY_NAME \<notin> pv_name ` set l)" and
      same: "map (value_view kv) (parameters (store_of e3)) = map (value_view kv) (parameters (store_of e1))" by blast
    have "\<exists>p. getParameter (store_of e3) (pv_name r) = Some p \<and> shown_value p = shown (pv_name r) (p_type p) (dup (pv_value r))"
      if r: "r \<in> set l" for r
    proof -
      obtain q where q: "find (\<lambda>p. p_name p = pv_name r) (parameters (store_of e1)) = Some q"
        "shown_value q = shown (p_name q) (p_type q) (dup (pv_value r))"
        using inv(2) True r unfolding set_inv_def by blast
      have "pv_name r \<in> pv_name ` set l" using r by simp
      then have "Some (pv_name r) \<noteq> kv" using kv by (metis option.distinct(1) option.inject)
      from find_values [OF same this] q show ?thesis
        by (auto simp: getParameter_def option_rel_Some2 find_Some_iff)
    qed
    moreover have "shown_at e3 n = shown_at e n"
      if "n \<notin> pv_name ` set l" "entity = ENTITY_ACS \<longrightarrow> n \<noteq> DM_ENG_PARAMETER_KEY_NAME" for n
    proof -
      have "Some n \<noteq> kv" using kv that by auto
      from shown_values_eq [OF same this] shown_untouched [OF inv(2) refl _ that(1)] assms(1)
      show ?thesis by (simp add: shown_at_def getParameter_def local_engine_def)
    qed
    ultimately show ?thesis using True run by simp
  qed
qed

text \<open>A model with a text and a bounded number, and a request whose second value is not a number.\<close>

definition demo_text :: param where
  "demo_text = (DM_ENG_newDefinedParameter ''Device.a'' PT_STRING Null False)\<lparr> p_storageMode := DM_ONLY, p_writable := True,
     p_loadingMode := 0, p_minValue := - 1, p_value := Str ''old'' \<rparr>"

definition demo_number :: param where
  "demo_number = (DM_ENG_newDefinedParameter ''Device.b'' PT_INT Null False)\<lparr> p_storageMode := DM_ONLY, p_writable := True,
     p_loadingMode := 0, p_minValue := 0, p_maxValue := 100, p_value := Str ''5'' \<rparr>"

definition rpc_engine :: "param list \<Rightarrow> unit engine" where
  "rpc_engine ps = (engine_init ())\<lparr> e_data := data_init\<lparr> d_store := \<lparr> parameters = ps, nbParameters = int (length ps), dataChanged = False \<rparr> \<rparr> \<rparr>"

abbreviation demo_set :: "string \<Rightarrow> (int \<times> spv_fault list) \<times> unit engine" where
  "demo_set v \<equiv> run_state (set_values demo_env ENTITY_ACS [(''Device.a'', PT_STRING, Str ''new''), (''Device.b'', PT_INT, Str v)] Null)
     (rpc_engine [demo_text, demo_number])"

theorem set_values_all_or_nothing_witness:
  "snd (fst (demo_set ''9x'')) \<noteq> [] \<and> shown_at (snd (demo_set ''9x'')) ''Device.a'' = Some (Str ''old'')"
proof -
  have "local_engine (rpc_engine [demo_text, demo_number])"
    by (simp add: local_engine_def rpc_engine_def demo_text_def demo_number_def local_param_def DM_ENG_newDefinedParameter_def INITIAL_def)
  moreover have "snd (fst (demo_set ''9x'')) \<noteq> []" by code_simp
  moreover have "shown_at (rpc_engine [demo_text, demo_number]) ''Device.a'' = Some (Str ''old'')" by code_simp
  moreover have "0 < x_fuel demo_env" by (simp add: demo_env_def)
  ultimately show ?thesis
    using set_values_all_or_nothing [of "rpc_engine [demo_text, demo_number]" ENTITY_ACS demo_env
        "[(''Device.a'', PT_STRING, Str ''new''), (''Device.b'', PT_INT, Str ''9x'')]" Null "fst (fst (demo_set ''9x''))"
        "snd (fst (demo_set ''9x''))" "snd (demo_set ''9x'')"]
    by (simp add: ENTITY_ACS_def ENTITY_SYSTEM_def)
qed

section \<open>Attributes\<close>

text \<open>Attributes that a parameter can be given back: what it is given at the start of a call.\<close>

definition restorable :: "param \<Rightarrow> bool" where
  "restorable p \<longleftrightarrow> p_notification p \<noteq> NM_UNDEFINED \<and> p_accessList p \<noteq> ACL_NULL \<and>
     \<not> (p_notification p = NM_ACTIVE \<and> p_activeNotificationDenied p)"

definition only_attributes :: "param \<Rightarrow> param \<Rightarrow> bool" where
  "only_attributes p q \<longleftrightarrow> q\<lparr> p_notification := p_notification p, p_accessList := p_accessList p \<rparr> = p"

lemma only_attributes_refl [simp]: "only_attributes p p"
  by (simp add: only_attributes_def)

lemma only_attributes_name: "only_attributes p q \<Longrightarrow> p_name q = p_name p \<and> p_activeNotificationDenied q = p_activeNotificationDenied p"
  unfolding only_attributes_def by (metis param.select_convs(1) param.select_convs(11) param.surjective param.update_convs(8) param.update_convs(9))

text \<open>Parameters that differ only in attributes, and only those that are kept in \<open>back\<close>.\<close>

definition kept :: "attributes set \<Rightarrow> param \<Rightarrow> param \<Rightarrow> bool" where
  "kept S p q \<longleftrightarrow> only_attributes p q \<and> (p \<noteq> q \<longrightarrow> attributes_of p \<in> S)"

lemma kept_name: "kept S p q \<Longrightarrow> p_name q = p_name p"
  by (simp add: kept_def only_attributes_name)

lemma set_attributes_only:
  "only_attributes p (fst (snd (DM_ENG_Parameter_setAttributes p mode al)))"
  "fst (DM_ENG_Parameter_setAttributes p mode al) \<noteq> 0 \<Longrightarrow> fst (snd (DM_ENG_Parameter_setAttributes p mode al)) = p"
  by (auto simp: DM_ENG_Parameter_setAttributes_def only_attributes_def Let_def)

lemma set_attributes_back:
  assumes "only_attributes p q" "restorable p"
  shows "DM_ENG_Parameter_setAttributes q (p_notification p) (p_accessList p) = (0, p, True)"
  using assms only_attributes_name [OF assms(1)]
  by (auto simp: DM_ENG_Parameter_setAttributes_def restorable_def only_attributes_def Let_def)

lemma restore_list:
  "distinct (map p_name ps) \<Longrightarrow> list_all2 (kept S) ps qs \<Longrightarrow> p \<in> set ps \<Longrightarrow>
   list_all2 (kept (S - {attributes_of p})) ps (upd_name (p_name p) (\<lambda>_. p) qs)"
proof (induction ps arbitrary: qs)
  case (Cons a ps)
  then obtain c qs' where c: "qs = c # qs'" "kept S a c" "list_all2 (kept S) ps qs'"
    by (auto simp: list_all2_Cons1)
  have other: "kept (S - {attributes_of p}) a' q" if "kept S a' q" "p_name a' \<noteq> p_name p" for a' q
    using that by (auto simp: kept_def attributes_of_def)
  show ?case
  proof (cases "a = p")
    case True
    have "list_all2 (kept (S - {attributes_of p})) ps qs'"
      by (rule list.rel_mono_strong [OF c(3)]) (use Cons.prems(1) True other in \<open>force simp: image_iff\<close>)
    moreover have "kept (S - {attributes_of p}) p p" by (simp add: kept_def)
    ultimately show ?thesis using c True kept_name [OF c(2)] by simp
  next
    case False
    then have p: "p \<in> set ps" "p_name a \<noteq> p_name p" using Cons.prems(1,3) by (auto simp: image_iff)
    then have "list_all2 (kept (S - {attributes_of p})) ps (upd_name (p_name p) (\<lambda>_. p) qs')"
      using Cons.IH [OF _ c(3)] Cons.prems(1) by simp
    then show ?thesis using c other [OF c(2) p(2)] p(2) kept_name [OF c(2)] by simp
  qed
qed simp

lemma kept_find:
  "list_all2 (kept S) ps qs \<Longrightarrow> find (\<lambda>p. p_name p = n) ps = Some p \<Longrightarrow>
   \<exists>q. find (\<lambda>p. p_name p = n) qs = Some q \<and> kept S p q"
proof (induction ps arbitrary: qs)
  case (Cons a ps)
  then obtain c qs' where c: "qs = c # qs'" "kept S a c" "list_all2 (kept S) ps qs'"
    by (auto simp: list_all2_Cons1)
  then show ?case using Cons kept_name [OF c(2)] by (auto split: if_splits)
qed simp

lemma restore_all:
  assumes "distinct (map p_name ps)" "\<forall>p\<in>set ps. restorable p"
  shows "list_all2 (kept (set bs)) ps (parameters (store_of e)) \<Longrightarrow> set bs \<subseteq> attributes_of ` set ps \<Longrightarrow>
    parameters (store_of (snd (run_state (restore_attributes bs) e))) = ps"
proof (induction bs arbitrary: e)
  case Nil
  then have "list_all2 (=) ps (parameters (store_of e))" by (simp add: kept_def list_all2_mono)
  then show ?case by (simp add: list.rel_eq)
next
  case (Cons b bs)
  then obtain p where p: "p \<in> set ps" "b = attributes_of p" by auto
  from kept_find [OF Cons.prems(1) found_distinct [OF assms(1) p(1)]] obtain q where
    q: "find (\<lambda>q. p_name q = p_name p) (parameters (store_of e)) = Some q" "only_attributes p q" by (auto simp: kept_def)
  have found: "getParameter (store_of e) (p_name p) = Some q" using q(1) by (simp add: getParameter_def)
  define e1 where "e1 = with_param e (p_name p) p True"
  have run: "run_state (set_attributes_of (a_parameterName b) (a_notification b) (a_accessList b)) e = (0, e1)"
    using set_attributes_back [OF q(2)] assms(2) p
    by (simp add: set_attributes_of_def attributes_of_def run_on_param_at [OF found] e1_def)
  have "list_all2 (kept (set (b # bs) - {b})) ps (parameters (store_of e1))"
    using restore_list [OF assms(1) Cons.prems(1) p(1)] p(2) by (simp add: e1_def with_param_def)
  then have "list_all2 (kept (set bs)) ps (parameters (store_of e1))"
    by (rule list_all2_mono) (auto simp: kept_def)
  from Cons.IH [OF this] Cons.prems(2) show ?case by (simp add: run case_prod_beta)
qed

text \<open>A refusal of a request for one parameter or path leaves nothing that is not kept.\<close>

definition changed_and_kept :: "param list \<Rightarrow> attributes list \<Rightarrow> 'w engine \<Rightarrow> bool" where
  "changed_and_kept ps bk e \<longleftrightarrow> list_all2 (kept (set bk)) ps (parameters (store_of e)) \<and> set bk \<subseteq> attributes_of ` set ps"

lemma kept_mono: "list_all2 (kept S) ps qs \<Longrightarrow> S \<subseteq> T \<Longrightarrow> list_all2 (kept T) ps qs"
  by (erule list_all2_mono) (auto simp: kept_def)

lemma upd_name_middle:
  "p_name p \<notin> p_name ` set dn \<Longrightarrow> upd_name (p_name p) f (dn @ p # ps) = dn @ f p # ps"
  by (induction dn) auto

lemma next_after_middle:
  "p_name q = n \<Longrightarrow> n \<notin> p_name ` set dn \<Longrightarrow> next_after n (dn @ q # ps) = Some (case ps of [] \<Rightarrow> None | r # _ \<Rightarrow> Some r)"
  by (induction dn) auto

lemma find_middle:
  "p_name p \<notin> p_name ` set dn \<Longrightarrow> find (\<lambda>q. p_name q = p_name p) (dn @ p # ps) = Some p"
  by (induction dn) auto

lemma below_loop:
  fixes e :: "'w engine"
  shows "distinct (map p_name (dn @ ps)) \<Longrightarrow> list_all2 (kept (set bk)) dn dn' \<Longrightarrow> set bk \<subseteq> attributes_of ` set (dn @ ps) \<Longrightarrow>
    parameters (store_of e) = dn' @ ps \<Longrightarrow> po = (case ps of [] \<Rightarrow> None | p # _ \<Rightarrow> Some p) \<Longrightarrow> e_cursor e = map_option p_name po \<Longrightarrow>
    run_state (loop_from k po (r, bk) (attributes_body path mode al)) e = ((r', bk'), e') \<Longrightarrow> changed_and_kept (dn @ ps) bk' e'"
proof (induction ps arbitrary: dn dn' bk e po k r)
  case Nil
  then show ?case by (simp add: changed_and_kept_def)
next
  case (Cons p ps)
  have names: "map p_name dn' = map p_name dn"
    using Cons.prems(2) by (induction rule: list_all2_induct) (auto simp: kept_name)
  have dist: "p_name p \<notin> p_name ` set dn" "distinct (map p_name ((dn @ [p]) @ ps))" using Cons.prems(1) by auto
  then have fresh: "p_name p \<notin> p_name ` set dn'" using names by (metis list.set_map)
  have stop: "changed_and_kept (dn @ p # ps) bs e1"
    if "parameters (store_of e1) = dn' @ p # ps" "set bk \<subseteq> set bs" "set bs \<subseteq> insert (attributes_of p) (set bk)" for e1 :: "'w engine" and bs
  proof -
    have "list_all2 (kept (set bs)) (p # ps) (p # ps)" by (rule list.rel_refl) (simp add: kept_def)
    with kept_mono [OF Cons.prems(2) that(2)] have "list_all2 (kept (set bs)) (dn @ p # ps) (dn' @ p # ps)"
      by (rule list_all2_appendI)
    then show ?thesis using that(1,3) Cons.prems(3) by (auto simp: changed_and_kept_def)
  qed
  show ?case
  proof (cases k)
    case 0
    then show ?thesis using Cons.prems(4-7) by (auto intro: stop)
  next
    case (Suc k')
    let ?po = "case ps of [] \<Rightarrow> None | p # _ \<Rightarrow> Some p"
    have go_on: "changed_and_kept (dn @ p # ps) bk' e'"
      if q: "parameters (store_of e1) = dn' @ q # ps" "kept (set bs) p q" "p_name q = p_name p" and
        bs: "set bk \<subseteq> set bs" "set bs \<subseteq> insert (attributes_of p) (set bk)" and c: "e_cursor e1 = Some (p_name p)" and
        run: "run_state (do { q \<leftarrow> getNext; loop_from k' q (res, bs) (attributes_body path mode al) }) e1 = ((r', bk'), e')"
      for e1 :: "'w engine" and q bs res
    proof -
      have "run_state getNext e1 = (?po, e1\<lparr> e_cursor := map_option p_name ?po \<rparr>)"
        using next_after_middle [OF q(3) fresh, of ps] q(1) c by (simp add: getNext_def)
      then have run': "run_state (loop_from k' ?po (res, bs) (attributes_body path mode al)) (e1\<lparr> e_cursor := map_option p_name ?po \<rparr>)
          = ((r', bk'), e')" using run by simp
      have "list_all2 (kept (set bs)) (dn @ [p]) (dn' @ [q])"
        using kept_mono [OF Cons.prems(2) bs(1)] q(2) by (simp add: list_all2_appendI)
      moreover have "set bs \<subseteq> attributes_of ` set ((dn @ [p]) @ ps)" using Cons.prems(3) bs(2) by auto
      ultimately have "changed_and_kept ((dn @ [p]) @ ps) bk' e'"
        using Cons.IH [OF dist(2) _ _ _ refl _ run'] q(1) by simp
      then show ?thesis by simp
    qed
    show ?thesis
    proof (cases "visible_below path p")
      case False
      have "run_state (do { q \<leftarrow> getNext; loop_from k' q (r, bk) (attributes_body path mode al) }) e = ((r', bk'), e')"
        using Cons.prems(5,7) False Suc by (simp add: attributes_body_def [of path mode al p "(r, bk)"])
      then show ?thesis using Cons.prems(4-6) by (intro go_on [of e p bk r]) (auto simp: kept_def)
    next
      case True
      define res where "res = fst (DM_ENG_Parameter_setAttributes p mode al)"
      define q where "q = fst (snd (DM_ENG_Parameter_setAttributes p mode al))"
      define e1 where "e1 = snd (run_state (set_attributes_of (p_name p) mode al) e)"
      have found: "getParameter (store_of e) (p_name p) = Some p"
        using find_middle [OF fresh] Cons.prems(4) by (simp add: getParameter_def)
      have run: "run_state (set_attributes_of (p_name p) mode al) e = (res, e1)"
        by (simp add: e1_def set_attributes_of_def run_on_param_at [OF found] res_def)
      have e1: "parameters (store_of e1) = dn' @ q # ps" "e_cursor e1 = Some (p_name p)"
        using Cons.prems(4-6) upd_name_middle [OF fresh] by (simp_all add: e1_def set_attributes_of_def run_on_param_at [OF found] with_param_def q_def)
      have q: "only_attributes p q" "res \<noteq> 0 \<Longrightarrow> q = p" using set_attributes_only [of p mode al] by (simp_all add: q_def res_def)
      show ?thesis
      proof (cases "res = 0")
        case False
        then have "changed_and_kept (dn @ p # ps) (bk @ [attributes_of p]) e1" using e1(1) q(2) by (intro stop) auto
        then show ?thesis using False Cons.prems(5,7) True Suc run by (simp add: attributes_body_def [of path mode al p "(r, bk)"])
      next
        case r0: True
        have "run_state (do { q \<leftarrow> getNext; loop_from k' q (res, bk @ [attributes_of p]) (attributes_body path mode al) }) e1 = ((r', bk'), e')"
          using Cons.prems(5,7) True r0 Suc run by (simp add: attributes_body_def [of path mode al p "(r, bk)"])
        then show ?thesis using e1 q only_attributes_name [OF q(1)]
          by (intro go_on [of e1 q "bk @ [attributes_of p]" res]) (auto simp: kept_def)
      qed
    qed
  qed
qed

lemma set_attributes_item_kept:
  assumes "run_state (set_attributes_item x a []) e = ((res, bk), e')" "requested_mode (a_notification a) = Some mode"
    "run_state (load_names x (Str (a_parameterName a))) e = (loaded, e1)" "distinct (map p_name (parameters (store_of e1)))"
  shows "changed_and_kept (parameters (store_of e1)) bk e'"
proof -
  let ?n = "a_parameterName a" and ?ps = "parameters (store_of e1)"
  have none: "changed_and_kept ?ps [] e1"
    by (simp add: changed_and_kept_def kept_def list.rel_refl)
  have below: "changed_and_kept ?ps bk e'" if run: "run_state (set_attributes_below x path mode (a_accessList a) []) e1 = ((res, bk), e')" for path
  proof -
    let ?po = "case ?ps of [] \<Rightarrow> None | p # _ \<Rightarrow> Some p"
    have "run_state getFirst e1 = (?po, e1\<lparr> e_cursor := map_option p_name ?po \<rparr>)"
      by (cases ?ps) (simp_all add: getFirst_def)
    then have run': "run_state (loop_from (x_fuel x) ?po (0, []) (attributes_body path mode (a_accessList a)))
        (e1\<lparr> e_cursor := map_option p_name ?po \<rparr>) = ((res, bk), e')"
      using run by (simp add: set_attributes_below_def for_params_def)
    show ?thesis using below_loop [of "[]" ?ps "[]" "[]", OF _ _ _ _ refl _ run'] assms(4) by simp
  qed
  show ?thesis
  proof (cases "loaded = 0")
    case False
    then show ?thesis using assms(1,2,3) none by (simp add: set_attributes_item_def Let_def)
  next
    case ok: True
    show ?thesis
    proof (cases "?n = []")
      case True
      then show ?thesis using assms(1,2,3) ok below [of "[]"] by (simp add: set_attributes_item_def Let_def)
    next
      case False
      show ?thesis
      proof (cases "getParameter (store_of e1) ?n")
        case None
        then show ?thesis using assms(1,2,3) ok False none by (simp add: set_attributes_item_def Let_def lookup_def)
      next
        case (Some p)
        show ?thesis
        proof (cases "strstrb ?n ''..'' \<or> DM_ENG_Parameter_isHidden p")
          case True
          then show ?thesis using assms(1,2,3) ok False Some none
            by (simp add: set_attributes_item_def Let_def lookup_def)
        next
          case visible: False
          show ?thesis
          proof (cases "is_path ?n")
            case True
            then show ?thesis using assms(1,2,3) ok False Some visible below [of ?n]
              by (simp add: set_attributes_item_def Let_def lookup_def)
          next
            case leaf: False
            define q where "q = fst (snd (DM_ENG_Parameter_setAttributes p mode (a_accessList a)))"
            have r: "bk = [attributes_of p]" "parameters (store_of e') = upd_name ?n (\<lambda>_. q) ?ps"
              using assms(1,2,3) ok False Some visible leaf
              by (auto simp: set_attributes_item_def Let_def lookup_def set_attributes_of_def run_on_param_at [OF Some] q_def with_param_def)
            have found: "find (\<lambda>p. p_name p = ?n) ?ps = Some p" using Some by (simp add: getParameter_def)
            have "list_all2 (kept {attributes_of p}) ps (upd_name ?n (\<lambda>_. q) ps)"
              if "find (\<lambda>p. p_name p = ?n) ps = Some p" for ps
              using that set_attributes_only(1) [of p mode "a_accessList a"]
              by (induction ps) (auto simp: kept_def q_def list.rel_refl split: if_splits)
            then show ?thesis using found r by (auto simp: changed_and_kept_def find_Some_iff)
          qed
        qed
      qed
    qed
  qed
qed

text \<open>
  C33: A change of attributes that is refused is taken back: after a refused request for one
  parameter or one path every parameter is as it was once its names were loaded.
\<close>

theorem attributes_taken_back:
  assumes "requested_mode (a_notification a) = Some mode" "fst (run_state (set_attributes x [a]) e) \<noteq> 0"
    "e1 = snd (run_state (load_names x (Str (a_parameterName a))) e)"
    "distinct (map p_name (parameters (store_of e1)))" "\<forall>p\<in>set (parameters (store_of e1)). restorable p"
  shows "parameters (store_of (snd (run_state (set_attributes x [a]) e))) = parameters (store_of e1)"
proof -
  obtain res bk e2 where run: "run_state (set_attributes_item x a []) e = ((res, bk), e2)" by (metis prod.collapse)
  have r: "res \<noteq> 0" using assms(2) run by (auto simp: set_attributes_def)
  obtain loaded where l: "run_state (load_names x (Str (a_parameterName a))) e = (loaded, e1)"
    using assms(3) by (metis prod.collapse)
  from set_attributes_item_kept [OF run assms(1) l assms(4)] have "changed_and_kept (parameters (store_of e1)) bk e2" .
  from restore_all [OF assms(4,5), of bk e2] this show ?thesis
    using r run by (simp add: set_attributes_def changed_and_kept_def case_prod_beta)
qed

text \<open>A parameter whose value may be notified at once, and one for which this is denied.\<close>

definition notify_params :: "param list" where
  "notify_params = [demo_text, demo_number\<lparr> p_activeNotificationDenied := True \<rparr>]"

definition ask :: "string \<Rightarrow> DM_ENG_NotificationMode \<Rightarrow> attributes" where
  "ask n mode = \<lparr> a_parameterName = n, a_notification = mode, a_accessList = ACL_NULL \<rparr>"

theorem attributes_taken_back_witness:
  "fst (run_state (set_attributes demo_env [ask ''Device.b'' NM_ACTIVE]) (rpc_engine notify_params)) \<noteq> 0 \<and>
   parameters (store_of (snd (run_state (set_attributes demo_env [ask ''Device.b'' NM_ACTIVE]) (rpc_engine notify_params)))) = notify_params"
proof -
  let ?e = "rpc_engine notify_params"
  have c: "fst (run_state (set_attributes demo_env [ask ''Device.b'' NM_ACTIVE]) ?e) \<noteq> 0" by code_simp
  have m: "requested_mode (a_notification (ask ''Device.b'' NM_ACTIVE)) = Some NM_ACTIVE"
    by (simp add: requested_mode_def ask_def int_to_nmode_def)
  have l: "parameters (store_of (snd (run_state (load_names demo_env (Str (a_parameterName (ask ''Device.b'' NM_ACTIVE)))) ?e))) = notify_params"
    by code_simp
  have r: "distinct (map p_name notify_params)" "\<forall>p\<in>set notify_params. restorable p"
    by (simp_all add: notify_params_def demo_text_def demo_number_def DM_ENG_newDefinedParameter_def restorable_def)
  from attributes_taken_back [OF m c refl] l r c show ?thesis by simp
qed

text \<open>
  A request that names a parameter twice and is then refused leaves the parameter with the
  attributes of its first change: the kept attributes are set again in the order of the changes.
\<close>

theorem attributes_not_taken_back:
  "let r = run_state (set_attributes demo_env [ask ''Device.a'' NM_ACTIVE, ask ''Device.a'' NM_PASSIVE, ask ''Device.b'' NM_ACTIVE])
     (rpc_engine notify_params)
   in fst r = DM_ENG_NOTIFICATION_REQUEST_REJECTED \<and> map p_notification notify_params = [NM_OFF, NM_OFF] \<and>
      map p_notification (parameters (store_of (snd r))) = [NM_ACTIVE, NM_OFF]"
  by code_simp

section \<open>What is shown\<close>

lemma collect_image:
  "set (snd (fst (run_state (collect f g ns acc) e))) \<subseteq> set acc \<union> range g"
proof (induction ns arbitrary: acc e)
  case (Cons n ns)
  show ?case using Cons.IH [of "acc @ map g (snd (fst (run_state (f n) e)))" "snd (run_state (f n) e)"]
    by (auto simp: case_prod_beta)
qed simp

text \<open>
  C34: The passwords of the agent are never told to the ACS or to a subscriber: whatever is asked and in
  whatever state, the value of such a parameter in the answer is empty.
\<close>

theorem passwords_not_shown:
  assumes "entity = ENTITY_ACS \<or> entity = ENTITY_SUBSCRIBER" "(n, t, v) \<in> set (snd (fst (run_state (DM_ENG_GetParameterValues x entity names) e)))"
    "n = DM_TR106_ACS_PASSWORD \<or> n = DM_TR106_CONNECTIONREQUESTPASSWORD \<or> n = DM_TR106_STUN_PASSWORD"
  shows "v = Empty"
proof -
  let ?g = "\<lambda>p. (p_name p, p_type p, filteredValue entity p)"
  have "set (snd (fst (run_state (DM_ENG_GetParameterValues x entity names) e))) \<subseteq> range ?g"
    using collect_image [of "requested x entity True True" ?g names "[]" "snd (run_state (begin_call x entity) e)"]
    by (simp add: DM_ENG_GetParameterValues_def case_prod_beta)
  then obtain p where "n = p_name p" "v = filteredValue entity p" using assms(2) by auto
  then show ?thesis using assms(1,3) by (auto simp: filteredValue_def DM_ENG_Parameter_getFilteredValue_def)
qed

definition password_engine :: "unit engine" where
  "password_engine = rpc_engine [demo_text\<lparr> p_name := DM_TR106_ACS_PASSWORD \<rparr>]"

theorem passwords_not_shown_witness:
  "\<exists>t v. (DM_TR106_ACS_PASSWORD, t, v) \<in> set (snd (fst (run_state (DM_ENG_GetParameterValues demo_env ENTITY_ACS [DM_TR106_ACS_PASSWORD]) password_engine)))
     \<and> v = Empty"
proof -
  have "(DM_TR106_ACS_PASSWORD, PT_STRING, Empty) \<in> set (snd (fst (run_state (DM_ENG_GetParameterValues demo_env ENTITY_ACS [DM_TR106_ACS_PASSWORD]) password_engine)))"
    by code_simp
  with passwords_not_shown [OF disjI1 [OF refl] this] show ?thesis by blast
qed

text \<open>One component longer: a parameter without, an object with a final dot.\<close>

definition one_below :: "string \<Rightarrow> string \<Rightarrow> bool" where
  "one_below path n \<longleftrightarrow> (\<exists>c. CHR ''.'' \<notin> set c \<and> ((c \<noteq> [] \<and> n = path @ c) \<or> n = path @ c @ ''.''))"

lemma next_level_rest:
  "next_level path (path @ r) \<longleftrightarrow> (\<exists>c. CHR ''.'' \<notin> set c \<and> ((c \<noteq> [] \<and> r = c) \<or> r = c @ ''.''))"
proof -
  have d: "(case d of [] \<Rightarrow> P | [_] \<Rightarrow> P | _ \<Rightarrow> False) \<longleftrightarrow> (d = [] \<or> length d = 1) \<and> P" for d :: string and P
    by (auto split: list.splits)
  have 1: "next_level path (path @ r) \<longleftrightarrow>
      (\<forall>c\<in>set r. c \<noteq> CHR ''.'') \<and> r \<noteq> [] \<or> length (dropWhile (\<lambda>c. c \<noteq> CHR ''.'') r) = 1 \<and> r \<noteq> []"
    unfolding next_level_def d by (auto simp: dropWhile_eq_Nil_conv)
  have 2: "length (dropWhile (\<lambda>c. c \<noteq> CHR ''.'') r) = 1 \<longleftrightarrow> (\<exists>c. CHR ''.'' \<notin> set c \<and> r = c @ ''.'')"
  proof (induction r)
    case (Cons a r)
    have "(\<exists>c. CHR ''.'' \<notin> set c \<and> a # r = c @ ''.'') \<longleftrightarrow>
        (if a = CHR ''.'' then r = [] else (\<exists>c. CHR ''.'' \<notin> set c \<and> r = c @ ''.''))"
      by (auto simp: Cons_eq_append_conv)
    then show ?case using Cons.IH by auto
  qed simp
  show ?thesis unfolding 1 2 by auto
qed

lemma next_level_iff: "prefixb path n \<and> next_level path n \<longleftrightarrow> one_below path n"
  by (auto simp: prefixb_iff next_level_rest one_below_def)

text \<open>
  The names on the next level of a path are the visible ones that are one component longer,
  parameters without and objects with a final dot.
\<close>

theorem get_names_next_level:
  assumes "is_path path" "\<not> strstrb path ''..''" "path \<noteq> [] \<Longrightarrow> getParameter (store_of e) path \<noteq> None"
    "\<And>p. getParameter (store_of e) path = Some p \<Longrightarrow> \<not> DM_ENG_Parameter_isHidden p"
  shows "\<exists>l. fst (run_state (get_names path True) e) = (0, l) \<and>
    (\<forall>n w. (n, w) \<in> set l \<longleftrightarrow> (\<exists>p\<in>set (parameters (store_of e)). n = p_name p \<and> w = p_writable p \<and>
       \<not> DM_ENG_Parameter_isHidden p \<and> \<not> strstrb n ''..'' \<and> one_below path n))"
proof -
  have "fst (run_state (get_names path True) e)
      = (0, map (\<lambda>p. (p_name p, p_writable p)) (filter (named_below path True) (parameters (store_of e))))"
    using assms by (auto simp: get_names_def lookup_def params_where_def split: option.splits)
  moreover have "named_below path True p \<longleftrightarrow> \<not> DM_ENG_Parameter_isHidden p \<and> \<not> strstrb (p_name p) ''..'' \<and> one_below path (p_name p)" for p
    using next_level_iff [of path "p_name p"] by (auto simp: named_below_def)
  ultimately show ?thesis by auto
qed

theorem get_names_next_level_witness:
  "\<exists>l. fst (run_state (get_names [] True) (rpc_engine [demo_text\<lparr> p_name := ''Device.'' \<rparr>])) = (0, l) \<and> (''Device.'', True) \<in> set l"
proof -
  define p where "p = demo_text\<lparr> p_name := ''Device.'' \<rparr>"
  have p: "p_name p = ''Device.''" "p_writable p" "\<not> DM_ENG_Parameter_isHidden p"
    unfolding p_def by (simp add: demo_text_def, simp add: demo_text_def) code_simp
  have dev: "one_below [] ''Device.''" unfolding one_below_def by (rule exI [of _ "''Device''"]) simp
  have dots: "\<not> strstrb ''Device.'' ''..''" by code_simp
  have e: "p \<in> set (parameters (store_of (rpc_engine [p])))" by (simp add: rpc_engine_def)
  have g: "getParameter (store_of (rpc_engine [p])) [] = None" using p(1) by (simp add: rpc_engine_def getParameter_def)
  have "\<exists>l. fst (run_state (get_names [] True) (rpc_engine [p])) = (0, l) \<and>
    (\<forall>n w. (n, w) \<in> set l \<longleftrightarrow> (\<exists>p\<in>set (parameters (store_of (rpc_engine [p]))). n = p_name p \<and> w = p_writable p \<and>
       \<not> DM_ENG_Parameter_isHidden p \<and> \<not> strstrb n ''..'' \<and> one_below [] n))"
    by (rule get_names_next_level) (simp_all add: is_path_def g)
  then show ?thesis using e p dots dev unfolding p_def [symmetric] by metis
qed

section \<open>Delayed transfers\<close>

lemma sync_parts [simp]:
  "e_sched (snd (run_state sync e)) = e_sched e" "e_mgr (snd (run_state sync e)) = e_mgr e"
  "parameters (store_of (snd (run_state sync e))) = parameters (store_of e)" "time_of (snd (run_state sync e)) = time_of e"
  "getNextTimeout (ctrl_of (snd (run_state sync e))) = getNextTimeout (ctrl_of e)"
proof -
  have "e_sched (snd (run_state sync e)) = e_sched e \<and> e_mgr (snd (run_state sync e)) = e_mgr e \<and>
      parameters (store_of (snd (run_state sync e))) = parameters (store_of e)"
    by (auto simp: sync_def on_data_def ParameterData_sync_def writeCtrl_def writeParameters_def split: sum.splits if_splits)
  then show "e_sched (snd (run_state sync e)) = e_sched e" "e_mgr (snd (run_state sync e)) = e_mgr e"
    "parameters (store_of (snd (run_state sync e))) = parameters (store_of e)" by simp_all
  show "time_of (snd (run_state sync e)) = time_of e" by (rule sync_time)
  show "getNextTimeout (ctrl_of (snd (run_state sync e))) = getNextTimeout (ctrl_of e)"
    using sync_ctrl [of e] by (elim disjE) (simp_all add: getNextTimeout_def getScheduledInformTime_def)
qed

text \<open>Nothing was deferred: giving the lock back does not touch the scheduler.\<close>

lemma quiet_unlock:
  assumes "e_mgr e = mgr_init\<lparr> m_open := True, m_inSession := b \<rparr>" "parameters (store_of e) = []"
  shows "e_sched (snd (run_state (unlock x) e)) = e_sched e \<and> time_of (snd (run_state (unlock x) e)) = time_of e \<and>
    getNextTimeout (ctrl_of (snd (run_state (unlock x) e))) = getNextTimeout (ctrl_of e)"
  using assms by (simp add: unlock_def case_prod_beta process_pending.simps check_computed_def for_params_def getFirst_def each_param_def
      mgr_init_def ParameterData_unLock_def)

text \<open>An agent that waits without a time limit, and one that has just been asked for a transfer.\<close>

definition waiting :: "point \<times> unit engine" where
  "waiting = (step_of demo_env ^^ 4) (Starting, open_engine)"

definition locked :: "unit engine" where
  "locked = snd (run_state (begin_call demo_env ENTITY_SELFCARE_APP) (snd waiting))"

definition requested_engine :: "unit engine" where
  "requested_engine = snd (run_state (manageTransferRequest demo_env 10 (DM_ENG_newTransferRequest True NOT_YET_STARTED 0
     (Some ''1 Firmware'') (Some ''http://x'') None None 0 None None None (Some ''k'') None)) locked)"

lemma waiting_state: "fst waiting = WaitSignal \<and> s_alive (e_sched (snd waiting)) \<and> \<not> s_signalled (e_sched (snd waiting))"
  by code_simp

lemma locked_state: "fst (run_state (begin_call demo_env ENTITY_SELFCARE_APP) (snd waiting)) \<and> e_sched locked = e_sched (snd waiting)"
  by code_simp

lemma requested_state: "e_sched requested_engine = e_sched locked \<and> e_mgr requested_engine = mgr_init\<lparr> m_open := True, m_inSession := True \<rparr> \<and>
    parameters (store_of requested_engine) = [] \<and> getNextTimeout (ctrl_of requested_engine) = 10 \<and> time_of requested_engine = 0"
  by code_simp

definition after_download :: "unit engine" where
  "after_download = snd (run_state (DM_ENG_Download demo_env ENTITY_SELFCARE_APP (Some ''1 Firmware'') (Some ''http://x'') None None 0
     None 10 None None (Some ''k'')) (snd waiting))"

lemma after_download_state:
  "e_sched after_download = e_sched (snd waiting) \<and> getNextTimeout (ctrl_of after_download) = 10 \<and> time_of after_download = 0"
proof -
  have "run_state (begin_call demo_env ENTITY_SELFCARE_APP) (snd waiting) = (True, locked)"
    using locked_state by (auto simp: locked_def intro: prod_eqI)
  then have "after_download = snd (run_state (unlock demo_env) requested_engine)"
    by (simp add: after_download_def DM_ENG_Download_def request_transfer_def requested_engine_def case_prod_beta)
  then show ?thesis using quiet_unlock [of requested_engine True demo_env] requested_state locked_state by simp
qed

text \<open>
  C35: A download that is requested for later, outside a session of the ACS, does not wake the
  scheduler: there is a reachable state where it waits without a time limit and without a signal though
  the transfer is due.
\<close>

theorem delayed_download_not_signalled:
  "\<exists>e. reachable demo_env (WaitSignal, e) \<and> s_alive (e_sched e) \<and> \<not> s_signalled (e_sched e) \<and>
     0 < getNextTimeout (ctrl_of e) \<and> getNextTimeout (ctrl_of e) \<le> time_of e"
proof -
  define e where "e = after_download\<lparr> e_data := (e_data after_download)\<lparr> now := 10 \<rparr> \<rparr>"
  have "reachable demo_env (Starting, open_engine)"
    by (rule reachable.init) (simp add: open_engine_def engine_init_def sched_init_def)
  then have "reachable demo_env waiting"
    by (simp add: waiting_def eval_nat_numeral reachable_step_of)
  then have "reachable demo_env (WaitSignal, snd waiting)" by (metis waiting_state prod.collapse)
  then have "reachable demo_env (WaitSignal, after_download)"
    by (rule reachable.step) (rule entry, simp add: after_download_state)
  then have "reachable demo_env (WaitSignal, e)"
    by (rule reachable.step) (simp add: e_def after_download_state tick)
  then show ?thesis using after_download_state waiting_state by (intro exI [of _ e]) (simp add: e_def)
qed

end
