(* ===== verification/Bytes.thy ===== *)
theory Bytes
  imports Prelude
begin

unbundle bit_operations_syntax

text \<open>
  Memory as bytes, for the parts of the agent that read and write datagrams and digests:
  the integers of the C types \<open>u8\<close>, \<open>UInt16\<close>, \<open>UInt32\<close> and \<open>UInt64\<close>, their network byte order, and the
  conversion between a C string and its bytes.  The platform is little endian.
\<close>

type_synonym byte = "8 word"
type_synonym u16 = "16 word"
type_synonym u32 = "32 word"
type_synonym u64 = "64 word"

named_theorems byte_simps \<open>byte order\<close>

section \<open>Network byte order\<close>

definition be16 :: "u16 \<Rightarrow> byte list" where
  "be16 w = [ucast (drop_bit 8 w), ucast w]"

definition be32 :: "u32 \<Rightarrow> byte list" where
  "be32 w = [ucast (drop_bit 24 w), ucast (drop_bit 16 w), ucast (drop_bit 8 w), ucast w]"

fun from16 :: "byte list \<Rightarrow> u16" where
  "from16 (a # b # r) = push_bit 8 (ucast a) OR ucast b"
| "from16 r = 0"

fun from32 :: "byte list \<Rightarrow> u32" where
  "from32 (a # b # c # d # r) =
     push_bit 24 (ucast a) OR push_bit 16 (ucast b) OR push_bit 8 (ucast c) OR ucast d"
| "from32 r = 0"

text \<open>A word as the little endian machine loads it.\<close>

fun le32 :: "byte list \<Rightarrow> u32" where
  "le32 (a # b # c # d # r) =
     push_bit 24 (ucast d) OR push_bit 16 (ucast c) OR push_bit 8 (ucast b) OR ucast a"
| "le32 r = 0"

lemma length_be [byte_simps, simp]: "length (be16 w) = 2" "length (be32 v) = 4"
  by (simp_all add: be16_def be32_def)

lemma from16_be16 [byte_simps, simp]: "from16 (be16 w @ r) = w"
  by (simp add: be16_def) (rule bit_word_eqI, auto simp: bit_simps)

lemma from32_be32 [byte_simps, simp]: "from32 (be32 w @ r) = w"
proof (simp add: be32_def, rule bit_word_eqI)
  fix n
  assume "n < LENGTH(32)"
  then show "bit (push_bit 24 (ucast (ucast (drop_bit 24 w) :: byte)) OR
      push_bit 16 (ucast (ucast (drop_bit 16 w) :: byte)) OR
      push_bit 8 (ucast (ucast (drop_bit 8 w) :: byte)) OR ucast (ucast w :: byte) :: u32) n = bit w n"
    by (cases "n < 8"; cases "n < 16"; cases "n < 24") (auto simp: bit_simps)
qed

lemma be16_not_Nil [simp]: "be16 w \<noteq> []" "be32 v \<noteq> []"
  by (simp_all add: be16_def be32_def)

section \<open>Strings as bytes\<close>

definition byte_of :: "char \<Rightarrow> byte" where
  "byte_of c = of_nat (code c)"

definition char_at :: "byte \<Rightarrow> char" where
  "char_at b = char_of (unat b)"

definition bytes :: "string \<Rightarrow> byte list" where
  "bytes s = map byte_of s"

definition chars :: "byte list \<Rightarrow> string" where
  "chars bs = map char_at bs"

lemma unat_byte_of [simp]: "unat (byte_of c) = code c"
  using code_less [of c] by (simp add: byte_of_def unat_of_nat)

lemma char_at_byte_of [simp]: "char_at (byte_of c) = c"
  by (simp add: char_at_def)

lemma byte_of_char_at [simp]: "byte_of (char_at b) = b"
proof -
  have "unat b < 256" using unsigned_less [of b, where ?'a = nat] by simp
  then show ?thesis by (simp add: byte_of_def char_at_def)
qed

lemma chars_bytes [simp]: "chars (bytes s) = s"
  by (induction s) (simp_all add: chars_def bytes_def)

lemma bytes_chars [simp]: "bytes (chars bs) = bs"
  by (induction bs) (simp_all add: chars_def bytes_def)

lemma length_bytes [simp]: "length (bytes s) = length s" "length (chars b) = length b"
  by (simp_all add: bytes_def chars_def)

section \<open>Arrays\<close>

text \<open>\<open>memcpy(&buffer[j], d, n)\<close> inside an array.\<close>

definition overwrite :: "byte list \<Rightarrow> nat \<Rightarrow> byte list \<Rightarrow> byte list" where
  "overwrite buffer j d = take j buffer @ d @ drop (j + length d) buffer"

lemma length_overwrite [simp]:
  "j + length d \<le> length buffer \<Longrightarrow> length (overwrite buffer j d) = length buffer"
  by (simp add: overwrite_def)

text \<open>A digit of \<open>%02x\<close>.\<close>

definition hex_digit :: "nat \<Rightarrow> char" where
  "hex_digit d = (if d < 10 then char_of (48 + d) else char_of (87 + d))"

end
