(* ===== verification/Blocks.thy ===== *)
theory Blocks
  imports Bytes
begin

text \<open>
  Iterated hash functions: a step function applied to the blocks of 64 bytes of a message, and what a
  context that has been given a message in pieces keeps of it.  Shared by SHA-1 and MD5, which
  differ in their step and in the order of their bytes.
\<close>

unbundle bit_operations_syntax

section \<open>Words\<close>

definition rol :: "u32 \<Rightarrow> nat \<Rightarrow> u32" where
  "rol v bits = push_bit bits v OR drop_bit (32 - bits) v"

lemma rol_rotl:
  assumes "0 < n" "n < 32"
  shows "rol v n = word_rotl n v"
proof (rule bit_word_eqI)
  fix k
  assume k: "k < LENGTH(32)"
  show "bit (rol v n) k = bit (word_rotl n v) k"
  proof (cases "n \<le> k")
    case True
    then have "k + 32 - n = k - n + 32" by simp
    then have "(k + 32 - n) mod 32 = (k - n) mod 32" by (simp only: mod_add_self2)
    then have "(k + 32 - n) mod 32 = k - n" using k by simp
    moreover have "\<not> bit v (32 - n + k)" using True assms bit_imp_le_length [of v "32 - n + k"] by auto
    ultimately show ?thesis using assms k True by (simp add: rol_def bit_simps)
  next
    case False
    then have "(k + 32 - n) mod 32 = 32 - n + k" using assms by simp
    then show ?thesis using assms k False by (simp add: rol_def bit_simps)
  qed
qed

lemma carry:
  fixes a b M :: nat
  assumes "0 < M"
  shows "(a + b) div M = a div M + b div M + (if (a + b) mod M < b mod M then 1 else 0)"
proof -
  have x: "a mod M < M" "b mod M < M" using assms by simp_all
  have "(a mod M + b mod M) div M = (if (a mod M + b mod M) mod M < b mod M then 1 else 0)"
  proof (cases "a mod M + b mod M < M")
    case False
    then have "a mod M + b mod M - M < M" "a mod M + b mod M - M < b mod M"
      using x False by linarith+
    with False x show ?thesis by (simp add: le_div_geq le_mod_geq)
  qed simp
  then show ?thesis by (simp add: div_add1_eq [of a b M] mod_add_eq)
qed

lemma halves:
  "ucast (drop_bit 32 (of_nat k :: u64)) = (of_nat (k div 2 ^ 32) :: u32)"
  "ucast (of_nat k :: u64) = (of_nat k :: u32)"
  unfolding drop_bit_eq_div [symmetric]
  by (rule bit_word_eqI; simp only: bit_unsigned_iff bit_drop_bit_eq bit_of_nat_iff o_def bit_of_nat_iff_bit;
      simp add: add.commute)+

section \<open>Blocks\<close>

function blocks :: "('h \<Rightarrow> byte list \<Rightarrow> 'h) \<Rightarrow> 'h \<Rightarrow> byte list \<Rightarrow> 'h" where
  "blocks f h m = (if length m < 64 then h else blocks f (f h (take 64 m)) (drop 64 m))"
  by pat_completeness auto
termination by (relation "measure (\<lambda>(_, _, m). length m)") auto

declare blocks.simps [simp del]

lemma blocks_short: "length m < 64 \<Longrightarrow> blocks f h m = h"
  by (simp add: blocks.simps)

lemma blocks_long: "length m \<ge> 64 \<Longrightarrow> blocks f h m = blocks f (f h (take 64 m)) (drop 64 m)"
  by (simp add: blocks.simps [of f h m])

lemma blocks_one: "length m = 64 \<Longrightarrow> blocks f h m = f h m"
  by (simp add: blocks_long blocks_short)

lemma blocks_append: "length a mod 64 = 0 \<Longrightarrow> blocks f h (a @ b) = blocks f (blocks f h a) b"
proof (induction f h a rule: blocks.induct)
  case (1 f h a)
  show ?case
  proof (cases "length a < 64")
    case True
    with 1(2) show ?thesis by (simp add: blocks_short)
  next
    case False
    then have "length (drop 64 a) mod 64 = 0" using 1(2) by (simp add: mod_if)
    with 1(1) [OF False] False show ?thesis
      by (simp add: blocks_long)
  qed
qed

text \<open>How much of a message fills whole blocks.\<close>

definition whole :: "byte list \<Rightarrow> nat" where
  "whole m = length m - length m mod 64"

lemma whole_mod: "length (take (whole m) m) mod 64 = 0"
  by (simp add: whole_def minus_mod_eq_mult_div)

lemma rest_length: "length (drop (whole m) m) = length m mod 64"
  by (simp add: whole_def)

lemma whole_le: "whole m \<le> length m"
  by (simp add: whole_def)

lemma blocks_whole: "blocks f h (take (whole m) m) = blocks f h m"
  using blocks_append [OF whole_mod, of f h m "drop (whole m) m"]
    blocks_short [of "drop (whole m) m" f "blocks f h (take (whole m) m)"] rest_length [of m]
  by simp

lemma whole_append:
  "length m mod 64 + length d < 64 \<Longrightarrow> whole (m @ d) = whole m \<and> length (m @ d) mod 64 = length m mod 64 + length d"
proof -
  assume s: "length m mod 64 + length d < 64"
  then have "(length m + length d) mod 64 = length m mod 64 + length d"
    by (metis mod_add_left_eq mod_less)
  then show ?thesis by (simp add: whole_def)
qed

lemma whole_blocks:
  assumes "length a mod 64 = 0"
  shows "whole (a @ b) = length a + whole b" "length (a @ b) mod 64 = length b mod 64"
proof -
  show l: "length (a @ b) mod 64 = length b mod 64"
    using assms by (metis add_0 length_append mod_add_left_eq)
  then show "whole (a @ b) = length a + whole b" by (simp add: whole_def)
qed

text \<open>
  A buffer whose beginning is the rest of the message, and the state after the whole blocks.
\<close>

definition kept :: "('h \<Rightarrow> byte list \<Rightarrow> 'h) \<Rightarrow> 'h \<Rightarrow> 'h \<Rightarrow> byte list \<Rightarrow> byte list \<Rightarrow> bool" where
  "kept f iv h buffer m \<longleftrightarrow> h = blocks f iv m \<and> length buffer = 64 \<and>
     take (length m mod 64) buffer = drop (whole m) m"

lemma kept_init: "length buffer = 64 \<Longrightarrow> kept f iv iv buffer []"
  by (simp add: kept_def blocks_short whole_def)

lemma kept_short:
  assumes "kept f iv h buffer m" "length m mod 64 + length d < 64"
  shows "kept f iv h (overwrite buffer (length m mod 64) d) (m @ d)"
proof -
  have w: "whole (m @ d) = whole m" "length (m @ d) mod 64 = length m mod 64 + length d"
    using whole_append [OF assms(2)] by simp_all
  have "blocks f iv (m @ d) = blocks f iv m"
    using blocks_whole [of f iv "m @ d"] blocks_whole [of f iv m] w whole_le [of m] by simp
  moreover have "length m = whole m + length m mod 64" by (simp add: whole_def)
  ultimately show ?thesis using assms w
    by (simp add: kept_def overwrite_def)
qed

text \<open>The buffer is filled, and its block taken.\<close>

lemma kept_filled:
  assumes "kept f iv h buffer m" "length m mod 64 + length d = 64"
  shows "f h (overwrite buffer (length m mod 64) d) = blocks f iv (m @ d)"
    "length (m @ d) mod 64 = 0" "length (overwrite buffer (length m mod 64) d) = 64"
proof -
  have "(length m mod 64 + length d) mod 64 = 0" using assms(2) by simp
  then show "length (m @ d) mod 64 = 0" by (simp add: mod_add_left_eq)
  define b where "b = overwrite buffer (length m mod 64) d"
  have b: "b = drop (whole m) m @ d" "length b = 64"
    using assms rest_length [of m] by (simp_all add: b_def overwrite_def kept_def)
  show "length (overwrite buffer (length m mod 64) d) = 64" using b(2) by (simp add: b_def)
  have "m @ d = take (whole m) m @ b" by (simp only: b(1) append_assoc [symmetric] append_take_drop_id)
  then have "blocks f iv (m @ d) = blocks f iv (take (whole m) m @ b)" by (rule arg_cong)
  also have "\<dots> = f h b"
    using assms(1) blocks_append [OF whole_mod, of f iv m b] b(2)
    by (simp add: blocks_whole blocks_one kept_def)
  finally show "f h (overwrite buffer (length m mod 64) d) = blocks f iv (m @ d)" by (simp add: b_def)
qed

text \<open>Whole blocks are taken from the data, and what is left is put at the beginning of the buffer.\<close>

lemma kept_rest:
  assumes "length m mod 64 = 0" "length buffer = 64"
  shows "kept f iv (blocks f (blocks f iv m) d) (overwrite buffer 0 (drop (whole d) d)) (m @ d)"
proof -
  have w: "whole (m @ d) = length m + whole d" "length (m @ d) mod 64 = length d mod 64"
    using whole_blocks [OF assms(1)] by simp_all
  have "length (drop (whole d) d) < 64" using rest_length [of d] by simp
  then show ?thesis
    using assms rest_length [of d] w by (simp add: kept_def blocks_append overwrite_def)
qed

lemma overwrite_twice:
  "i = j + length d \<Longrightarrow> i + length e \<le> length b \<Longrightarrow>
    overwrite (overwrite b j d) i e = overwrite b j (d @ e)"
  by (simp add: overwrite_def ac_simps)

lemma overwrite_nothing: "overwrite b 0 [] = b"
  by (simp add: overwrite_def)

end
