(* ===== verification/Sha1.thy ===== *)
theory Sha1
  imports Blocks
begin

unbundle bit_operations_syntax

text \<open>
  \<open>sha1-internal.c\<close> and \<open>sha1.c\<close> of the STUN library: the SHA-1 that signs and verifies the
  messages between the agent and the STUN server.  A digest is a list of 20 bytes.  The
  unrolled rounds of \<open>SHA1Transform\<close> are the list of their numbers: round \<open>i\<close> calls its
  macro on the variables a to e turned by \<open>i\<close> places, and expands the message in the block
  itself.  \<open>sha1_ref\<close> and \<open>hmac_ref\<close> are the algorithms as FIPS 180 and RFC 2104 state them.
\<close>

section \<open>One block\<close>

definition blk0 :: "nat \<Rightarrow> u32 list \<Rightarrow> u32" where
  "blk0 i l = (rol (l ! i) 24 AND 0xFF00FF00) OR (rol (l ! i) 8 AND 0x00FF00FF)"

definition blk :: "nat \<Rightarrow> u32 list \<Rightarrow> u32" where
  "blk i l = rol (l ! ((i + 13) mod 16) XOR l ! ((i + 8) mod 16) XOR l ! ((i + 2) mod 16)
     XOR l ! (i mod 16)) 1"

definition mix :: "nat \<Rightarrow> u32 \<Rightarrow> u32 \<Rightarrow> u32 \<Rightarrow> u32" where
  "mix i w x y =
     (if i < 20 then (w AND (x XOR y)) XOR y
      else if i < 40 then w XOR x XOR y
      else if i < 60 then ((w OR x) AND y) OR (w AND x)
      else w XOR x XOR y)"

definition K :: "nat \<Rightarrow> u32" where
  "K i = (if i < 20 then 0x5A827999 else if i < 40 then 0x6ED9EBA1
          else if i < 60 then 0x8F1BBCDC else 0xCA62C1D6)"

text \<open>The variable that round \<open>i\<close> passes as the \<open>k\<close>-th argument of its macro.\<close>

definition var :: "nat \<Rightarrow> nat \<Rightarrow> nat" where
  "var i k = (k + 4 * i) mod 5"

definition R :: "nat \<Rightarrow> u32 list \<times> u32 list \<Rightarrow> u32 list \<times> u32 list" where
  "R i s =
     (let (l, vs) = s;
          m = (if i < 16 then blk0 i l else blk i l);
          v = vs ! var i 0; w = vs ! var i 1; x = vs ! var i 2; y = vs ! var i 3; z = vs ! var i 4
      in (l[i mod 16 := m],
          vs[var i 4 := z + (mix i w x y + m + K i + rol v 5), var i 1 := rol w 30]))"

definition SHA1Transform :: "u32 list \<Rightarrow> byte list \<Rightarrow> u32 list" where
  "SHA1Transform state buffer =
     (let l = map (\<lambda>i. le32 (drop (4 * i) buffer)) [0..<16];
          (l', vs) = fold R [0..<80] (l, state)
      in map2 (+) state vs)"

section \<open>Messages in pieces\<close>

record SHA1_CTX =
  c_state :: "u32 list"
  c_count0 :: u32
  c_count1 :: u32
  c_buffer :: "byte list"

definition SHA1Init :: "byte list \<Rightarrow> SHA1_CTX" where
  "SHA1Init rubbish =
     \<lparr>c_state = [0x67452301, 0xEFCDAB89, 0x98BADCFE, 0x10325476, 0xC3D2E1F0],
      c_count0 = 0, c_count1 = 0, c_buffer = rubbish\<rparr>"

text \<open>The loop over the whole blocks of the data, from position \<open>i\<close>.\<close>

function update_loop :: "u32 list \<Rightarrow> byte list \<Rightarrow> nat \<Rightarrow> nat \<Rightarrow> u32 list \<times> nat" where
  "update_loop state data len i =
     (if i + 63 < len then update_loop (SHA1Transform state (take 64 (drop i data))) data len (i + 64)
      else (state, i))"
  by pat_completeness auto
termination by (relation "measure (\<lambda>(_, _, len, i). len - i)") auto

declare update_loop.simps [simp del]

definition SHA1Update :: "SHA1_CTX \<Rightarrow> byte list \<Rightarrow> SHA1_CTX" where
  "SHA1Update ctx data =
     (let len = of_nat (length data) :: u32;
          j = unat (drop_bit 3 (c_count0 ctx) AND 63);
          count0 = c_count0 ctx + push_bit 3 len;
          count1 = (if count0 < push_bit 3 len then c_count1 ctx + 1 else c_count1 ctx) + drop_bit 29 len;
          ctx1 = ctx\<lparr>c_count0 := count0, c_count1 := count1\<rparr>
      in if j + length data > 63 then
           (let buf = overwrite (c_buffer ctx) j (take (64 - j) data);
                (state, i) = update_loop (SHA1Transform (c_state ctx) buf) data (length data) (64 - j)
            in ctx1\<lparr>c_state := state, c_buffer := overwrite buf 0 (drop i data)\<rparr>)
         else ctx1\<lparr>c_buffer := overwrite (c_buffer ctx) j data\<rparr>)"

definition finalcount :: "SHA1_CTX \<Rightarrow> byte list" where
  "finalcount ctx =
     map (\<lambda>i. ucast (drop_bit ((3 - i mod 4) * 8) (if i \<ge> 4 then c_count0 ctx else c_count1 ctx) AND 255))
       [0..<8]"

lemma count_update:
  "c_count0 (SHA1Update ctx data) = c_count0 ctx + push_bit 3 (of_nat (length data))"
  by (simp add: SHA1Update_def Let_def split: prod.split)


lemma and_63: "x AND 63 = take_bit 6 (x :: u32)"
  by (simp add: take_bit_eq_mask mask_eq_exp_minus_1)

lemma and_504: "x AND 504 = push_bit 3 (take_bit 6 (drop_bit 3 (x :: u32)))"
proof -
  have "(504 :: u32) = push_bit 3 (mask 6)" by (simp add: mask_eq_exp_minus_1 push_bit_eq_mult)
  moreover have "x AND push_bit 3 (mask 6) = push_bit 3 (drop_bit 3 x AND mask 6)"
    by (rule bit_word_eqI) (auto simp: bit_simps)
  ultimately show ?thesis by (simp add: take_bit_eq_mask)
qed

definition filled :: "u32 \<Rightarrow> nat" where
  "filled count = unat count div 8 mod 64"

lemma unat_six: "unat (take_bit 6 (drop_bit 3 (x :: u32))) = filled x"
proof -
  have "unat (take_bit 6 (drop_bit 3 x)) = take_bit 6 (unat (drop_bit 3 x))"
    by (rule unsigned_take_bit_eq)
  also have "unat (drop_bit 3 x) = drop_bit 3 (unat x)"
    using take_bit_nat_eq_self [OF unsigned_less [of x]] by (simp only: unsigned_drop_bit_eq)
  finally show ?thesis by (simp add: filled_def take_bit_eq_mod drop_bit_eq_div)
qed

lemma filled_less: "filled x < 64"
  by (simp add: filled_def)

lemma filled_eq: "unat (drop_bit 3 x AND 63) = filled x"
  by (simp only: and_63 unat_six)

lemma filled_56: "x AND 504 = 448 \<longleftrightarrow> filled x = 56"
proof -
  have "unat (push_bit 3 y) = 8 * unat y" if "unat y < 64" for y :: u32
    using that by (simp add: push_bit_eq_mult unat_word_ariths)
  then have "unat (x AND 504) = 8 * filled x"
    unfolding and_504 using filled_less [of x] by (simp only: unat_six)
  moreover have "x AND 504 = 448 \<longleftrightarrow> unat (x AND 504) = 448"
    using word_unat_eq_iff [of "x AND 504" 448] by simp
  ultimately show ?thesis by simp
qed

lemma filled_add:
  "filled (x + push_bit 3 (of_nat n)) = (filled x + n) mod 64"
proof -
  have "unat (push_bit 3 (of_nat n) :: u32) = 8 * n mod 2 ^ 32"
    by (simp add: push_bit_eq_mult unat_word_ariths unat_of_nat mod_mult_right_eq mult.commute)
  then have "unat (x + push_bit 3 (of_nat n)) = (unat x + 8 * n) mod 2 ^ 32"
    by (simp add: unat_word_ariths mod_add_right_eq)
  moreover have "k mod 2 ^ 32 div 8 mod 64 = k div 8 mod 64" for k :: nat
  proof -
    have "k mod 2 ^ 32 div 8 = k div 8 mod 2 ^ 29"
      using mod_mult2_eq [of k 8 "2 ^ 29"] by simp
    then show ?thesis by (simp add: mod_mod_cancel)
  qed
  ultimately have "filled (x + push_bit 3 (of_nat n)) = (unat x + 8 * n) div 8 mod 64"
    by (simp only: filled_def)
  also have "(unat x + 8 * n) div 8 = unat x div 8 + n" by simp
  finally show ?thesis by (simp add: filled_def mod_add_left_eq)
qed

lemma pad_count:
  assumes "y < 64"
  shows "(120 - y) mod 64 = (if y \<le> 56 then 56 - y else 120 - y :: nat)"
proof (cases "y \<le> 56")
  case True
  then have "120 - y = 56 - y + 64" by simp
  then have "(120 - y) mod 64 = (56 - y) mod 64" by (simp only: mod_add_self2)
  then show ?thesis using True by simp
qed (use assms in simp)

lemma one_nearer:
  assumes "x < 64" "x \<noteq> 56"
  shows "(120 - x) mod 64 = Suc ((120 - (x + 1) mod 64) mod (64 :: nat))"
proof (cases "x = 63")
  case False
  then have "(x + 1) mod 64 = x + 1" "x + 1 < 64" using assms by simp_all
  then show ?thesis using assms pad_count [of x] pad_count [of "x + 1"] by auto
qed simp

function pad_loop :: "SHA1_CTX \<Rightarrow> SHA1_CTX" where
  "pad_loop ctx =
     (if c_count0 ctx AND 504 \<noteq> 448 then pad_loop (SHA1Update ctx [0]) else ctx)"
  by pat_completeness auto

termination
proof (relation "measure (\<lambda>ctx. (120 - filled (c_count0 ctx)) mod 64)")
  fix ctx :: SHA1_CTX
  assume "c_count0 ctx AND 504 \<noteq> 448"
  then have n: "filled (c_count0 ctx) \<noteq> 56" by (simp add: filled_56)
  have f: "filled (c_count0 (SHA1Update ctx [0])) = (filled (c_count0 ctx) + 1) mod 64"
    by (simp only: count_update filled_add) simp
  show "(SHA1Update ctx [0], ctx) \<in> measure (\<lambda>ctx. (120 - filled (c_count0 ctx)) mod 64)"
    unfolding in_measure f one_nearer [OF filled_less n] by (rule lessI)
qed (rule wf_measure)

declare pad_loop.simps [simp del]

definition SHA1Final :: "SHA1_CTX \<Rightarrow> byte list" where
  "SHA1Final ctx =
     (let ctx' = SHA1Update (pad_loop (SHA1Update ctx [0x80])) (finalcount ctx)
      in map (\<lambda>i. ucast (drop_bit ((3 - i mod 4) * 8) (c_state ctx' ! (i div 4)) AND 255)) [0..<20])"

text \<open>The context is on the stack: its buffer holds what was there.\<close>

definition sha1_vector :: "byte list \<Rightarrow> byte list list \<Rightarrow> byte list" where
  "sha1_vector rubbish addr = SHA1Final (foldl SHA1Update (SHA1Init rubbish) addr)"

definition hmac_sha1_vector :: "byte list \<Rightarrow> byte list \<Rightarrow> byte list list \<Rightarrow> byte list option" where
  "hmac_sha1_vector rubbish key addr =
     (if length addr > 5 then None
      else let key' = (if length key > 64 then sha1_vector rubbish [key] else key);
               k_pad = key' @ replicate (64 - length key') 0;
               mac = sha1_vector rubbish (map (\<lambda>k. k XOR 0x36) k_pad # addr)
      in Some (sha1_vector rubbish [map (\<lambda>k. k XOR 0x5c) k_pad, mac]))"

definition hmac_sha1 :: "byte list \<Rightarrow> byte list \<Rightarrow> byte list \<Rightarrow> byte list option" where
  "hmac_sha1 rubbish key data = hmac_sha1_vector rubbish key [data]"

section \<open>The algorithms of the standards\<close>

definition ref_f :: "nat \<Rightarrow> u32 \<Rightarrow> u32 \<Rightarrow> u32 \<Rightarrow> u32" where
  "ref_f t b c d =
     (if t < 20 then (b AND c) XOR (NOT b AND d)
      else if 40 \<le> t \<and> t < 60 then (b AND c) XOR (b AND d) XOR (c AND d)
      else b XOR c XOR d)"

text \<open>The message schedule of a block.\<close>

fun W :: "byte list \<Rightarrow> nat \<Rightarrow> u32" where
  "W block t =
     (if t < 16 then from32 (drop (4 * t) block)
      else word_rotl 1 (W block (t - 3) XOR W block (t - 8) XOR W block (t - 14) XOR W block (t - 16)))"

declare W.simps [simp del]

type_synonym five = "u32 \<times> u32 \<times> u32 \<times> u32 \<times> u32"

fun ref_round :: "byte list \<Rightarrow> nat \<Rightarrow> five \<Rightarrow> five" where
  "ref_round block t (a, b, c, d, e) =
     (word_rotl 5 a + ref_f t b c d + e + K t + W block t, a, word_rotl 30 b, c, d)"

fun ref_block :: "five \<Rightarrow> byte list \<Rightarrow> five" where
  "ref_block (h0, h1, h2, h3, h4) block =
     (let (a, b, c, d, e) = fold (ref_round block) [0..<80] (h0, h1, h2, h3, h4)
      in (h0 + a, h1 + b, h2 + c, h3 + d, h4 + e))"

abbreviation ref_blocks :: "five \<Rightarrow> byte list \<Rightarrow> five" where
  "ref_blocks \<equiv> blocks ref_block"

definition be64 :: "u64 \<Rightarrow> byte list" where
  "be64 w = be32 (ucast (drop_bit 32 w)) @ be32 (ucast w)"

text \<open>A message is filled to a multiple of 64 bytes, its length in bits at the end.\<close>

definition padded :: "byte list \<Rightarrow> byte list" where
  "padded m = m @ 0x80 # replicate ((119 - length m mod 64) mod 64) 0 @ be64 (of_nat (8 * length m))"

definition sha1_ref :: "byte list \<Rightarrow> byte list" where
  "sha1_ref m =
     (let (h0, h1, h2, h3, h4) =
        ref_blocks (0x67452301, 0xEFCDAB89, 0x98BADCFE, 0x10325476, 0xC3D2E1F0) (padded m)
      in be32 h0 @ be32 h1 @ be32 h2 @ be32 h3 @ be32 h4)"

definition hmac_ref :: "byte list \<Rightarrow> byte list \<Rightarrow> byte list" where
  "hmac_ref key text =
     (let k = (if length key > 64 then sha1_ref key else key);
          k0 = k @ replicate (64 - length k) 0
      in sha1_ref (map (\<lambda>b. b XOR 0x5c) k0 @ sha1_ref (map (\<lambda>b. b XOR 0x36) k0 @ text)))"

end
