(* ===== verification/Sha1Props.thy ===== *)
theory Sha1Props
  imports Sha1
begin

unbundle bit_operations_syntax

text \<open>
  The SHA-1 of the STUN library computes the function of the standard, however the message is
  cut into pieces, and its HMAC is the one of RFC 2104.  The rounds are related to the
  rounds of the standard by the turn of the variables and the ring of the last sixteen words;
  the context holds the message given so far.
\<close>

section \<open>One block\<close>

lemma mix_f: "mix t b c d = ref_f t b c d"
proof -
  have "(b AND (c XOR d)) XOR d = (b AND c) XOR (NOT b AND d)"
    by (rule bit_word_eqI) (auto simp: bit_simps)
  moreover have "((b OR c) AND d) OR (b AND c) = (b AND c) XOR (b AND d) XOR (c AND d)"
    by (rule bit_word_eqI) (auto simp: bit_simps)
  ultimately show ?thesis by (simp add: mix_def ref_f_def)
qed

lemma swap_bytes:
  fixes a b c d :: byte
  shows "(rol (le32 [a, b, c, d]) 24 AND 0xFF00FF00) OR (rol (le32 [a, b, c, d]) 8 AND 0x00FF00FF)
    = from32 [a, b, c, d]"
proof -
  have masks: "(0xFF00FF00 :: u32) = push_bit 24 (mask 8) OR push_bit 8 (mask 8)"
    "(0x00FF00FF :: u32) = push_bit 16 (mask 8) OR mask 8"
    by (simp_all add: mask_eq_exp_minus_1 push_bit_eq_mult)
  show ?thesis unfolding masks
  proof (rule bit_word_eqI)
    fix n
    assume "n < LENGTH(32)"
    then show "bit ((rol (le32 [a, b, c, d]) 24 AND (push_bit 24 (mask 8) OR push_bit 8 (mask 8))) OR
        (rol (le32 [a, b, c, d]) 8 AND (push_bit 16 (mask 8) OR mask 8))) n = bit (from32 [a, b, c, d]) n"
      by (cases "n < 8"; cases "n < 16"; cases "n < 24")
        (auto simp: rol_def bit_simps dest: bit_imp_le_length)
  qed
qed

definition ring :: "byte list \<Rightarrow> nat \<Rightarrow> u32 list \<Rightarrow> bool" where
  "ring block i l \<longleftrightarrow> length l = 16 \<and> (\<forall>j < 16. i \<le> j \<longrightarrow> l ! j = le32 (drop (4 * j) block)) \<and>
     (\<forall>t < i. i \<le> t + 16 \<longrightarrow> l ! (t mod 16) = W block t)"

fun turned :: "nat \<Rightarrow> u32 list \<Rightarrow> five \<Rightarrow> bool" where
  "turned i vs (a, b, c, d, e) \<longleftrightarrow> length vs = 5 \<and> vs ! var i 0 = a \<and> vs ! var i 1 = b \<and>
     vs ! var i 2 = c \<and> vs ! var i 3 = d \<and> vs ! var i 4 = e"

lemma drop_four:
  assumes "length block = 64" "j < 16"
  shows "\<exists>a b c d r. drop (4 * j) block = a # b # c # d # r"
proof -
  have "4 \<le> length (drop (4 * j) block)" using assms by simp
  then show ?thesis by (metis (no_types) Suc_le_length_iff numeral_eq_Suc pred_numeral_simps(2,3)
      semiring_norm(26,27))
qed

lemma from32_take: "from32 (a # b # c # d # r) = from32 [a, b, c, d]"
  by simp

lemma expand:
  assumes "length block = 64" "ring block i l"
  shows "(if i < 16 then blk0 i l else blk i l) = W block i"
proof (cases "i < 16")
  case True
  then have "l ! i = le32 (drop (4 * i) block)" using assms(2) by (simp add: ring_def)
  with drop_four [OF assms(1) True] True show ?thesis
    using swap_bytes by (auto simp: blk0_def W.simps)
next
  case False
  have w: "l ! (t mod 16) = W block t" if "t < i" "i \<le> t + 16" for t
    using assms(2) that by (simp add: ring_def)
  have "i + 13 = (i - 3) + 16" "i + 8 = (i - 8) + 16" "i + 2 = (i - 14) + 16" "i = (i - 16) + 16"
    using False by simp_all
  then have "(i + 13) mod 16 = (i - 3) mod 16" "(i + 8) mod 16 = (i - 8) mod 16"
    "(i + 2) mod 16 = (i - 14) mod 16" "i mod 16 = (i - 16) mod 16"
    by (metis mod_add_self2)+
  then show ?thesis using False w [of "i - 3"] w [of "i - 8"] w [of "i - 14"] w [of "i - 16"]
    by (simp add: blk_def W.simps [of block i] rol_rotl)
qed

lemma ring_step:
  assumes "ring block i l"
  shows "ring block (Suc i) (l[i mod 16 := W block i])"
proof -
  have "i mod 16 \<noteq> t mod 16" if "t < i" "i < t + 16" for t
    using that by (metis mod_eq_dvd_iff_nat nat_dvd_not_less less_imp_le_nat zero_less_diff
        add_diff_cancel_left' diff_less_mono)
  then show ?thesis using assms
    by (auto simp: ring_def less_Suc_eq nth_list_update)
qed

lemma length_five: "length vs = 5 \<Longrightarrow> \<exists>a b c d e. vs = [a, b, c, d, e]"
  by (auto simp: length_Suc_conv numeral_eq_Suc)

lemma turned_step:
  assumes "turned i vs t" "length l = 16" "(if i < 16 then blk0 i l else blk i l) = W block i"
  shows "turned (Suc i) (snd (R i (l, vs))) (ref_round block i t)"
proof -
  obtain a b c d e where t: "t = (a, b, c, d, e)" by (cases t) auto
  obtain p q r s u where vs: "vs = [p, q, r, s, u]"
    using assms(1) t length_five by fastforce
  have v: "var i k = (k + 4 * i mod 5) mod 5" "var (Suc i) k = (k + 4 + 4 * i mod 5) mod 5" for k
    by (simp_all add: var_def mod_add_right_eq) (metis add.assoc add.commute add_mult_distrib2 mod_add_right_eq
        mult.right_neutral)
  have rot: "rol x 5 = word_rotl 5 x" "rol x 30 = word_rotl 30 x" for x
    by (simp_all add: rol_rotl)
  have "4 * i mod 5 < 5" by simp
  then consider "4 * i mod 5 = 0" | "4 * i mod 5 = 1" | "4 * i mod 5 = 2" | "4 * i mod 5 = 3" | "4 * i mod 5 = 4"
    by linarith
  then show ?thesis using assms(1)
    by cases (simp_all add: t vs v R_def assms(3) mix_f rot Let_def ac_simps)
qed

fun five_list :: "five \<Rightarrow> u32 list" where
  "five_list (a, b, c, d, e) = [a, b, c, d, e]"

lemma rounds:
  assumes "length block = 64"
  shows "ring block n (fst (fold R [0..<n] (map (\<lambda>i. le32 (drop (4 * i) block)) [0..<16], five_list h))) \<and>
    turned n (snd (fold R [0..<n] (map (\<lambda>i. le32 (drop (4 * i) block)) [0..<16], five_list h)))
      (fold (ref_round block) [0..<n] h)"
proof (induction n)
  case 0
  show ?case by (cases h) (auto simp: ring_def var_def)
next
  case (Suc n)
  obtain l vs where s: "fold R [0..<n] (map (\<lambda>i. le32 (drop (4 * i) block)) [0..<16], five_list h) = (l, vs)"
    by (metis surj_pair)
  with Suc.IH have r: "ring block n l" and t: "turned n vs (fold (ref_round block) [0..<n] h)" by auto
  note e = expand [OF assms r]
  have "fst (R n (l, vs)) = l[n mod 16 := W block n]" using e by (simp add: R_def Let_def)
  then show ?case using ring_step [OF r] turned_step [OF t _ e] r
    by (simp add: s ring_def)
qed

lemma transform_block:
  assumes "length block = 64"
  shows "SHA1Transform (five_list h) block = five_list (ref_block h block)"
proof -
  obtain l vs where s: "fold R [0..<80] (map (\<lambda>i. le32 (drop (4 * i) block)) [0..<16], five_list h) = (l, vs)"
    by (metis surj_pair)
  obtain a b c d e where t: "fold (ref_round block) [0..<80] h = (a, b, c, d, e)"
    by (cases "fold (ref_round block) [0..<80] h")
  obtain h0 h1 h2 h3 h4 where h: "h = (h0, h1, h2, h3, h4)" by (cases h)
  have "turned 80 vs (a, b, c, d, e)" using rounds [OF assms, of 80 h] s t by simp
  then have "vs = [a, b, c, d, e]" using length_five [of vs] by (auto simp: var_def)
  then show ?thesis using s t
    by (simp only: SHA1Transform_def Let_def h ref_block.simps) (simp add: h)
qed

section \<open>Messages in pieces\<close>

lemma five_length [simp]: "length (five_list h) = 5"
  by (cases h) simp

lemma update_loop_blocks:
  assumes "i \<le> length d"
  shows "update_loop (five_list h) d (length d) i =
    (five_list (ref_blocks h (drop i d)), i + whole (drop i d))"
  using assms
proof (induction "length d - i" arbitrary: i h rule: less_induct)
  case less
  show ?case
  proof (cases "i + 63 < length d")
    case True
    have w: "i + 64 + whole (drop (i + 64) d) = i + whole (drop i d)"
      using True by (simp add: whole_def le_mod_geq)
    show ?thesis
      using less(1) [of "i + 64" "ref_block h (take 64 (drop i d))"] True w
      by (simp add: update_loop.simps [of _ d] transform_block blocks_long [of "drop i d"] add.commute)
  next
    case False
    then show ?thesis
      by (simp add: update_loop.simps blocks_short whole_def)
  qed
qed

abbreviation IV :: five where
  "IV \<equiv> (0x67452301, 0xEFCDAB89, 0x98BADCFE, 0x10325476, 0xC3D2E1F0)"

text \<open>The context has been given the message \<open>m\<close>.\<close>

definition holds :: "SHA1_CTX \<Rightarrow> byte list \<Rightarrow> bool" where
  "holds ctx m \<longleftrightarrow>
     (\<exists>h. c_state ctx = five_list h \<and> kept ref_block IV h (c_buffer ctx) m) \<and>
     c_count0 ctx = of_nat (8 * length m) \<and> c_count1 ctx = of_nat (8 * length m div 2 ^ 32)"

lemma eight: "push_bit 3 (of_nat n) = (of_nat (8 * n) :: u32)"
  by (simp add: push_bit_eq_mult)

lemma filled_holds: "holds ctx m \<Longrightarrow> unat (drop_bit 3 (c_count0 ctx) AND 63) = length m mod 64"
  using filled_add [of 0 "length m"] by (simp add: filled_eq holds_def eight filled_def)

lemma count_high:
  assumes "n < 2 ^ 32"
  shows "(if of_nat (a + 8 * n) < (of_nat (8 * n) :: u32) then of_nat (a div 2 ^ 32) + 1
      else of_nat (a div 2 ^ 32)) + drop_bit 29 (of_nat n :: u32) = of_nat ((a + 8 * n) div 2 ^ 32)"
proof -
  have "unat (drop_bit 29 (of_nat n :: u32)) = drop_bit 29 n"
    using assms by (simp only: unsigned_drop_bit_eq) (simp add: unat_of_nat take_bit_nat_eq_self)
  also have "drop_bit 29 n = 8 * n div 2 ^ 32" by (simp add: drop_bit_eq_div)
  finally have d: "drop_bit 29 (of_nat n :: u32) = of_nat (8 * n div 2 ^ 32)"
    by (metis of_nat_unat ucast_id)
  have l: "of_nat (a + 8 * n) < (of_nat (8 * n) :: u32) \<longleftrightarrow> (a + 8 * n) mod 2 ^ 32 < 8 * n mod 2 ^ 32"
    by (simp only: word_less_nat_alt unat_of_nat) simp
  show ?thesis unfolding l d
    using carry [of "2 ^ 32" a "8 * n"] by simp
qed

lemma holds_counts:
  assumes "holds ctx m" "length d < 2 ^ 32"
  shows "c_count0 (SHA1Update ctx d) = of_nat (8 * length (m @ d))"
    "c_count1 (SHA1Update ctx d) = of_nat (8 * length (m @ d) div 2 ^ 32)"
proof -
  show "c_count0 (SHA1Update ctx d) = of_nat (8 * length (m @ d))"
    using assms(1) by (simp add: count_update eight holds_def)
  have "c_count1 (SHA1Update ctx d) =
      (if of_nat (8 * length m + 8 * length d) < (of_nat (8 * length d) :: u32)
       then of_nat (8 * length m div 2 ^ 32) + 1 else of_nat (8 * length m div 2 ^ 32))
      + drop_bit 29 (of_nat (length d))"
    using assms(1) by (simp add: SHA1Update_def Let_def holds_def eight split: prod.split)
  then show "c_count1 (SHA1Update ctx d) = of_nat (8 * length (m @ d) div 2 ^ 32)"
    using count_high [OF assms(2), of "8 * length m"] by (simp add: algebra_simps)
qed

lemma holds_update:
  assumes "holds ctx m" "length d < 2 ^ 32"
  shows "holds (SHA1Update ctx d) (m @ d)"
proof -
  define j where "j = length m mod 64"
  have j: "unat (drop_bit 3 (c_count0 ctx) AND 63) = j" "j < 64"
    using filled_holds [OF assms(1)] by (simp_all add: j_def)
  obtain h where st: "c_state ctx = five_list h" and kept: "kept ref_block IV h (c_buffer ctx) m"
    using assms(1) by (auto simp: holds_def)
  note counts = holds_counts [OF assms]
  show ?thesis
  proof (cases "j + length d > 63")
    case False
    then show ?thesis using kept_short [OF kept, of d] counts st j
      by (auto simp: holds_def SHA1Update_def Let_def j_def simp del: split_paired_Ex)
  next
    case True
    define i where "i = 64 - j"
    define full where "full = m @ take i d"
    define b where "b = overwrite (c_buffer ctx) j (take i d)"
    have i: "i \<le> length d" "length m mod 64 + length (take i d) = 64"
      using True j(2) by (simp_all add: i_def j_def)
    have f: "ref_block h b = ref_blocks IV full" "length full mod 64 = 0" "length b = 64"
      using kept_filled [OF kept i(2)] by (simp_all add: b_def j_def full_def)
    have loop: "update_loop (SHA1Transform (c_state ctx) b) d (length d) i =
        (five_list (ref_blocks (ref_blocks IV full) (drop i d)), i + whole (drop i d))"
      using update_loop_blocks [OF i(1)] by (simp add: st transform_block f(1,3))
    have "m @ d = full @ drop i d" by (simp add: full_def)
    moreover have "drop (i + whole (drop i d)) d = drop (whole (drop i d)) (drop i d)" by (simp add: add.commute)
    ultimately show ?thesis using True loop counts kept_rest [OF f(2,3), of ref_block IV "drop i d"]
      by (auto simp: holds_def SHA1Update_def Let_def j i_def [symmetric] b_def [symmetric] simp del: split_paired_Ex)
  qed
qed

lemma holds_updates:
  "holds ctx m \<Longrightarrow> \<forall>d \<in> set ds. length d < 2 ^ 32 \<Longrightarrow> holds (foldl SHA1Update ctx ds) (m @ concat ds)"
proof (induction ds arbitrary: ctx m)
  case (Cons d ds)
  then have "holds (SHA1Update ctx d) (m @ d)" by (simp add: holds_update)
  with Cons show ?case by fastforce
qed simp

lemma holds_init: "length rubbish = 64 \<Longrightarrow> holds (SHA1Init rubbish) []"
  using kept_init [of rubbish ref_block IV]
  by (auto simp: holds_def SHA1Init_def intro!: exI [of _ IV])

lemma holds_pad:
  "holds ctx m \<Longrightarrow> holds (pad_loop ctx) (m @ replicate ((120 - length m mod 64) mod 64) 0)"
proof (induction ctx arbitrary: m rule: pad_loop.induct)
  case (1 ctx)
  have f: "filled (c_count0 ctx) = length m mod 64"
    using filled_holds [OF 1(2)] by (simp add: filled_eq)
  show ?case
  proof (cases "length m mod 64 = 56")
    case True
    then have "c_count0 ctx AND 504 = 448" using f filled_56 by simp
    then show ?thesis using True 1(2) by (simp add: pad_loop.simps)
  next
    case False
    then have n: "c_count0 ctx AND 504 \<noteq> 448" using f filled_56 by simp
    have k: "(120 - length m mod 64) mod 64 = Suc ((120 - length (m @ [0 :: byte]) mod 64) mod 64)"
      using one_nearer [OF _ False] by (simp add: mod_Suc_eq)
    have "holds (SHA1Update ctx [0]) (m @ [0])" using holds_update [OF 1(2), of "[0]"] by simp
    from 1(1) [OF n this] n k show ?thesis
      by (simp add: pad_loop.simps [of ctx])
  qed
qed

lemma be32_shift:
  "map (\<lambda>i. ucast (drop_bit ((3 - i) * 8) w AND 255)) [0..<4] = be32 (w :: u32)"
proof -
  have "(255 :: u32) = mask 8" by (simp add: mask_eq_exp_minus_1)
  then have "bit (255 :: u32) n \<longleftrightarrow> n < 8" for n
    by (simp only: bit_mask_iff) auto
  then have "bit (x AND 255) n \<longleftrightarrow> bit x n \<and> n < 8" for x :: u32 and n
    by (simp only: bit_and_iff)
  then have "ucast (x AND 255) = (ucast x :: byte)" for x :: u32
    by (intro bit_word_eqI) (simp only: bit_unsigned_iff, simp)
  then show ?thesis by (simp add: be32_def upt_rec)
qed

lemma finalcount_bytes:
  assumes "holds ctx m"
  shows "finalcount ctx = be64 (of_nat (8 * length m))"
proof -
  have "finalcount ctx = be32 (c_count1 ctx) @ be32 (c_count0 ctx)"
    by (simp only: be32_shift [symmetric] finalcount_def) (simp add: upt_rec)
  then show ?thesis using assms by (simp only: be64_def holds_def halves)
qed

lemma pad_length: "(120 - (n + 1) mod 64) mod 64 = (119 - n mod 64) mod (64 :: nat)"
proof (cases "n mod 64 = 63")
  case True
  then have "(n + 1) mod 64 = 0" by (simp add: mod_Suc)
  then show ?thesis using True by simp
next
  case False
  then have "(n + 1) mod 64 = n mod 64 + 1" by (simp add: mod_Suc)
  then show ?thesis by simp
qed

lemma holds_final:
  assumes "holds ctx m"
  shows "holds (SHA1Update (pad_loop (SHA1Update ctx [0x80])) (finalcount ctx)) (padded m)"
proof -
  have "holds (SHA1Update ctx [0x80]) (m @ [0x80])" using holds_update [OF assms, of "[0x80]"] by simp
  from holds_pad [OF this] have "holds (pad_loop (SHA1Update ctx [0x80]))
      (m @ 0x80 # replicate ((119 - length m mod 64) mod 64) 0)"
    using pad_length [of "length m"] by simp
  from holds_update [OF this, of "finalcount ctx"] show ?thesis
    by (simp add: finalcount_bytes [OF assms] padded_def be64_def)
qed

lemma digest_bytes:
  "map (\<lambda>i. ucast (drop_bit ((3 - i mod 4) * 8) ([a, b, c, d, e] ! (i div 4)) AND 255)) [0..<20]
    = be32 a @ be32 b @ be32 c @ be32 d @ be32 (e :: u32)"
  by (simp only: be32_shift [symmetric]) (simp add: upt_rec)

lemma final_digest:
  assumes "holds ctx m"
  shows "SHA1Final ctx = sha1_ref m"
proof -
  obtain a b c d e where h: "ref_blocks IV (padded m) = (a, b, c, d, e)"
    by (cases "ref_blocks IV (padded m)")
  then have "c_state (SHA1Update (pad_loop (SHA1Update ctx [0x80])) (finalcount ctx)) = [a, b, c, d, e]"
    using holds_final [OF assms] by (auto simp: holds_def kept_def)
  then show ?thesis
    by (simp only: SHA1Final_def Let_def digest_bytes sha1_ref_def h prod.case)
qed

lemma vector_ref:
  assumes "length rubbish = 64" "\<forall>d \<in> set addr. length d < 2 ^ 32"
  shows "sha1_vector rubbish addr = sha1_ref (concat addr)"
  using final_digest [OF holds_updates [OF holds_init [OF assms(1)] assms(2)]]
  by (simp add: sha1_vector_def)

lemma length_sha1_ref [simp]: "length (sha1_ref m) = 20"
  by (simp add: sha1_ref_def split: prod.split)

lemma hmac_ref_sha1:
  assumes "length rubbish = 64" "length key < 2 ^ 32" "length data < 2 ^ 32"
  shows "hmac_sha1 rubbish key data = Some (hmac_ref key data)"
proof -
  have k: "(if length key > 64 then sha1_vector rubbish [key] else key) =
      (if length key > 64 then sha1_ref key else key)"
    using vector_ref [OF assms(1), of "[key]"] assms(2) by simp
  show ?thesis
    unfolding hmac_sha1_def hmac_sha1_vector_def hmac_ref_def Let_def k
    using assms(3) by (simp add: vector_ref [OF assms(1)])
qed

text \<open>
  the digest that the code computes from the pieces of a message is the SHA-1 of the
  standard of the whole message, wherever the pieces end and whatever the buffer held before.
\<close>

theorem sha1_vector_spec:
  assumes "length rubbish = 64" "\<forall>d \<in> set addr. length d < 2 ^ 32"
  shows "sha1_vector rubbish addr = sha1_ref (concat addr)"
  by (rule vector_ref [OF assms])

lemma sha1_vector_spec_witness:
  "sha1_vector (replicate 64 7) [bytes ''a'', bytes ''bc''] = sha1_ref (bytes ''abc'')"
  using sha1_vector_spec [of "replicate 64 7" "[bytes ''a'', bytes ''bc'']"]
  by (simp add: bytes_def)

text \<open>
  C12: \<open>hmac_sha1\<close> computes the HMAC of RFC 2104 over SHA-1, for keys shorter and longer
  than a block.
\<close>

theorem hmac_sha1_spec:
  assumes "length rubbish = 64" "length key < 2 ^ 32" "length data < 2 ^ 32"
  shows "hmac_sha1 rubbish key data = Some (hmac_ref key data)"
  by (rule hmac_ref_sha1 [OF assms])

lemma hmac_sha1_spec_witness:
  "hmac_sha1 (replicate 64 7) (bytes ''1234'') (bytes ''ping'') =
    Some (hmac_ref (bytes ''1234'') (bytes ''ping''))"
  using hmac_sha1_spec [of "replicate 64 7" "bytes ''1234''" "bytes ''ping''"] by simp

end
