(* ===== verification/Stun.thy ===== *)
theory Stun
  imports Sha1
begin

text \<open>
  \<open>dm_lib_stun.c\<close>: the messages of the STUN protocol, as the agent reads and writes them.

  A pointer into a buffer is the rest of the buffer from there on; reading past its end, writing
  past the end of an array of the message, and a failed \<open>assert\<close> are the values of \<open>stun_fault\<close>.
  The parser starts from a message filled with zeros (\<open>memset\<close>) and changes it also when it
  returns false.  The encoder returns the bytes it has written into its buffer.
\<close>

section \<open>Messages\<close>

datatype stun_fault = Overflow | Abort

definition STUN_MAX_STRING :: nat where "STUN_MAX_STRING = 256"
definition STUN_MAX_MESSAGE_SIZE :: nat where "STUN_MAX_MESSAGE_SIZE = 2048"
definition HMAC_SIZE :: nat where "HMAC_SIZE = 20"

abbreviation MappedAddress :: u16 where "MappedAddress \<equiv> 0x0001"
abbreviation ResponseAddress :: u16 where "ResponseAddress \<equiv> 0x0002"
abbreviation ChangeRequest :: u16 where "ChangeRequest \<equiv> 0x0003"
abbreviation SourceAddress :: u16 where "SourceAddress \<equiv> 0x0004"
abbreviation ChangedAddress :: u16 where "ChangedAddress \<equiv> 0x0005"
abbreviation Username :: u16 where "Username \<equiv> 0x0006"
abbreviation Password :: u16 where "Password \<equiv> 0x0007"
abbreviation MessageIntegrity :: u16 where "MessageIntegrity \<equiv> 0x0008"
abbreviation ErrorCode :: u16 where "ErrorCode \<equiv> 0x0009"
abbreviation UnknownAttribute :: u16 where "UnknownAttribute \<equiv> 0x000A"
abbreviation ReflectedFrom :: u16 where "ReflectedFrom \<equiv> 0x000B"
abbreviation XorMappedAddress :: u16 where "XorMappedAddress \<equiv> 0x8020"
abbreviation XorOnly :: u16 where "XorOnly \<equiv> 0x0021"
abbreviation ServerName :: u16 where "ServerName \<equiv> 0x8022"
abbreviation SecondaryAddress :: u16 where "SecondaryAddress \<equiv> 0x8050"
abbreviation CONNECTION_REQUEST_BINDING :: u16 where "CONNECTION_REQUEST_BINDING \<equiv> 0xC001"
abbreviation BINGIND_CHANGE :: u16 where "BINGIND_CHANGE \<equiv> 0xC002"

abbreviation BindRequestMsg :: u16 where "BindRequestMsg \<equiv> 0x0001"
abbreviation BindResponseMsg :: u16 where "BindResponseMsg \<equiv> 0x0101"
abbreviation BindErrorResponseMsg :: u16 where "BindErrorResponseMsg \<equiv> 0x0111"
abbreviation SharedSecretRequestMsg :: u16 where "SharedSecretRequestMsg \<equiv> 0x0002"
abbreviation SharedSecretResponseMsg :: u16 where "SharedSecretResponseMsg \<equiv> 0x0102"

abbreviation IPv4Family :: byte where "IPv4Family \<equiv> 0x01"

record StunAddress4 =
  port :: u16
  addr :: u32

record StunAtrAddress4 =
  pad :: byte
  family :: byte
  ipv4 :: StunAddress4

record StunAtrError =
  e_pad :: u16
  errorClass :: byte
  e_number :: byte
  reason :: "byte list"
  sizeReason :: u16

record StunAtrUnknown =
  attrType :: "u16 list"
  numAttributes :: u16

record StunAtrString =
  s_value :: "byte list"
  sizeValue :: u16

record StunMsgHdr =
  msgType :: u16
  msgLength :: u16
  octet :: "byte list"

record StunMessage =
  msgHdr :: StunMsgHdr
  hasMappedAddress :: bool
  mappedAddress :: StunAtrAddress4
  hasResponseAddress :: bool
  responseAddress :: StunAtrAddress4
  hasChangeRequest :: bool
  changeRequest :: u32
  hasSourceAddress :: bool
  sourceAddress :: StunAtrAddress4
  hasChangedAddress :: bool
  changedAddress :: StunAtrAddress4
  hasUsername :: bool
  username :: StunAtrString
  hasPassword :: bool
  password :: StunAtrString
  hasMessageIntegrity :: bool
  messageIntegrity :: "byte list"
  hasErrorCode :: bool
  errorCode :: StunAtrError
  hasUnknownAttributes :: bool
  unknownAttributes :: StunAtrUnknown
  hasReflectedFrom :: bool
  reflectedFrom :: StunAtrAddress4
  hasXorMappedAddress :: bool
  xorMappedAddress :: StunAtrAddress4
  xorOnly :: bool
  hasServerName :: bool
  serverName :: StunAtrString
  hasConnectionRequestBinding :: bool
  connectionRequestBinding :: StunAtrString
  hasBindingChange :: bool
  hasSecondaryAddress :: bool
  secondaryAddress :: StunAtrAddress4

definition zero_address :: StunAtrAddress4 where
  "zero_address = \<lparr>pad = 0, family = 0, ipv4 = \<lparr>port = 0, addr = 0\<rparr>\<rparr>"

definition zero_string :: StunAtrString where
  "zero_string = \<lparr>s_value = replicate STUN_MAX_STRING 0, sizeValue = 0\<rparr>"

definition zero_error :: StunAtrError where
  "zero_error = \<lparr>e_pad = 0, errorClass = 0, e_number = 0, reason = replicate STUN_MAX_STRING 0, sizeReason = 0\<rparr>"

definition zero_message :: StunMessage where
  "zero_message =
     \<lparr>msgHdr = \<lparr>msgType = 0, msgLength = 0, octet = replicate 16 0\<rparr>,
      hasMappedAddress = False, mappedAddress = zero_address,
      hasResponseAddress = False, responseAddress = zero_address,
      hasChangeRequest = False, changeRequest = 0,
      hasSourceAddress = False, sourceAddress = zero_address,
      hasChangedAddress = False, changedAddress = zero_address,
      hasUsername = False, username = zero_string,
      hasPassword = False, password = zero_string,
      hasMessageIntegrity = False, messageIntegrity = replicate HMAC_SIZE 0,
      hasErrorCode = False, errorCode = zero_error,
      hasUnknownAttributes = False, unknownAttributes = \<lparr>attrType = replicate 8 0, numAttributes = 0\<rparr>,
      hasReflectedFrom = False, reflectedFrom = zero_address,
      hasXorMappedAddress = False, xorMappedAddress = zero_address,
      xorOnly = False,
      hasServerName = False, serverName = zero_string,
      hasConnectionRequestBinding = False, connectionRequestBinding = zero_string,
      hasBindingChange = False,
      hasSecondaryAddress = False, secondaryAddress = zero_address\<rparr>"

section \<open>Reading a message\<close>

type_synonym 'a parsed = "stun_fault + bool \<times> 'a"

text \<open>Reading \<open>n\<close> bytes at a pointer.\<close>

definition readable :: "nat \<Rightarrow> byte list \<Rightarrow> 'a parsed \<Rightarrow> 'a parsed" where
  "readable n body r = (if length body < n then Inl Overflow else r)"

definition stunParseAtrAddress :: "byte list \<Rightarrow> nat \<Rightarrow> StunAtrAddress4 \<Rightarrow> StunAtrAddress4 parsed" where
  "stunParseAtrAddress body hdrLen result =
     (if hdrLen \<noteq> 8 then Inr (False, result)
      else readable 8 body
        (let result = result\<lparr>pad := body ! 0, family := body ! 1\<rparr>
         in if family result = IPv4Family
            then Inr (True, result\<lparr>ipv4 := \<lparr>port = from16 (drop 2 body), addr = from32 (drop 4 body)\<rparr>\<rparr>)
            else Inr (False, result)))"

definition stunParseAtrChangeRequest :: "byte list \<Rightarrow> nat \<Rightarrow> u32 \<Rightarrow> u32 parsed" where
  "stunParseAtrChangeRequest body hdrLen result =
     (if hdrLen \<noteq> 4 then Inr (False, result) else readable 4 body (Inr (True, from32 body)))"

text \<open>\<open>sizeof(StunAtrError)\<close> is 262; the size of the reason is computed in 16 bits.\<close>

definition stunParseAtrError :: "byte list \<Rightarrow> nat \<Rightarrow> StunAtrError \<Rightarrow> StunAtrError parsed" where
  "stunParseAtrError body hdrLen result =
     (if hdrLen \<ge> 262 then Inr (False, result)
      else let n = of_nat hdrLen - 4 :: u16
        in if unat n \<ge> STUN_MAX_STRING then Inl Overflow
           else readable (4 + unat n) body
             (Inr (True, result\<lparr>e_pad := from16 body, errorClass := body ! 2, e_number := body ! 3,
                sizeReason := n,
                reason := (overwrite (reason result) 0 (take (unat n) (drop 4 body)))[unat n := 0]\<rparr>)))"

definition stunParseAtrUnknown :: "byte list \<Rightarrow> nat \<Rightarrow> StunAtrUnknown \<Rightarrow> StunAtrUnknown parsed" where
  "stunParseAtrUnknown body hdrLen result =
     (if hdrLen \<ge> 18 then Inr (False, result)
      else if hdrLen mod 4 \<noteq> 0 then Inr (False, result)
      else let n = hdrLen div 4
        in readable (2 * n) body
          (Inr (True, result\<lparr>numAttributes := of_nat n,
             attrType := map (\<lambda>i. from16 (drop (2 * i) body)) [0..<n] @ drop n (attrType result)\<rparr>)))"

definition stunParseAtrString :: "byte list \<Rightarrow> nat \<Rightarrow> StunAtrString \<Rightarrow> StunAtrString parsed" where
  "stunParseAtrString body hdrLen result =
     (if hdrLen \<ge> STUN_MAX_STRING then Inr (False, result)
      else if hdrLen mod 4 \<noteq> 0 then Inr (False, result)
      else readable hdrLen body
        (Inr (True, result\<lparr>sizeValue := of_nat hdrLen,
           s_value := (overwrite (s_value result) 0 (take hdrLen body))[hdrLen := 0]\<rparr>)))"

definition stunParseAtrIntegrity :: "byte list \<Rightarrow> nat \<Rightarrow> byte list \<Rightarrow> byte list parsed" where
  "stunParseAtrIntegrity body hdrLen result =
     (if hdrLen \<noteq> 20 then Inr (False, result) else readable 20 body (Inr (True, take 20 body)))"

text \<open>The result of reading one attribute, stored in the message.\<close>

definition store :: "('a \<Rightarrow> StunMessage \<Rightarrow> StunMessage) \<Rightarrow> StunMessage \<Rightarrow> 'a parsed \<Rightarrow> StunMessage parsed" where
  "store put msg r = (case r of Inl e \<Rightarrow> Inl e | Inr (ok, v) \<Rightarrow> Inr (ok, put v msg))"

definition parse_attribute :: "u16 \<Rightarrow> byte list \<Rightarrow> nat \<Rightarrow> StunMessage \<Rightarrow> StunMessage parsed" where
  "parse_attribute atrType body attrLen msg =
     (if atrType = MappedAddress then
        store (\<lambda>a m. m\<lparr>hasMappedAddress := True, mappedAddress := a\<rparr>) msg
          (stunParseAtrAddress body attrLen (mappedAddress msg))
      else if atrType = ResponseAddress then
        store (\<lambda>a m. m\<lparr>hasResponseAddress := True, responseAddress := a\<rparr>) msg
          (stunParseAtrAddress body attrLen (responseAddress msg))
      else if atrType = ChangeRequest then
        store (\<lambda>a m. m\<lparr>hasChangeRequest := True, changeRequest := a\<rparr>) msg
          (stunParseAtrChangeRequest body attrLen (changeRequest msg))
      else if atrType = SourceAddress then
        store (\<lambda>a m. m\<lparr>hasSourceAddress := True, sourceAddress := a\<rparr>) msg
          (stunParseAtrAddress body attrLen (sourceAddress msg))
      else if atrType = ChangedAddress then
        store (\<lambda>a m. m\<lparr>hasChangedAddress := True, changedAddress := a\<rparr>) msg
          (stunParseAtrAddress body attrLen (changedAddress msg))
      else if atrType = Username then
        store (\<lambda>a m. m\<lparr>hasUsername := True, username := a\<rparr>) msg
          (stunParseAtrString body attrLen (username msg))
      else if atrType = Password then
        store (\<lambda>a m. m\<lparr>hasPassword := True, password := a\<rparr>) msg
          (stunParseAtrString body attrLen (password msg))
      else if atrType = MessageIntegrity then
        store (\<lambda>a m. m\<lparr>hasMessageIntegrity := True, messageIntegrity := a\<rparr>) msg
          (stunParseAtrIntegrity body attrLen (messageIntegrity msg))
      else if atrType = ErrorCode then
        store (\<lambda>a m. m\<lparr>hasErrorCode := True, errorCode := a\<rparr>) msg
          (stunParseAtrError body attrLen (errorCode msg))
      else if atrType = UnknownAttribute then
        store (\<lambda>a m. m\<lparr>hasUnknownAttributes := True, unknownAttributes := a\<rparr>) msg
          (stunParseAtrUnknown body attrLen (unknownAttributes msg))
      else if atrType = ReflectedFrom then
        store (\<lambda>a m. m\<lparr>hasReflectedFrom := True, reflectedFrom := a\<rparr>) msg
          (stunParseAtrAddress body attrLen (reflectedFrom msg))
      else if atrType = XorMappedAddress then
        store (\<lambda>a m. m\<lparr>hasXorMappedAddress := True, xorMappedAddress := a\<rparr>) msg
          (stunParseAtrAddress body attrLen (xorMappedAddress msg))
      else if atrType = XorOnly then Inr (True, msg\<lparr>xorOnly := True\<rparr>)
      else if atrType = ServerName then
        store (\<lambda>a m. m\<lparr>hasServerName := True, serverName := a\<rparr>) msg
          (stunParseAtrString body attrLen (serverName msg))
      else if atrType = SecondaryAddress then
        store (\<lambda>a m. m\<lparr>hasSecondaryAddress := True, secondaryAddress := a\<rparr>) msg
          (stunParseAtrAddress body attrLen (secondaryAddress msg))
      else if atrType = CONNECTION_REQUEST_BINDING then
        Inr (True, msg\<lparr>hasConnectionRequestBinding := True\<rparr>)
      else if atrType = BINGIND_CHANGE then Inr (True, msg\<lparr>hasBindingChange := True\<rparr>)
      else Inr (0x7FFF < atrType, msg))"

function parse_attributes :: "byte list \<Rightarrow> nat \<Rightarrow> StunMessage \<Rightarrow> StunMessage parsed" where
  "parse_attributes body left msg =
     (if left = 0 then Inr (True, msg)
      else readable 4 body
        (let attrLen = unat (from16 (drop 2 body)); atrType = from16 body
         in if attrLen + 4 > left then Inr (False, msg)
            else case parse_attribute atrType (drop 4 body) attrLen msg of
                Inl e \<Rightarrow> Inl e
              | Inr (ok, msg') \<Rightarrow>
                  (if ok then parse_attributes (drop (4 + attrLen) body) (left - 4 - attrLen) msg'
                   else Inr (False, msg'))))"
  by pat_completeness auto
termination by (relation "measure (\<lambda>(_, left, _). left)") auto

declare parse_attributes.simps [simp del]

text \<open>\<open>buf\<close> is the whole array behind the pointer, \<open>bufLen\<close> the length of the datagram in it.\<close>

definition stunParseMessage :: "byte list \<Rightarrow> nat \<Rightarrow> StunMessage parsed" where
  "stunParseMessage buf bufLen =
     (if 20 > bufLen then Inr (False, zero_message)
      else readable 20 buf
        (let msg = zero_message\<lparr>msgHdr := \<lparr>msgType = from16 buf, msgLength = from16 (drop 2 buf),
               octet = take 16 (drop 4 buf)\<rparr>\<rparr>
         in if unat (msgLength (msgHdr msg)) + 20 \<noteq> bufLen then Inr (False, msg)
            else parse_attributes (drop 20 buf) (unat (msgLength (msgHdr msg))) msg))"

section \<open>Writing a message\<close>

definition encodeAtrAddress4 :: "u16 \<Rightarrow> StunAtrAddress4 \<Rightarrow> byte list" where
  "encodeAtrAddress4 t atr =
     be16 t @ be16 8 @ [pad atr, IPv4Family] @ be16 (port (ipv4 atr)) @ be32 (addr (ipv4 atr))"

definition encodeAtrChangeRequest :: "u32 \<Rightarrow> byte list" where
  "encodeAtrChangeRequest v = be16 ChangeRequest @ be16 4 @ be32 v"

text \<open>\<open>encode\<close> copies the first bytes of an array.\<close>

definition encode :: "byte list \<Rightarrow> nat \<Rightarrow> stun_fault + byte list" where
  "encode data n = (if length data < n then Inl Overflow else Inr (take n data))"

fun prepend :: "byte list \<Rightarrow> stun_fault + byte list \<Rightarrow> stun_fault + byte list" where
  "prepend h (Inl e) = Inl e"
| "prepend h (Inr d) = Inr (h @ d)"

definition encodeAtrError :: "StunAtrError \<Rightarrow> stun_fault + byte list" where
  "encodeAtrError atr =
     prepend (be16 ErrorCode @ be16 (4 + sizeReason atr) @ be16 (e_pad atr) @ [errorClass atr, e_number atr])
       (encode (reason atr) (unat (sizeReason atr)))"

definition encodeAtrUnknown :: "StunAtrUnknown \<Rightarrow> stun_fault + byte list" where
  "encodeAtrUnknown atr =
     prepend (be16 UnknownAttribute @ be16 (2 + 2 * numAttributes atr))
       (encode (concat (map be16 (attrType atr))) (2 * unat (numAttributes atr)))"

definition encodeXorOnly :: "byte list" where
  "encodeXorOnly = be16 XorOnly"

definition encodeAtrString :: "u16 \<Rightarrow> StunAtrString \<Rightarrow> stun_fault + byte list" where
  "encodeAtrString t atr =
     (if sizeValue atr mod 4 \<noteq> 0 then Inl Abort
      else prepend (be16 t @ be16 (sizeValue atr)) (encode (s_value atr) (unat (sizeValue atr))))"

definition encodeAtrIntegrity :: "byte list \<Rightarrow> byte list" where
  "encodeAtrIntegrity hash = be16 MessageIntegrity @ be16 20 @ hash"

definition encodeBindingChange :: "byte list" where
  "encodeBindingChange = be16 BINGIND_CHANGE @ be16 0"

text \<open>The attributes of a message that are present, one after the other.\<close>

fun encode_parts :: "(bool \<times> (stun_fault + byte list)) list \<Rightarrow> stun_fault + byte list" where
  "encode_parts [] = Inr []"
| "encode_parts ((present, p) # ps) =
     (if present then case p of Inl e \<Rightarrow> Inl e | Inr d \<Rightarrow> prepend d (encode_parts ps)
      else encode_parts ps)"

definition message_parts :: "StunMessage \<Rightarrow> (bool \<times> (stun_fault + byte list)) list" where
  "message_parts msg =
     [(hasMappedAddress msg, Inr (encodeAtrAddress4 MappedAddress (mappedAddress msg))),
      (hasResponseAddress msg, Inr (encodeAtrAddress4 ResponseAddress (responseAddress msg))),
      (hasChangeRequest msg, Inr (encodeAtrChangeRequest (changeRequest msg))),
      (hasSourceAddress msg, Inr (encodeAtrAddress4 SourceAddress (sourceAddress msg))),
      (hasChangedAddress msg, Inr (encodeAtrAddress4 ChangedAddress (changedAddress msg))),
      (hasUsername msg, encodeAtrString Username (username msg)),
      (hasPassword msg, encodeAtrString Password (password msg)),
      (hasErrorCode msg, encodeAtrError (errorCode msg)),
      (hasUnknownAttributes msg, encodeAtrUnknown (unknownAttributes msg)),
      (hasReflectedFrom msg, Inr (encodeAtrAddress4 ReflectedFrom (reflectedFrom msg))),
      (hasXorMappedAddress msg, Inr (encodeAtrAddress4 XorMappedAddress (xorMappedAddress msg))),
      (xorOnly msg, Inr encodeXorOnly),
      (hasServerName msg, encodeAtrString ServerName (serverName msg)),
      (hasSecondaryAddress msg, Inr (encodeAtrAddress4 SecondaryAddress (secondaryAddress msg))),
      (hasConnectionRequestBinding msg, encodeAtrString CONNECTION_REQUEST_BINDING (connectionRequestBinding msg)),
      (hasBindingChange msg, Inr encodeBindingChange)]"

text \<open>The key of the signature; \<open>rubbish\<close> is what the stack holds where SHA-1 keeps its block.\<close>

definition computeHmac :: "byte list \<Rightarrow> byte list \<Rightarrow> StunAtrString \<Rightarrow> stun_fault + byte list" where
  "computeHmac rubbish input pw =
     (case encode (s_value pw) (unat (sizeValue pw)) of
        Inl e \<Rightarrow> Inl e
      | Inr key \<Rightarrow> (case hmac_sha1 rubbish key input of None \<Rightarrow> Inr (take 20 rubbish) | Some mac \<Rightarrow> Inr mac))"

definition stunEncodeMessage :: "byte list \<Rightarrow> StunMessage \<Rightarrow> StunAtrString \<Rightarrow> stun_fault + byte list" where
  "stunEncodeMessage rubbish msg pw =
     (case encode_parts (message_parts msg) of
        Inl e \<Rightarrow> Inl e
      | Inr body \<Rightarrow>
          (let sizeHeader = of_nat (length body) + (if sizeValue pw > 0 then 24 else 0) :: u16;
               data = be16 (msgType (msgHdr msg)) @ be16 sizeHeader @ octet (msgHdr msg) @ body
           in if sizeValue pw > 0 then
                (case computeHmac rubbish data pw of
                   Inl e \<Rightarrow> Inl e
                 | Inr hash \<Rightarrow> Inr (data @ encodeAtrIntegrity hash))
              else Inr data))"

end
