(* ===== verification/StunProps.thy ===== *)
theory StunProps
  imports Stun Sha1Props
begin

unbundle bit_operations_syntax

text \<open>
  What the STUN messages promise.  A message that has been read is well formed, whatever the
  datagram held: its arrays keep their sizes and its strings are terminated.  Reading stays
  inside the buffer but for error attributes of a wrong length.  What is written fits into
  the buffer of the sender, and reading it gives the message back; the signature is the HMAC of
  everything before it.
\<close>

section \<open>Well-formed messages\<close>

definition string_ok :: "StunAtrString \<Rightarrow> bool" where
  "string_ok s \<longleftrightarrow> length (s_value s) = STUN_MAX_STRING \<and> unat (sizeValue s) < STUN_MAX_STRING \<and>
     s_value s ! unat (sizeValue s) = 0"

definition error_ok :: "StunAtrError \<Rightarrow> bool" where
  "error_ok e \<longleftrightarrow> length (reason e) = STUN_MAX_STRING \<and> unat (sizeReason e) < STUN_MAX_STRING \<and>
     reason e ! unat (sizeReason e) = 0"

definition unknown_ok :: "StunAtrUnknown \<Rightarrow> bool" where
  "unknown_ok u \<longleftrightarrow> length (attrType u) = 8 \<and> unat (numAttributes u) \<le> 8"

definition message_ok :: "StunMessage \<Rightarrow> bool" where
  "message_ok m \<longleftrightarrow> length (octet (msgHdr m)) = 16 \<and> string_ok (username m) \<and> string_ok (password m) \<and>
     string_ok (serverName m) \<and> string_ok (connectionRequestBinding m) \<and> error_ok (errorCode m) \<and>
     unknown_ok (unknownAttributes m) \<and> length (messageIntegrity m) = HMAC_SIZE"

lemma unat_small: "n < 65536 \<Longrightarrow> unat (of_nat n :: u16) = n"
  by (simp add: unat_of_nat take_bit_nat_eq_self)

lemma zero_ok: "message_ok zero_message"
  by (simp add: message_ok_def zero_message_def string_ok_def error_ok_def unknown_ok_def
      zero_string_def zero_error_def STUN_MAX_STRING_def)

lemma readable_Inr: "readable n body r = Inr x \<longleftrightarrow> n \<le> length body \<and> r = Inr x"
  by (auto simp: readable_def)

lemma parse_string_ok:
  "stunParseAtrString body n s = Inr (ok, s') \<Longrightarrow> string_ok s \<Longrightarrow> string_ok s'"
  by (auto simp: stunParseAtrString_def readable_Inr string_ok_def STUN_MAX_STRING_def unat_small
      min_def split: if_splits)

lemma parse_error_ok:
  "stunParseAtrError body n e = Inr (ok, e') \<Longrightarrow> error_ok e \<Longrightarrow> error_ok e'"
  by (auto simp: stunParseAtrError_def readable_Inr error_ok_def STUN_MAX_STRING_def Let_def
      min_def split: if_splits)

lemma parse_unknown_ok:
  "stunParseAtrUnknown body n u = Inr (ok, u') \<Longrightarrow> unknown_ok u \<Longrightarrow> unknown_ok u'"
  by (auto simp: stunParseAtrUnknown_def readable_Inr unknown_ok_def Let_def unat_small split: if_splits)

lemma parse_integrity_ok:
  "stunParseAtrIntegrity body n h = Inr (ok, h') \<Longrightarrow> length h = HMAC_SIZE \<Longrightarrow> length h' = HMAC_SIZE"
  by (auto simp: stunParseAtrIntegrity_def readable_Inr HMAC_SIZE_def split: if_splits)

lemma store_Inr:
  "store put msg r = Inr (ok, m) \<longleftrightarrow> (\<exists>v. r = Inr (ok, v) \<and> m = put v msg)"
  by (auto simp: store_def split: sum.splits)

lemma parse_attribute_ok:
  "parse_attribute t body n msg = Inr (ok, msg') \<Longrightarrow> message_ok msg \<Longrightarrow> message_ok msg'"
  by (simp only: parse_attribute_def split: if_split_asm;
      auto simp: store_Inr message_ok_def
        dest: parse_string_ok parse_error_ok parse_unknown_ok parse_integrity_ok)

text \<open>One step of the parser, by what it meets.\<close>

lemma parse_end: "parse_attributes body 0 msg = Inr (True, msg)"
  by (simp add: parse_attributes.simps)

lemma parse_step:
  assumes "left \<noteq> 0"
  shows "parse_attributes body left msg =
    (if length body < 4 then Inl Overflow
     else if unat (from16 (drop 2 body)) + 4 > left then Inr (False, msg)
     else case parse_attribute (from16 body) (drop 4 body) (unat (from16 (drop 2 body))) msg of
         Inl e \<Rightarrow> Inl e
       | Inr (ok, msg') \<Rightarrow>
           (if ok then parse_attributes (drop (4 + unat (from16 (drop 2 body))) body)
              (left - 4 - unat (from16 (drop 2 body))) msg'
            else Inr (False, msg')))"
  using assms by (subst parse_attributes.simps) (simp add: readable_def Let_def)

lemma parse_induct [case_names fin short too_long fault refused accepted]:
  assumes fin: "\<And>body msg. P body 0 msg (Inr (True, msg))"
    and short: "\<And>body left msg. left \<noteq> 0 \<Longrightarrow> length body < 4 \<Longrightarrow> P body left msg (Inl Overflow)"
    and long: "\<And>body left msg. unat (from16 (drop 2 body)) + 4 > left \<Longrightarrow> P body left msg (Inr (False, msg))"
    and fault: "\<And>body left msg e. 4 \<le> length body \<Longrightarrow> unat (from16 (drop 2 body)) + 4 \<le> left \<Longrightarrow>
      parse_attribute (from16 body) (drop 4 body) (unat (from16 (drop 2 body))) msg = Inl e \<Longrightarrow>
      P body left msg (Inl e)"
    and refused: "\<And>body left msg m. 4 \<le> length body \<Longrightarrow>
      parse_attribute (from16 body) (drop 4 body) (unat (from16 (drop 2 body))) msg = Inr (False, m) \<Longrightarrow>
      P body left msg (Inr (False, m))"
    and accepted: "\<And>body left msg m r. 4 \<le> length body \<Longrightarrow> unat (from16 (drop 2 body)) + 4 \<le> left \<Longrightarrow>
      parse_attribute (from16 body) (drop 4 body) (unat (from16 (drop 2 body))) msg = Inr (True, m) \<Longrightarrow>
      P (drop (4 + unat (from16 (drop 2 body))) body) (left - 4 - unat (from16 (drop 2 body))) m r \<Longrightarrow>
      P body left msg r"
  shows "P body left msg (parse_attributes body left msg)"
proof (induction left arbitrary: body msg rule: less_induct)
  case (less left)
  show ?case
  proof (cases "left = 0")
    case True
    then show ?thesis by (simp add: parse_end fin)
  next
    case False
    note step = parse_step [OF False, of body msg]
    show ?thesis
    proof (cases "length body < 4 \<or> unat (from16 (drop 2 body)) + 4 > left")
      case True
      then show ?thesis using False short long by (auto simp: step)
    next
      case fits: False
      then have l: "4 \<le> length body" "unat (from16 (drop 2 body)) + 4 \<le> left" by auto
      show ?thesis
      proof (cases "parse_attribute (from16 body) (drop 4 body) (unat (from16 (drop 2 body))) msg")
        case (Inl e)
        with fault [OF l Inl] fits show ?thesis by (simp add: step)
      next
        case (Inr p)
        obtain ok m where p: "p = (ok, m)" by (cases p)
        show ?thesis
        proof (cases ok)
          case True
          with Inr p fits accepted [OF l] less [of "left - 4 - unat (from16 (drop 2 body))"] False
          show ?thesis by (simp add: step)
        next
          case no: False
          with Inr p fits refused [OF l(1)] show ?thesis by (simp add: step)
        qed
      qed
    qed
  qed
qed

lemma parse_attributes_ok:
  assumes "message_ok msg"
  shows "case parse_attributes body left msg of Inl e \<Rightarrow> True | Inr (ok, m) \<Rightarrow> message_ok m"
proof -
  have "message_ok msg \<longrightarrow> (case parse_attributes body left msg of Inl e \<Rightarrow> True | Inr (ok, m) \<Rightarrow> message_ok m)"
    by (rule parse_induct) (auto dest: parse_attribute_ok)
  with assms show ?thesis by simp
qed

definition with_header :: "byte list \<Rightarrow> StunMessage" where
  "with_header buf = zero_message\<lparr>msgHdr := \<lparr>msgType = from16 buf, msgLength = from16 (drop 2 buf),
     octet = take 16 (drop 4 buf)\<rparr>\<rparr>"

lemma with_header_ok: "20 \<le> length buf \<Longrightarrow> message_ok (with_header buf)"
  using zero_ok by (simp add: message_ok_def with_header_def)

lemma parse_message:
  "stunParseMessage buf bufLen =
    (if bufLen < 20 then Inr (False, zero_message)
     else if length buf < 20 then Inl Overflow
     else if unat (from16 (drop 2 buf)) + 20 \<noteq> bufLen then Inr (False, with_header buf)
     else parse_attributes (drop 20 buf) (bufLen - 20) (with_header buf))"
  by (auto simp: stunParseMessage_def readable_def Let_def with_header_def)

text \<open>
  C13: every message that has been read, accepted or not, is well formed: its arrays have their
  sizes and its strings end inside them.
\<close>

theorem parsed_message_typed:
  assumes "stunParseMessage buf bufLen = Inr (ok, msg)"
  shows "message_ok msg"
  using assms zero_ok with_header_ok [of buf]
    parse_attributes_ok [OF with_header_ok, of buf "drop 20 buf" "bufLen - 20"]
  by (simp add: parse_message split: if_split_asm)

lemma parsed_message_typed_witness:
  "\<exists>ok msg. stunParseMessage ([0, 1, 0, 0] @ replicate 16 5 @ replicate 2028 0) 20 = Inr (ok, msg) \<and> message_ok msg"
proof -
  have p: "stunParseMessage ([0, 1, 0, 0] @ replicate 16 5 @ replicate 2028 0) 20 =
      Inr (True, with_header ([0, 1, 0, 0] @ replicate 16 5 @ replicate 2028 0))"
    by (simp add: parse_message parse_end)
  then show ?thesis using parsed_message_typed [OF p] by blast
qed

section \<open>Reading stays inside the buffer\<close>

text \<open>The datagram of \<open>n\<close> bytes holds an error attribute too short or too long for its reason.\<close>

definition bad_error_in :: "byte list \<Rightarrow> nat \<Rightarrow> bool" where
  "bad_error_in buf n \<longleftrightarrow>
     (\<exists>k. k + 4 \<le> n \<and> from16 (drop k buf) = ErrorCode \<and>
        (let l = unat (from16 (drop (k + 2) buf)) in l < 4 \<or> (260 \<le> l \<and> l < 262)))"

lemma error_size:
  assumes "4 \<le> n" "n < 260"
  shows "unat (of_nat n - 4 :: u16) = n - 4"
proof -
  have "(of_nat (n - 4) :: u16) = of_nat n - 4" using assms(1) by (subst of_nat_diff) simp_all
  then show ?thesis using assms unat_small [of "n - 4"] by simp
qed

lemma store_Inl: "store put msg r = Inl e \<longleftrightarrow> r = Inl e"
  by (auto simp: store_def split: sum.splits)

lemma attribute_fault_error:
  assumes "parse_attribute t body n msg = Inl e" "n \<le> length body"
  shows "t = ErrorCode \<and> stunParseAtrError body n (errorCode msg) = Inl e"
  using assms
  by (simp only: parse_attribute_def store_Inl split: if_split_asm)
    (auto simp: stunParseAtrAddress_def stunParseAtrChangeRequest_def
        stunParseAtrString_def stunParseAtrIntegrity_def stunParseAtrUnknown_def
        readable_def Let_def split: if_split_asm)

lemma attribute_fault:
  assumes "parse_attribute t body n msg = Inl e" "n \<le> length body"
  shows "t = ErrorCode \<and> (n < 4 \<or> (260 \<le> n \<and> n < 262))"
proof -
  note e = attribute_fault_error [OF assms]
  moreover have "n < 262" using e by (simp add: stunParseAtrError_def split: if_split_asm)
  moreover have "\<not> (4 \<le> n \<and> n < 260)"
  proof
    assume n: "4 \<le> n \<and> n < 260"
    then have "\<not> 256 \<le> n - 4" "\<not> length body < 4 + (n - 4)" using assms(2) by auto
    with e n error_size [of n] show False
      by (simp add: stunParseAtrError_def Let_def readable_def STUN_MAX_STRING_def)
  qed
  ultimately show ?thesis by linarith
qed

lemma attributes_fault:
  assumes "parse_attributes (drop i buf) left msg = Inl e" "i + left = n" "n + 3 \<le> length buf"
  shows "bad_error_in buf n"
proof -
  have step: "\<forall>i. body = drop i buf \<and> i + left = n \<and> r = Inl e \<longrightarrow> bad_error_in buf n"
    if "r = parse_attributes body left msg" for body left msg and r :: "StunMessage parsed"
    unfolding that
  proof (rule parse_induct [where P = "\<lambda>body left msg r.
        \<forall>i. body = drop i buf \<and> i + left = n \<and> r = Inl e \<longrightarrow> bad_error_in buf n"])
    fix body left msg f
    assume l: "4 \<le> length body" "unat (from16 (drop 2 body)) + 4 \<le> left"
      and f: "parse_attribute (from16 body) (drop 4 body) (unat (from16 (drop 2 body))) msg = Inl f"
    show "\<forall>i. body = drop i buf \<and> i + left = n \<and> Inl f = (Inl e :: StunMessage parsed) \<longrightarrow> bad_error_in buf n"
    proof (intro allI impI)
      fix i
      assume b: "body = drop i buf \<and> i + left = n \<and> Inl f = (Inl e :: StunMessage parsed)"
      then have "unat (from16 (drop 2 body)) \<le> length (drop 4 body)" using l assms(3) by auto
      from attribute_fault [OF f this] show "bad_error_in buf n"
        using b l unfolding bad_error_in_def Let_def by (intro exI [of _ i]) (auto simp: add.commute)
    qed
  next
    fix body left msg m r
    assume l: "unat (from16 (drop 2 body)) + 4 \<le> left"
      and IH: "\<forall>i. drop (4 + unat (from16 (drop 2 body))) body = drop i buf \<and>
        i + (left - 4 - unat (from16 (drop 2 body))) = n \<and> r = Inl e \<longrightarrow> bad_error_in buf n"
    show "\<forall>i. body = drop i buf \<and> i + left = n \<and> r = Inl e \<longrightarrow> bad_error_in buf n"
    proof (intro allI impI)
      fix i
      assume b: "body = drop i buf \<and> i + left = n \<and> r = Inl e"
      define k where "k = unat (from16 (drop 2 body))"
      have "drop (4 + k) body = drop (4 + k + i) buf" using b by (simp only: drop_drop)
      moreover have "4 + k + i + (left - 4 - k) = n" using b l by (simp add: k_def)
      ultimately show "bad_error_in buf n" using IH b unfolding k_def by blast
    qed
  qed (use assms(3) in auto)
  from step [OF refl, of "drop i buf" left msg] assms(1,2) show ?thesis by blast
qed

text \<open>
  C14: a datagram of at most 2045 bytes in the buffer of the agent is read without leaving the
  buffer or an array, unless it holds an error attribute shorter than its fixed part or longer
  than the array of its reason.
\<close>

theorem parse_in_bounds:
  assumes "length buf = STUN_MAX_MESSAGE_SIZE" "bufLen \<le> 2045" "\<not> bad_error_in buf bufLen"
  shows "\<exists>ok msg. stunParseMessage buf bufLen = Inr (ok, msg)"
proof (cases "stunParseMessage buf bufLen")
  case (Inl e)
  then have "parse_attributes (drop 20 buf) (bufLen - 20) (with_header buf) = Inl e" "20 \<le> bufLen"
    using assms(1) by (auto simp: parse_message STUN_MAX_MESSAGE_SIZE_def split: if_split_asm)
  then have "bad_error_in buf bufLen"
    using attributes_fault [of 20 buf "bufLen - 20" _ e bufLen] assms(1,2)
    by (simp add: STUN_MAX_MESSAGE_SIZE_def)
  with assms(3) show ?thesis by contradiction
next
  case (Inr p)
  then show ?thesis by (cases p) auto
qed

lemma parse_in_bounds_witness:
  "\<exists>ok msg. stunParseMessage ([0, 1, 0, 0] @ replicate 2044 0) 20 = Inr (ok, msg)"
proof -
  have l: "length ([0, 1, 0, 0] @ replicate 2044 0 :: byte list) = STUN_MAX_MESSAGE_SIZE"
    by (simp add: STUN_MAX_MESSAGE_SIZE_def)
  have "\<forall>k \<in> set [0..<17]. from16 (drop k ([0, 1, 0, 0] @ replicate 2044 0)) \<noteq> ErrorCode" by code_simp
  then have "\<not> bad_error_in ([0, 1, 0, 0] @ replicate 2044 0) 20"
    unfolding bad_error_in_def by (auto simp del: append.simps)
  from parse_in_bounds [OF l _ this] show ?thesis by simp
qed

text \<open>
  C39: an error attribute of length 0, in a datagram of 24 bytes, makes the agent copy 65532 bytes over the
  message on its stack.
\<close>

theorem short_error_overflows:
  "stunParseMessage ([0, 1, 0, 4] @ replicate 16 5 @ [0, 9, 0, 0] @ replicate 2024 0) 24 = Inl Overflow"
  by (simp add: parse_message parse_step parse_attribute_def stunParseAtrError_def Let_def
      STUN_MAX_STRING_def store_def)

section \<open>Reading what has been written\<close>

definition sendable_string :: "StunAtrString \<Rightarrow> bool" where
  "sendable_string s \<longleftrightarrow> length (s_value s) = STUN_MAX_STRING \<and> unat (sizeValue s) < STUN_MAX_STRING \<and>
     sizeValue s mod 4 = 0"

definition sendable :: "StunMessage \<Rightarrow> bool" where
  "sendable m \<longleftrightarrow> length (octet (msgHdr m)) = 16 \<and> \<not> hasUnknownAttributes m \<and> \<not> xorOnly m \<and>
     (hasUsername m \<longrightarrow> sendable_string (username m)) \<and>
     (hasPassword m \<longrightarrow> sendable_string (password m)) \<and>
     (hasServerName m \<longrightarrow> sendable_string (serverName m)) \<and>
     (hasConnectionRequestBinding m \<longrightarrow> sendable_string (connectionRequestBinding m)) \<and>
     (hasErrorCode m \<longrightarrow> length (reason (errorCode m)) = STUN_MAX_STRING \<and>
        unat (sizeReason (errorCode m)) < STUN_MAX_STRING)"

text \<open>The text of an array at its beginning, the rest filled with zeros.\<close>

definition zero_filled :: "byte list \<Rightarrow> u16 \<Rightarrow> byte list" where
  "zero_filled v n = take (unat n) v @ replicate (STUN_MAX_STRING - unat n) 0"

definition read_address :: "bool \<Rightarrow> StunAtrAddress4 \<Rightarrow> StunAtrAddress4" where
  "read_address here a = (if here then a\<lparr>family := IPv4Family\<rparr> else zero_address)"

definition read_string :: "bool \<Rightarrow> StunAtrString \<Rightarrow> StunAtrString" where
  "read_string here s =
     (if here then \<lparr>s_value = zero_filled (s_value s) (sizeValue s), sizeValue = sizeValue s\<rparr> else zero_string)"

definition read_error :: "bool \<Rightarrow> StunAtrError \<Rightarrow> StunAtrError" where
  "read_error here e =
     (if here then e\<lparr>reason := zero_filled (reason e) (sizeReason e)\<rparr> else zero_error)"

text \<open>The message that the receiver of \<open>msg\<close> reads, without the signature.\<close>

definition read_back :: "StunMessage \<Rightarrow> u16 \<Rightarrow> StunMessage" where
  "read_back msg len =
     zero_message\<lparr>msgHdr := (msgHdr msg)\<lparr>msgLength := len\<rparr>,
       hasMappedAddress := hasMappedAddress msg,
       mappedAddress := read_address (hasMappedAddress msg) (mappedAddress msg),
       hasResponseAddress := hasResponseAddress msg,
       responseAddress := read_address (hasResponseAddress msg) (responseAddress msg),
       hasChangeRequest := hasChangeRequest msg,
       changeRequest := if hasChangeRequest msg then changeRequest msg else 0,
       hasSourceAddress := hasSourceAddress msg,
       sourceAddress := read_address (hasSourceAddress msg) (sourceAddress msg),
       hasChangedAddress := hasChangedAddress msg,
       changedAddress := read_address (hasChangedAddress msg) (changedAddress msg),
       hasUsername := hasUsername msg, username := read_string (hasUsername msg) (username msg),
       hasPassword := hasPassword msg, password := read_string (hasPassword msg) (password msg),
       hasErrorCode := hasErrorCode msg, errorCode := read_error (hasErrorCode msg) (errorCode msg),
       hasReflectedFrom := hasReflectedFrom msg,
       reflectedFrom := read_address (hasReflectedFrom msg) (reflectedFrom msg),
       hasXorMappedAddress := hasXorMappedAddress msg,
       xorMappedAddress := read_address (hasXorMappedAddress msg) (xorMappedAddress msg),
       hasServerName := hasServerName msg, serverName := read_string (hasServerName msg) (serverName msg),
       hasSecondaryAddress := hasSecondaryAddress msg,
       secondaryAddress := read_address (hasSecondaryAddress msg) (secondaryAddress msg),
       hasConnectionRequestBinding := hasConnectionRequestBinding msg,
       hasBindingChange := hasBindingChange msg\<rparr>"

text \<open>One attribute of type \<open>t\<close> with the value \<open>b\<close>: the parser goes on after it.\<close>

lemma parse_one:
  assumes "parse_attribute t (b @ r) (length b) m = Inr (True, m')" "length b < 65536"
  shows "parse_attributes (be16 t @ be16 (of_nat (length b)) @ b @ r) (4 + length b + k) m =
    parse_attributes r k m'"
proof -
  have "drop 2 (be16 t @ be16 (of_nat (length b)) @ b @ r) = be16 (of_nat (length b)) @ b @ r"
    "drop 4 (be16 t @ be16 (of_nat (length b)) @ b @ r) = b @ r"
    by (simp_all add: be16_def)
  then show ?thesis using assms
    by (subst parse_step) (auto simp: unat_small drop_drop [symmetric] add.commute [of 4] split: sum.split)
qed

lemma overwrite_zeros:
  "length t < STUN_MAX_STRING \<Longrightarrow>
    (overwrite (replicate STUN_MAX_STRING 0) 0 t)[length t := 0] = t @ replicate (STUN_MAX_STRING - length t) 0"
  by (cases "STUN_MAX_STRING - length t") (simp_all add: overwrite_def list_update_append)

definition opt :: "bool \<Rightarrow> byte list \<Rightarrow> byte list" where
  "opt p d = (if p then d else [])"

lemma parse_opt:
  assumes "d = be16 t @ be16 (of_nat (length b)) @ b" "length b < 65536"
    "p \<Longrightarrow> parse_attribute t (b @ r) (length b) m = Inr (True, m')" "\<not> p \<Longrightarrow> m' = m"
  shows "parse_attributes (opt p d @ r) (length (opt p d) + k) m = parse_attributes r k m'"
proof (cases p)
  case True
  have "length (opt p d) = 4 + length b" using True by (simp add: opt_def assms(1))
  moreover have "opt p d @ r = be16 t @ be16 (of_nat (length b)) @ b @ r"
    using True by (simp add: opt_def assms(1))
  ultimately show ?thesis using parse_one [OF assms(3) [OF True] assms(2), of k] by (simp only:)
qed (use assms(4) in \<open>simp add: opt_def\<close>)

abbreviation address_value :: "StunAtrAddress4 \<Rightarrow> byte list" where
  "address_value a \<equiv> [pad a, IPv4Family] @ be16 (port (ipv4 a)) @ be32 (addr (ipv4 a))"

lemma address_bytes:
  "encodeAtrAddress4 t a = be16 t @ be16 (of_nat (length (address_value a))) @ address_value a"
  by (simp add: encodeAtrAddress4_def)

lemma parse_address:
  "stunParseAtrAddress (address_value a @ r) (length (address_value a)) old = Inr (True, read_address True a)"
proof -
  have "drop 2 (address_value a @ r) = be16 (port (ipv4 a)) @ be32 (addr (ipv4 a)) @ r"
    "drop 4 (address_value a @ r) = be32 (addr (ipv4 a)) @ r"
    by (simp_all add: be16_def)
  then show ?thesis
    by (cases a) (simp add: stunParseAtrAddress_def readable_def Let_def read_address_def)
qed

lemmas no_address = read_address_def zero_address_def

lemma address_steps:
  "\<not> hasMappedAddress m \<Longrightarrow> mappedAddress m = zero_address \<Longrightarrow>
    parse_attributes (opt p (encodeAtrAddress4 MappedAddress a) @ r)
      (length (opt p (encodeAtrAddress4 MappedAddress a)) + k) m =
    parse_attributes r k (m\<lparr>hasMappedAddress := p, mappedAddress := read_address p a\<rparr>)"
  "\<not> hasResponseAddress m \<Longrightarrow> responseAddress m = zero_address \<Longrightarrow>
    parse_attributes (opt p (encodeAtrAddress4 ResponseAddress a) @ r)
      (length (opt p (encodeAtrAddress4 ResponseAddress a)) + k) m =
    parse_attributes r k (m\<lparr>hasResponseAddress := p, responseAddress := read_address p a\<rparr>)"
  "\<not> hasSourceAddress m \<Longrightarrow> sourceAddress m = zero_address \<Longrightarrow>
    parse_attributes (opt p (encodeAtrAddress4 SourceAddress a) @ r)
      (length (opt p (encodeAtrAddress4 SourceAddress a)) + k) m =
    parse_attributes r k (m\<lparr>hasSourceAddress := p, sourceAddress := read_address p a\<rparr>)"
  "\<not> hasChangedAddress m \<Longrightarrow> changedAddress m = zero_address \<Longrightarrow>
    parse_attributes (opt p (encodeAtrAddress4 ChangedAddress a) @ r)
      (length (opt p (encodeAtrAddress4 ChangedAddress a)) + k) m =
    parse_attributes r k (m\<lparr>hasChangedAddress := p, changedAddress := read_address p a\<rparr>)"
  "\<not> hasReflectedFrom m \<Longrightarrow> reflectedFrom m = zero_address \<Longrightarrow>
    parse_attributes (opt p (encodeAtrAddress4 ReflectedFrom a) @ r)
      (length (opt p (encodeAtrAddress4 ReflectedFrom a)) + k) m =
    parse_attributes r k (m\<lparr>hasReflectedFrom := p, reflectedFrom := read_address p a\<rparr>)"
  "\<not> hasXorMappedAddress m \<Longrightarrow> xorMappedAddress m = zero_address \<Longrightarrow>
    parse_attributes (opt p (encodeAtrAddress4 XorMappedAddress a) @ r)
      (length (opt p (encodeAtrAddress4 XorMappedAddress a)) + k) m =
    parse_attributes r k (m\<lparr>hasXorMappedAddress := p, xorMappedAddress := read_address p a\<rparr>)"
  "\<not> hasSecondaryAddress m \<Longrightarrow> secondaryAddress m = zero_address \<Longrightarrow>
    parse_attributes (opt p (encodeAtrAddress4 SecondaryAddress a) @ r)
      (length (opt p (encodeAtrAddress4 SecondaryAddress a)) + k) m =
    parse_attributes r k (m\<lparr>hasSecondaryAddress := p, secondaryAddress := read_address p a\<rparr>)"
  by (rule parse_opt [OF address_bytes];
      simp add: parse_attribute_def parse_address [simplified] store_def read_address_def)+

lemma change_step:
  "\<not> hasChangeRequest m \<Longrightarrow> changeRequest m = 0 \<Longrightarrow>
    parse_attributes (opt p (encodeAtrChangeRequest v) @ r) (length (opt p (encodeAtrChangeRequest v)) + k) m =
    parse_attributes r k (m\<lparr>hasChangeRequest := p, changeRequest := if p then v else 0\<rparr>)"
  by (rule parse_opt [where b = "be32 v" and t = ChangeRequest])
    (simp_all add: encodeAtrChangeRequest_def parse_attribute_def stunParseAtrChangeRequest_def
      readable_def store_def)

lemma binding_step:
  "\<not> hasBindingChange m \<Longrightarrow>
    parse_attributes (opt p encodeBindingChange @ r) (length (opt p encodeBindingChange) + k) m =
    parse_attributes r k (m\<lparr>hasBindingChange := p\<rparr>)"
  by (rule parse_opt [where b = "[]" and t = BINGIND_CHANGE])
    (simp_all add: encodeBindingChange_def parse_attribute_def)

definition string_bytes :: "u16 \<Rightarrow> StunAtrString \<Rightarrow> byte list" where
  "string_bytes t s = be16 t @ be16 (sizeValue s) @ take (unat (sizeValue s)) (s_value s)"

lemma encode_string: "sendable_string s \<Longrightarrow> encodeAtrString t s = Inr (string_bytes t s)"
  by (simp add: sendable_string_def encodeAtrString_def encode_def string_bytes_def)

lemma sendable_take:
  "sendable_string s \<Longrightarrow> length (take (unat (sizeValue s)) (s_value s)) = unat (sizeValue s)"
  by (simp add: sendable_string_def)

lemma four_divides: "sizeValue s mod 4 = 0 \<Longrightarrow> unat (sizeValue s) mod 4 = 0"
  using unat_mod [of "sizeValue s" 4] by simp

lemma parse_string:
  assumes "sendable_string s"
  shows "stunParseAtrString (take (unat (sizeValue s)) (s_value s) @ r) (unat (sizeValue s)) zero_string =
    Inr (True, read_string True s)"
proof -
  have l: "length (take (unat (sizeValue s)) (s_value s)) = unat (sizeValue s)"
    by (rule sendable_take [OF assms])
  have n: "unat (sizeValue s) < STUN_MAX_STRING" "unat (sizeValue s) mod 4 = 0"
    using assms four_divides [of s] by (simp_all add: sendable_string_def)
  have "(overwrite (replicate STUN_MAX_STRING 0) 0 (take (unat (sizeValue s)) (s_value s)))[unat (sizeValue s) := 0]
      = zero_filled (s_value s) (sizeValue s)"
    using overwrite_zeros [of "take (unat (sizeValue s)) (s_value s)"] n(1) unfolding l zero_filled_def by blast
  then show ?thesis using n l
    by (simp add: stunParseAtrString_def readable_def read_string_def zero_string_def)
qed

lemma string_opt:
  assumes "p \<longrightarrow> sendable_string s"
    "p \<Longrightarrow> parse_attribute t (take (unat (sizeValue s)) (s_value s) @ r) (unat (sizeValue s)) m = Inr (True, m')"
    "\<not> p \<Longrightarrow> m' = m"
  shows "parse_attributes (opt p (string_bytes t s) @ r) (length (opt p (string_bytes t s)) + k) m =
    parse_attributes r k m'"
proof (cases p)
  case True
  with assms(1) have s: "sendable_string s" by simp
  show ?thesis
  proof (rule parse_opt)
    show "string_bytes t s = be16 t @ be16 (of_nat (length (take (unat (sizeValue s)) (s_value s)))) @
        take (unat (sizeValue s)) (s_value s)"
      by (simp only: sendable_take [OF s] string_bytes_def) simp
  qed (use assms(2,3) sendable_take [OF s] s in \<open>simp_all add: sendable_string_def STUN_MAX_STRING_def\<close>)
qed (use assms(3) in \<open>simp add: opt_def\<close>)

lemma string_steps:
  assumes "p \<longrightarrow> sendable_string s"
  shows "\<not> hasUsername m \<Longrightarrow> username m = zero_string \<Longrightarrow>
    parse_attributes (opt p (string_bytes Username s) @ r) (length (opt p (string_bytes Username s)) + k) m =
    parse_attributes r k (m\<lparr>hasUsername := p, username := read_string p s\<rparr>)"
  "\<not> hasPassword m \<Longrightarrow> password m = zero_string \<Longrightarrow>
    parse_attributes (opt p (string_bytes Password s) @ r) (length (opt p (string_bytes Password s)) + k) m =
    parse_attributes r k (m\<lparr>hasPassword := p, password := read_string p s\<rparr>)"
  "\<not> hasServerName m \<Longrightarrow> serverName m = zero_string \<Longrightarrow>
    parse_attributes (opt p (string_bytes ServerName s) @ r) (length (opt p (string_bytes ServerName s)) + k) m =
    parse_attributes r k (m\<lparr>hasServerName := p, serverName := read_string p s\<rparr>)"
  "\<not> hasConnectionRequestBinding m \<Longrightarrow>
    parse_attributes (opt p (string_bytes CONNECTION_REQUEST_BINDING s) @ r)
      (length (opt p (string_bytes CONNECTION_REQUEST_BINDING s)) + k) m =
    parse_attributes r k (m\<lparr>hasConnectionRequestBinding := p\<rparr>)"
  using assms
  by (rule string_opt; auto simp: parse_attribute_def parse_string store_def read_string_def)+

definition error_bytes :: "StunAtrError \<Rightarrow> byte list" where
  "error_bytes e = be16 ErrorCode @ be16 (4 + sizeReason e) @ be16 (e_pad e) @ [errorClass e, e_number e] @
     take (unat (sizeReason e)) (reason e)"

abbreviation error_fits :: "StunAtrError \<Rightarrow> bool" where
  "error_fits e \<equiv> length (reason e) = STUN_MAX_STRING \<and> unat (sizeReason e) < STUN_MAX_STRING"

lemma encode_error: "error_fits e \<Longrightarrow> encodeAtrError e = Inr (error_bytes e)"
  by (simp add: encodeAtrError_def encode_def error_bytes_def)

lemma parse_error:
  assumes "error_fits e" "n = 4 + unat (sizeReason e)"
  shows "stunParseAtrError (be16 (e_pad e) @ [errorClass e, e_number e] @ take (unat (sizeReason e)) (reason e) @ r)
    n zero_error = Inr (True, read_error True e)"
proof -
  let ?t = "take (unat (sizeReason e)) (reason e)"
  let ?b = "be16 (e_pad e) @ [errorClass e, e_number e] @ ?t @ r"
  have l: "length ?t = unat (sizeReason e)" and n: "n < 260"
    using assms by (simp_all add: STUN_MAX_STRING_def)
  have size: "of_nat n - 4 = sizeReason e" by (simp add: assms(2))
  have b: "?b ! 2 = errorClass e" "?b ! 3 = e_number e" "drop 4 ?b = ?t @ r"
    by (simp_all add: be16_def numeral_eq_Suc)
  have "(overwrite (replicate STUN_MAX_STRING 0) 0 ?t)[unat (sizeReason e) := 0] = zero_filled (reason e) (sizeReason e)"
    using overwrite_zeros [of ?t] assms(1) unfolding l zero_filled_def by blast
  then show ?thesis using assms(1) n l
    by (simp only: stunParseAtrError_def size b Let_def) (simp add: readable_def read_error_def zero_error_def)
qed

lemma error_step:
  assumes "p \<longrightarrow> error_fits e"
  shows "\<not> hasErrorCode m \<Longrightarrow> errorCode m = zero_error \<Longrightarrow>
    parse_attributes (opt p (error_bytes e) @ r) (length (opt p (error_bytes e)) + k) m =
    parse_attributes r k (m\<lparr>hasErrorCode := p, errorCode := read_error p e\<rparr>)"
proof (cases p)
  case True
  let ?b = "be16 (e_pad e) @ [errorClass e, e_number e] @ take (unat (sizeReason e)) (reason e)"
  have f: "error_fits e" using True assms by simp
  then have l: "length ?b = 4 + unat (sizeReason e)" by simp
  have b: "error_bytes e = be16 ErrorCode @ be16 (of_nat (length ?b)) @ ?b" unfolding l by (simp add: error_bytes_def)
  assume m: "\<not> hasErrorCode m" "errorCode m = zero_error"
  have "parse_attribute ErrorCode (?b @ r) (length ?b) m =
      store (\<lambda>a m. m\<lparr>hasErrorCode := True, errorCode := a\<rparr>) m (stunParseAtrError (?b @ r) (length ?b) zero_error)"
    by (simp add: parse_attribute_def m(2))
  also have "\<dots> = Inr (True, m\<lparr>hasErrorCode := p, errorCode := read_error p e\<rparr>)"
    using parse_error [OF f l, of r] True by (simp add: store_def)
  finally show ?thesis using True f
    by (intro parse_opt [OF b]) (simp_all add: STUN_MAX_STRING_def)
next
  case False
  assume "\<not> hasErrorCode m" "errorCode m = zero_error"
  then have "m\<lparr>hasErrorCode := p, errorCode := read_error p e\<rparr> = m"
    using False by (simp add: read_error_def)
  then show ?thesis using False by (simp add: opt_def)
qed

lemma opt_no: "opt False d = []"
  by (simp add: opt_def)

text \<open>The attributes of a message, as bytes.\<close>

definition message_bytes :: "StunMessage \<Rightarrow> byte list" where
  "message_bytes msg =
     opt (hasMappedAddress msg) (encodeAtrAddress4 MappedAddress (mappedAddress msg)) @
     opt (hasResponseAddress msg) (encodeAtrAddress4 ResponseAddress (responseAddress msg)) @
     opt (hasChangeRequest msg) (encodeAtrChangeRequest (changeRequest msg)) @
     opt (hasSourceAddress msg) (encodeAtrAddress4 SourceAddress (sourceAddress msg)) @
     opt (hasChangedAddress msg) (encodeAtrAddress4 ChangedAddress (changedAddress msg)) @
     opt (hasUsername msg) (string_bytes Username (username msg)) @
     opt (hasPassword msg) (string_bytes Password (password msg)) @
     opt (hasErrorCode msg) (error_bytes (errorCode msg)) @
     opt (hasReflectedFrom msg) (encodeAtrAddress4 ReflectedFrom (reflectedFrom msg)) @
     opt (hasXorMappedAddress msg) (encodeAtrAddress4 XorMappedAddress (xorMappedAddress msg)) @
     opt (hasServerName msg) (string_bytes ServerName (serverName msg)) @
     opt (hasSecondaryAddress msg) (encodeAtrAddress4 SecondaryAddress (secondaryAddress msg)) @
     opt (hasConnectionRequestBinding msg) (string_bytes CONNECTION_REQUEST_BINDING (connectionRequestBinding msg)) @
     opt (hasBindingChange msg) encodeBindingChange"

lemma encode_parts_opt:
  "encode_parts ((p, Inr d) # ps) = prepend (opt p d) (encode_parts ps)"
  by (cases "encode_parts ps") (auto simp: opt_def)

lemma encode_parts_string:
  "p \<longrightarrow> sendable_string s \<Longrightarrow>
    encode_parts ((p, encodeAtrString t s) # ps) = prepend (opt p (string_bytes t s)) (encode_parts ps)"
  by (cases "encode_parts ps") (auto simp: opt_def encode_string)

lemma encode_parts_error:
  "p \<longrightarrow> error_fits e \<Longrightarrow>
    encode_parts ((p, encodeAtrError e) # ps) = prepend (opt p (error_bytes e)) (encode_parts ps)"
  by (cases "encode_parts ps") (auto simp: opt_def encode_error)

lemma encode_message:
  assumes "sendable msg"
  shows "encode_parts (message_parts msg) = Inr (message_bytes msg)"
proof -
  note sendable = assms [unfolded sendable_def]
  have skip: "encode_parts ((False, x) # ps) = encode_parts ps" for x ps by simp
  show ?thesis using sendable
    by (simp add: message_parts_def encode_parts_opt encode_parts_string encode_parts_error skip
        message_bytes_def opt_no del: encode_parts.simps(2))
qed

lemma parse_bytes:
  assumes "sendable msg" "buf = be16 (msgType (msgHdr msg)) @ be16 len @ octet (msgHdr msg) @ tail"
  shows "parse_attributes (message_bytes msg @ r) (length (message_bytes msg) + k) (with_header buf) =
    parse_attributes r k (read_back msg len)"
proof -
  note sendable = assms(1) [unfolded sendable_def]
  have h: "with_header buf = zero_message\<lparr>msgHdr := (msgHdr msg)\<lparr>msgLength := len\<rparr>\<rparr>"
  proof -
    have "drop 2 buf = be16 len @ octet (msgHdr msg) @ tail" "drop 4 buf = octet (msgHdr msg) @ tail"
      by (simp_all add: assms(2) be16_def)
    then show ?thesis using sendable by (cases "msgHdr msg") (simp add: with_header_def assms(2))
  qed
  have zeros: "\<not> hasMappedAddress zero_message" "mappedAddress zero_message = zero_address"
    "\<not> hasResponseAddress zero_message" "responseAddress zero_message = zero_address"
    "\<not> hasChangeRequest zero_message" "changeRequest zero_message = 0"
    "\<not> hasSourceAddress zero_message" "sourceAddress zero_message = zero_address"
    "\<not> hasChangedAddress zero_message" "changedAddress zero_message = zero_address"
    "\<not> hasUsername zero_message" "username zero_message = zero_string"
    "\<not> hasPassword zero_message" "password zero_message = zero_string"
    "\<not> hasErrorCode zero_message" "errorCode zero_message = zero_error"
    "\<not> hasReflectedFrom zero_message" "reflectedFrom zero_message = zero_address"
    "\<not> hasXorMappedAddress zero_message" "xorMappedAddress zero_message = zero_address"
    "\<not> hasServerName zero_message" "serverName zero_message = zero_string"
    "\<not> hasSecondaryAddress zero_message" "secondaryAddress zero_message = zero_address"
    "\<not> hasConnectionRequestBinding zero_message" "\<not> hasBindingChange zero_message"
    by (simp_all add: zero_message_def)
  show ?thesis using sendable unfolding h message_bytes_def read_back_def
    by (simp only: append_assoc length_append add.assoc)
      (simp add: address_steps string_steps change_step binding_step error_step zeros)
qed

section \<open>The signature\<close>

text \<open>What the messages need of the code that signs: a digest of 20 bytes of the key and the data.\<close>

locale signing =
  fixes mac :: "byte list \<Rightarrow> byte list \<Rightarrow> byte list \<Rightarrow> byte list option"
    and sign :: "byte list \<Rightarrow> byte list \<Rightarrow> byte list"
  assumes mac_sign: "length rubbish = 64 \<Longrightarrow> length key < 2 ^ 32 \<Longrightarrow> length data < 2 ^ 32 \<Longrightarrow>
      mac rubbish key data = Some (sign key data)"
    and sign_length: "length (sign key data) = HMAC_SIZE"
begin

lemma signature_bytes: "encodeAtrIntegrity (sign key data) =
    be16 MessageIntegrity @ be16 (of_nat (length (sign key data))) @ sign key data"
  by (simp add: encodeAtrIntegrity_def sign_length HMAC_SIZE_def)

lemma parse_signature:
  "parse_attributes (encodeAtrIntegrity (sign key data) @ r) (24 + k) m =
    parse_attributes r k (m\<lparr>hasMessageIntegrity := True, messageIntegrity := sign key data\<rparr>)"
proof -
  have l: "length (sign key data) = 20" by (simp add: sign_length HMAC_SIZE_def)
  have "parse_attribute MessageIntegrity (sign key data @ r) (length (sign key data)) m =
      Inr (True, m\<lparr>hasMessageIntegrity := True, messageIntegrity := sign key data\<rparr>)"
    by (simp add: parse_attribute_def stunParseAtrIntegrity_def readable_def store_def l)
  from parse_one [OF this, of k] show ?thesis by (simp add: signature_bytes l)
qed

end

lemma hmac_ref_length: "length (hmac_ref key data) = HMAC_SIZE"
  by (simp add: hmac_ref_def Let_def HMAC_SIZE_def)

lemma hmac_sign:
  "length rubbish = 64 \<Longrightarrow> length key < 2 ^ 32 \<Longrightarrow> length data < 2 ^ 32 \<Longrightarrow>
    hmac_sha1 rubbish key data = Some (hmac_ref key data)"
  by (rule hmac_ref_sha1)

interpretation stun: signing hmac_sha1 hmac_ref
  by unfold_locales (simp_all only: hmac_sign hmac_ref_length)

definition key_of :: "StunAtrString \<Rightarrow> byte list" where
  "key_of pw = take (unat (sizeValue pw)) (s_value pw)"

definition usable_key :: "StunAtrString \<Rightarrow> bool" where
  "usable_key pw \<longleftrightarrow> length (s_value pw) = STUN_MAX_STRING \<and> unat (sizeValue pw) < STUN_MAX_STRING"

lemma compute_hmac:
  assumes "usable_key pw" "length rubbish = 64" "length data < 2 ^ 32"
  shows "computeHmac rubbish data pw = Inr (hmac_ref (key_of pw) data)"
  using assms by (simp add: computeHmac_def usable_key_def encode_def key_of_def hmac_sign STUN_MAX_STRING_def)

lemma opt_length: "length d \<le> n \<Longrightarrow> length (opt p d) \<le> n"
  by (simp add: opt_def)

lemma message_bytes_length:
  assumes "sendable msg"
  shows "length (message_bytes msg) \<le> 1395"
proof -
  note s = assms [unfolded sendable_def]
  have a: "length (opt p (encodeAtrAddress4 t a)) \<le> 12" for p t a
    by (rule opt_length) (simp add: encodeAtrAddress4_def)
  have c: "length (opt p (encodeAtrChangeRequest v)) \<le> 8" for p v
    by (rule opt_length) (simp add: encodeAtrChangeRequest_def)
  have b: "length (opt p encodeBindingChange) \<le> 4" for p
    by (rule opt_length) (simp add: encodeBindingChange_def)
  have t: "length (opt p (string_bytes t x)) \<le> 259" if "p \<longrightarrow> sendable_string x" for p t x
    using that by (cases p) (auto simp: opt_def string_bytes_def sendable_string_def STUN_MAX_STRING_def)
  have e: "length (opt p (error_bytes x)) \<le> 263" if "p \<longrightarrow> error_fits x" for p x
    using that by (cases p) (auto simp: opt_def error_bytes_def STUN_MAX_STRING_def)
  have sum: "\<And>a b c d e f g h i j k l m n :: nat. a \<le> 12 \<Longrightarrow> b \<le> 12 \<Longrightarrow> c \<le> 8 \<Longrightarrow> d \<le> 12 \<Longrightarrow> e \<le> 12 \<Longrightarrow>
      f \<le> 259 \<Longrightarrow> g \<le> 259 \<Longrightarrow> h \<le> 263 \<Longrightarrow> i \<le> 12 \<Longrightarrow> j \<le> 12 \<Longrightarrow> k \<le> 259 \<Longrightarrow> l \<le> 12 \<Longrightarrow> m \<le> 259 \<Longrightarrow> n \<le> 4 \<Longrightarrow>
      a + (b + (c + (d + (e + (f + (g + (h + (i + (j + (k + (l + (m + n)))))))))))) \<le> 1395"
    by linarith
  show ?thesis unfolding message_bytes_def length_append
    by (rule sum; (rule a b c | (rule t e, use s in simp)))
qed

text \<open>What the receiver of a message signed with \<open>pw\<close> reads.\<close>

definition read_signed :: "StunMessage \<Rightarrow> StunAtrString \<Rightarrow> byte list \<Rightarrow> StunMessage" where
  "read_signed msg pw data =
     (let m = read_back msg (of_nat (length data - 20))
      in if sizeValue pw > 0 then
           m\<lparr>hasMessageIntegrity := True,
             messageIntegrity := hmac_ref (key_of pw) (take (length data - 24) data)\<rparr>
         else m)"

definition unsigned_part :: "StunMessage \<Rightarrow> u16 \<Rightarrow> byte list" where
  "unsigned_part msg len = be16 (msgType (msgHdr msg)) @ be16 len @ octet (msgHdr msg) @ message_bytes msg"

lemma encoded:
  assumes "sendable msg" "usable_key pw" "length rubbish = 64"
  defines "n \<equiv> length (message_bytes msg) + (if sizeValue pw > 0 then 24 else 0)"
  shows "stunEncodeMessage rubbish msg pw = Inr (unsigned_part msg (of_nat n) @
    (if sizeValue pw > 0 then encodeAtrIntegrity (hmac_ref (key_of pw) (unsigned_part msg (of_nat n))) else []))"
proof -
  have "length (unsigned_part msg l) < 2 ^ 32" for l
    using message_bytes_length [OF assms(1)] assms(1) by (simp add: unsigned_part_def sendable_def)
  then have "computeHmac rubbish (unsigned_part msg l) pw = Inr (hmac_ref (key_of pw) (unsigned_part msg l))" for l
    by (rule compute_hmac [OF assms(2,3)])
  then show ?thesis
    by (simp add: stunEncodeMessage_def encode_message [OF assms(1)] Let_def unsigned_part_def n_def)
qed

lemma unsigned_length: "sendable msg \<Longrightarrow> length (unsigned_part msg l) = 20 + length (message_bytes msg)"
  by (simp add: unsigned_part_def sendable_def)

lemma signature_length: "length (encodeAtrIntegrity (hmac_ref key data)) = 24"
  by (simp add: encodeAtrIntegrity_def hmac_ref_length HMAC_SIZE_def)

lemma written_fits:
  assumes "sendable msg" "usable_key pw" "length rubbish = 64"
  shows "\<exists>data. stunEncodeMessage rubbish msg pw = Inr data \<and> length data \<le> 1439"
  using message_bytes_length [OF assms(1)]
  by (simp add: encoded [OF assms] unsigned_length [OF assms(1)] signature_length)

lemma written_read:
  assumes "sendable msg" "usable_key pw" "length rubbish = 64"
  shows "\<exists>data. stunEncodeMessage rubbish msg pw = Inr data \<and>
    (\<forall>tail. stunParseMessage (data @ tail) (length data) = Inr (True, read_signed msg pw data))"
proof -
  define n where "n = length (message_bytes msg) + (if sizeValue pw > 0 then 24 else 0)"
  define start where "start = unsigned_part msg (of_nat n)"
  define mac where "mac = (if sizeValue pw > 0 then encodeAtrIntegrity (hmac_ref (key_of pw) start) else [])"
  have e: "stunEncodeMessage rubbish msg pw = Inr (start @ mac)"
    using encoded [OF assms] by (simp add: start_def mac_def n_def)
  have len: "length (start @ mac) = 20 + n" "n < 65536"
    using message_bytes_length [OF assms(1)]
    by (simp_all add: start_def mac_def n_def unsigned_length [OF assms(1)] signature_length)
  have "stunParseMessage ((start @ mac) @ tail) (20 + n) = Inr (True, read_signed msg pw (start @ mac))" for tail
  proof -
    define buf where "buf = (start @ mac) @ tail"
    have buf: "buf = be16 (msgType (msgHdr msg)) @ be16 (of_nat n) @ octet (msgHdr msg) @ message_bytes msg @ mac @ tail"
      by (simp add: buf_def start_def unsigned_part_def)
    have d: "drop 2 buf = be16 (of_nat n) @ octet (msgHdr msg) @ message_bytes msg @ mac @ tail"
      "drop 20 buf = message_bytes msg @ mac @ tail"
      using assms(1) by (simp_all add: buf be16_def sendable_def)
    have k: "n = length (message_bytes msg) + length mac" by (simp add: n_def mac_def signature_length)
    have "stunParseMessage buf (20 + n) = parse_attributes (message_bytes msg @ mac @ tail) n (with_header buf)"
      using len unat_small [OF len(2)] by (simp add: parse_message d) (simp add: buf_def)
    also have "\<dots> = parse_attributes (mac @ tail) (length mac) (read_back msg (of_nat n))"
      unfolding k using parse_bytes [OF assms(1) buf, of "mac @ tail" "length mac"] by (simp add: k)
    also have "\<dots> = Inr (True, read_signed msg pw (start @ mac))"
    proof (cases "sizeValue pw > 0")
      case True
      then have "mac = encodeAtrIntegrity (hmac_ref (key_of pw) start)" by (simp add: mac_def)
      moreover have "take (length (start @ mac) - 24) (start @ mac) = start"
        using True by (simp add: mac_def signature_length)
      ultimately show ?thesis using True len(1) stun.parse_signature [of _ _ tail 0]
        by (simp add: read_signed_def Let_def signature_length parse_end)
    next
      case False
      then show ?thesis using len(1) by (simp add: read_signed_def mac_def parse_end)
    qed
    finally show ?thesis by (simp only: buf_def)
  qed
  with e len(1) show ?thesis by (intro exI [of _ "start @ mac"]) simp
qed

definition sample_request :: StunMessage where
  "sample_request = zero_message\<lparr>msgHdr := \<lparr>msgType = BindRequestMsg, msgLength = 0, octet = replicate 16 7\<rparr>,
     hasUsername := True, username := \<lparr>s_value = bytes ''user'' @ replicate 252 0, sizeValue = 4\<rparr>\<rparr>"

definition sample_key :: StunAtrString where
  "sample_key = \<lparr>s_value = bytes ''secret'' @ replicate 250 0, sizeValue = 6\<rparr>"

lemma samples: "sendable sample_request" "usable_key sample_key" "length (replicate 64 (0 :: byte)) = 64"
  by (simp_all add: sample_request_def sample_key_def sendable_def sendable_string_def usable_key_def
      zero_message_def STUN_MAX_STRING_def)

text \<open>
  the agent writes at most 1439 bytes for a message whose strings are a multiple of
  four bytes and end inside their arrays: its buffer of 2048 bytes, whose size the code does
  not look at, is large enough.
\<close>

theorem written_message_fits:
  assumes "sendable msg" "usable_key pw" "length rubbish = 64"
  shows "\<exists>data. stunEncodeMessage rubbish msg pw = Inr data \<and> length data \<le> 1439"
  by (rule written_fits [OF assms])

lemma written_message_fits_witness:
  "\<exists>data. stunEncodeMessage (replicate 64 0) sample_request sample_key = Inr data \<and> length data \<le> 1439"
  by (rule written_message_fits [OF samples])

text \<open>
  C10: what the agent writes is read back as the message that was written: every attribute, the
  families and the unused parts of the arrays aside, and, when there is a key, a signature that is
  the HMAC of everything before it.
\<close>

theorem message_round_trip:
  assumes "sendable msg" "usable_key pw" "length rubbish = 64"
  shows "\<exists>data. stunEncodeMessage rubbish msg pw = Inr data \<and>
    (\<forall>tail. stunParseMessage (data @ tail) (length data) = Inr (True, read_signed msg pw data))"
  by (rule written_read [OF assms])

lemma message_round_trip_witness:
  "\<exists>data. stunEncodeMessage (replicate 64 0) sample_request sample_key = Inr data \<and>
    (\<forall>tail. stunParseMessage (data @ tail) (length data) = Inr (True, read_signed sample_request sample_key data))"
  by (rule message_round_trip [OF samples])

end
