(* ===== verification/ConnLimit.thy ===== *)
theory ConnLimit
  imports Common
begin

text \<open>
  \<open>DM_COM_ConnectionSecurity.c\<close>: the limit on the connection requests of the ACS, over HTTP and over
  STUN.  The array of the times of the last requests that were allowed is a list, newest first; what
  the engine answers about the two parameters of the limit is an argument: \<open>None\<close> when
  \<open>DM_ENG_GetParameterValues\<close> does not return 0.
\<close>

section \<open>The code\<close>

definition MAXCONNECTIONREQUESTARRAYSIZE :: nat where "MAXCONNECTIONREQUESTARRAYSIZE = 100"
definition DEFAULT_MAX_CONNECTIONREQUEST :: "32 word" where "DEFAULT_MAX_CONNECTIONREQUEST = 50"
definition DEFAULT_FREQ_CONNECTION_REQUEST :: "32 word" where "DEFAULT_FREQ_CONNECTION_REQUEST = 3600"

definition initConnectionFreqArray :: "int list" where
  "initConnectionFreqArray = replicate MAXCONNECTIONREQUESTARRAYSIZE 0"

definition newConnectionRequestAllowed :: "int \<Rightarrow> int list \<Rightarrow> int list" where
  "newConnectionRequestAllowed curtime arr = curtime # butlast arr"

text \<open>A value that is not a number leaves the variable as it was initialised.\<close>

definition uint_or_0 :: "cstr \<Rightarrow> 32 word" where
  "uint_or_0 v = (case DM_ENG_stringToUint v of None \<Rightarrow> 0 | Some n \<Rightarrow> n)"

definition connection_limits :: "(cstr \<times> cstr) option \<Rightarrow> 32 word \<times> 32 word" where
  "connection_limits values =
     (case values of
        None \<Rightarrow> (DEFAULT_MAX_CONNECTIONREQUEST, DEFAULT_FREQ_CONNECTION_REQUEST)
      | Some (v0, v1) \<Rightarrow>
          (if v0 = Null \<or> v1 = Null then (DEFAULT_MAX_CONNECTIONREQUEST, DEFAULT_FREQ_CONNECTION_REQUEST)
           else (if unat (uint_or_0 v0) \<ge> MAXCONNECTIONREQUESTARRAYSIZE then DEFAULT_MAX_CONNECTIONREQUEST
                 else uint_or_0 v0, uint_or_0 v1)))"

definition maxConnectionPerPeriodReached :: "(cstr \<times> cstr) option \<Rightarrow> int \<Rightarrow> int list \<Rightarrow> bool" where
  "maxConnectionPerPeriodReached values curtime arr =
     (let (maxConnectionRequest, periodConnectionRequest) = connection_limits values;
          number = length (filter (\<lambda>t. curtime - t < uint periodConnectionRequest) arr)
      in \<not> (number < unat maxConnectionRequest \<and> number \<noteq> MAXCONNECTIONREQUESTARRAYSIZE))"

text \<open>What both callers do with a request that comes at a time.\<close>

definition connection_request :: "(cstr \<times> cstr) option \<Rightarrow> int \<Rightarrow> int list \<Rightarrow> bool \<times> int list" where
  "connection_request values curtime arr =
     (if maxConnectionPerPeriodReached values curtime arr then (False, arr)
      else (True, newConnectionRequestAllowed curtime arr))"

section \<open>The limit is kept\<close>

text \<open>The requests allowed so far, newest first, and the array, after requests at some times.\<close>

fun requests_at :: "(cstr \<times> cstr) option \<Rightarrow> int list \<Rightarrow> int list \<times> int list" where
  "requests_at values [] = ([], initConnectionFreqArray)"
| "requests_at values (t # earlier) =
     (let (allowed, arr) = requests_at values earlier; (ok, arr') = connection_request values t arr
      in (if ok then t # allowed else allowed, arr'))"

definition in_period :: "int \<Rightarrow> int \<Rightarrow> int list \<Rightarrow> nat" where
  "in_period p now ts = length (filter (\<lambda>t. now - t < p) ts)"

lemma in_period_append: "in_period p now (a @ b) = in_period p now a + in_period p now b"
  by (simp add: in_period_def)

lemma in_period_le: "in_period p now ts \<le> length ts"
  by (simp add: in_period_def)

text \<open>Of times in descending order, those in the period come first.\<close>

lemma in_period_prefix:
  "sorted_wrt (\<ge>) ts \<Longrightarrow> in_period p now (take n ts) < n \<Longrightarrow> in_period p now ts = in_period p now (take n ts)"
proof (induction ts arbitrary: n)
  case (Cons t ts)
  show ?case
  proof (cases "now - t < p")
    case True
    with Cons.prems obtain k where "n = Suc k" by (cases n) auto
    with Cons True show ?thesis by (auto simp: in_period_def)
  next
    case False
    have "\<not> now - x < p" if "x \<in> set ts" for x
    proof -
      have "x \<le> t" using Cons.prems(1) that by simp
      with False show ?thesis by linarith
    qed
    then have "filter (\<lambda>t. now - t < p) ts = []" "filter (\<lambda>t. now - t < p) (take k ts) = []" for k
      by (auto simp: filter_empty_conv dest: in_set_takeD)
    with False show ?thesis by (cases n) (auto simp: in_period_def)
  qed
qed (simp add: in_period_def)

lemma requests_array:
  assumes "requests_at values ts = (allowed, arr)"
  shows "arr = take MAXCONNECTIONREQUESTARRAYSIZE (allowed @ replicate MAXCONNECTIONREQUESTARRAYSIZE 0)"
  using assms
proof (induction ts arbitrary: allowed arr)
  case Nil
  then show ?case by (auto simp: initConnectionFreqArray_def)
next
  case (Cons t ts)
  obtain a r where r: "requests_at values ts = (a, r)" by (cases "requests_at values ts")
  have "butlast (take 100 (a @ replicate 100 0)) = take 99 (a @ replicate 100 (0 :: int))"
    by (simp add: butlast_take del: take_append)
  then have "newConnectionRequestAllowed t r =
      take MAXCONNECTIONREQUESTARRAYSIZE ((t # a) @ replicate MAXCONNECTIONREQUESTARRAYSIZE 0)"
    using Cons.IH [OF r]
    by (simp add: newConnectionRequestAllowed_def MAXCONNECTIONREQUESTARRAYSIZE_def take_Cons' del: take_append)
  with Cons r show ?case
    by (auto simp: connection_request_def Let_def simp del: take_append split: if_splits)
qed

lemma requests_descending:
  assumes "sorted_wrt (\<ge>) ts" "requests_at values ts = (allowed, arr)"
  shows "sorted_wrt (\<ge>) allowed \<and> set allowed \<subseteq> set ts"
  using assms
proof (induction ts arbitrary: allowed arr)
  case (Cons t ts)
  obtain a r where r: "requests_at values ts = (a, r)" by (cases "requests_at values ts")
  with Cons show ?case by (fastforce simp: connection_request_def Let_def split: if_splits)
qed auto

lemma limit_small: "unat (fst (connection_limits values)) < MAXCONNECTIONREQUESTARRAYSIZE"
  by (auto simp: connection_limits_def MAXCONNECTIONREQUESTARRAYSIZE_def DEFAULT_MAX_CONNECTIONREQUEST_def
      split: option.split)

lemma in_period_later: "now \<le> later \<Longrightarrow> in_period p later ts \<le> in_period p now ts"
  unfolding in_period_def by (induction ts) auto

lemma allowed_few:
  assumes "sorted_wrt (\<ge>) allowed" "\<not> maxConnectionPerPeriodReached values now
      (take MAXCONNECTIONREQUESTARRAYSIZE (allowed @ replicate MAXCONNECTIONREQUESTARRAYSIZE 0))"
  shows "in_period (uint (snd (connection_limits values))) now allowed < unat (fst (connection_limits values))"
proof -
  let ?N = MAXCONNECTIONREQUESTARRAYSIZE
  let ?p = "uint (snd (connection_limits values))"
  let ?arr = "take ?N (allowed @ replicate ?N 0)"
  have few: "in_period ?p now ?arr < unat (fst (connection_limits values))"
    using assms(2) by (simp add: maxConnectionPerPeriodReached_def in_period_def Let_def split: prod.splits)
  have "?arr = take ?N allowed @ take (?N - length allowed) (replicate ?N 0)" by simp
  then have "in_period ?p now (take ?N allowed) \<le> in_period ?p now ?arr"
    by (simp only: in_period_append)
  with few have t: "in_period ?p now (take ?N allowed) < unat (fst (connection_limits values))" by linarith
  then have "in_period ?p now (take ?N allowed) < ?N" using limit_small [of "values"] by linarith
  from in_period_prefix [OF assms(1) this] t show ?thesis by simp
qed

lemma limit_kept:
  assumes "sorted_wrt (\<ge>) ts" "requests_at values ts = (allowed, arr)" "\<forall>t \<in> set ts. t \<le> now"
  shows "in_period (uint (snd (connection_limits values))) now allowed \<le> unat (fst (connection_limits values))"
  using assms
proof (induction ts arbitrary: allowed arr)
  case Nil
  then show ?case by (simp add: in_period_def)
next
  case (Cons t ts)
  obtain a r where r: "requests_at values ts = (a, r)" by (cases "requests_at values ts")
  have s: "sorted_wrt (\<ge>) ts" using Cons.prems(1) by simp
  note arr = requests_array [OF r]
  have d: "sorted_wrt (\<ge>) a" using requests_descending [OF s r] by simp
  show ?case
  proof (cases "maxConnectionPerPeriodReached values t r")
    case True
    then have "allowed = a" using Cons.prems(2) r by (auto simp: connection_request_def)
    then show ?thesis using Cons.IH [OF s r] Cons.prems(3) by simp
  next
    case False
    then have al: "allowed = t # a" using Cons.prems(2) r by (auto simp: connection_request_def)
    have "in_period (uint (snd (connection_limits values))) t a < unat (fst (connection_limits values))"
      using allowed_few [OF d] False arr by simp
    then show ?thesis
      using in_period_later [of t now "uint (snd (connection_limits values))" a] Cons.prems(3)
      by (simp add: al in_period_def)
  qed
qed

text \<open>
  of the connection requests that come at any times in order, never more are allowed within the
  period of the limit than its number says, although the array remembers only the last hundred.
\<close>

theorem connections_limited:
  assumes "sorted_wrt (\<ge>) ts" "requests_at values ts = (allowed, arr)" "\<forall>t \<in> set ts. t \<le> now"
  shows "in_period (uint (snd (connection_limits values))) now allowed \<le> unat (fst (connection_limits values))"
  by (rule limit_kept [OF assms])

lemma connections_limited_witness:
  "in_period 3600 2000000060 (fst (requests_at None [2000000050, 2000000000])) \<le> 50"
proof -
  obtain allowed arr where r: "requests_at None [2000000050, 2000000000] = (allowed, arr)"
    by (cases "requests_at None [2000000050, 2000000000]")
  have l: "connection_limits None = (50, 3600)"
    by (simp add: connection_limits_def DEFAULT_MAX_CONNECTIONREQUEST_def DEFAULT_FREQ_CONNECTION_REQUEST_def)
  have "in_period 3600 2000000060 allowed \<le> 50"
    using connections_limited [OF _ r, of 2000000060] by (simp add: l)
  then show ?thesis by (simp only: r fst_conv)
qed

end
