(* ===== verification/StunClient.thy ===== *)
theory StunClient
  imports Stun ConnLimit
begin

text \<open>
  \<open>dm_stun.c\<close>: the STUN client, as far as it does not call the engine.  The messages that it sends and
  what it makes of those it receives: the answers of the STUN server, and the connection requests
  that the ACS sends over UDP, signed with the connection request password.

  The environment is explicit: \<open>reception\<close> is what \<open>select\<close> and \<open>recvfrom\<close> bring, random numbers are
  arguments, and so is what the stack holds in the arrays that the code does not initialise
  (\<open>leftover\<close>).  \<open>ASSERT\<close> does nothing, as in a build without traces, the default; \<open>assert\<close> of the C
  library aborts.
\<close>

section \<open>Messages that are sent\<close>

datatype messageType = MESSAGE_UNKNOWN | NONE | BINDING_REQUEST | BINDING_CHANGE | MSG_INTEGRITY
  | TIMEOUT_DISCOVERY | BINDING_RESPONSE | BINDING_ERROR_RESPONSE | MSG_INTEGRITY_RESPONSE
  | TIMEOUT_RESPONSE | UDP_REQUEST

definition CONNECTION_REQUEST_BINDING_VALUE :: string where
  "CONNECTION_REQUEST_BINDING_VALUE = ''dslforum.org/TR-111 ''"

text \<open>\<open>strncpy\<close> and \<open>snprintf\<close> into the array of a string, with its length beside it.\<close>

definition string_of :: "string \<Rightarrow> StunAtrString" where
  "string_of s =
     (let v = bytes (take (STUN_MAX_STRING - 1) s)
      in \<lparr>s_value = v @ replicate (STUN_MAX_STRING - length v) 0, sizeValue = of_nat (length v)\<rparr>)"

definition no_key :: StunAtrString where
  "no_key = zero_string"

text \<open>\<open>htonl\<close> on the little endian machine.\<close>

definition htonl :: "u32 \<Rightarrow> u32" where
  "htonl w = from32 (rev (be32 w))"

definition random_octets :: "u32 list \<Rightarrow> byte list" where
  "random_octets rs = concat (map (\<lambda>r. rev (be32 r)) rs)"

text \<open>The attributes that make the agent known as a client for connection requests.\<close>

definition with_binding :: "StunAtrString \<Rightarrow> StunMessage \<Rightarrow> StunMessage" where
  "with_binding user m =
     m\<lparr>hasConnectionRequestBinding := True,
       connectionRequestBinding := string_of CONNECTION_REQUEST_BINDING_VALUE,
       hasUsername := True, username := user\<rparr>"

definition client_request ::
  "messageType \<Rightarrow> StunAtrString \<Rightarrow> StunAtrString \<Rightarrow> u32 \<Rightarrow> u16 \<Rightarrow> u32 list \<Rightarrow> StunMessage \<times> StunAtrString" where
  "client_request t user pw wanIp receptionPortWan rs =
     (let request = zero_message\<lparr>msgHdr := \<lparr>msgType = BindRequestMsg, msgLength = 0, octet = random_octets rs\<rparr>\<rparr>
      in case t of
           BINDING_REQUEST \<Rightarrow> (with_binding user request, no_key)
         | BINDING_CHANGE \<Rightarrow> ((with_binding user request)\<lparr>hasBindingChange := True\<rparr>, no_key)
         | MSG_INTEGRITY \<Rightarrow>
             ((with_binding user request)\<lparr>hasBindingChange := True, hasMessageIntegrity := True\<rparr>, pw)
         | TIMEOUT_DISCOVERY \<Rightarrow>
             (request\<lparr>hasResponseAddress := True,
                responseAddress := zero_address\<lparr>ipv4 := \<lparr>port = receptionPortWan, addr = htonl wanIp\<rparr>\<rparr>\<rparr>, no_key)
         | _ \<Rightarrow> (request, no_key))"

text \<open>The datagram that \<open>DM_STUN_sendMessage\<close> hands to \<open>sendMessage\<close>.\<close>

definition DM_STUN_sendMessage ::
  "byte list \<Rightarrow> messageType \<Rightarrow> StunAtrString \<Rightarrow> StunAtrString \<Rightarrow> u32 \<Rightarrow> u16 \<Rightarrow> u32 list \<Rightarrow> stun_fault + byte list" where
  "DM_STUN_sendMessage rubbish t user pw wanIp receptionPortWan rs =
     (let (request, key) = client_request t user pw wanIp receptionPortWan rs
      in stunEncodeMessage rubbish request key)"

section \<open>Signatures\<close>

definition upper_hex :: "nat \<Rightarrow> char" where
  "upper_hex d = (if d < 10 then char_of (48 + d) else char_of (55 + d))"

definition DM_STUN_hextoAscii :: "byte list \<Rightarrow> string" where
  "DM_STUN_hextoAscii hexaMsg =
     concat (map (\<lambda>b. [upper_hex (unat b div 16), upper_hex (unat b mod 16)]) hexaMsg)"

text \<open>\<open>strncasecmp(a, b, n) == 0\<close> where \<open>a\<close> has at least \<open>n\<close> characters; \<open>b\<close> is an array.\<close>

definition DM_STUN_isHmacIdentical :: "byte list \<Rightarrow> byte list \<Rightarrow> byte list \<Rightarrow> StunAtrString \<Rightarrow> stun_fault + bool" where
  "DM_STUN_isHmacIdentical rubbish signatureReceived msg pw =
     (case computeHmac rubbish msg pw of
        Inl e \<Rightarrow> Inl e
      | Inr generated \<Rightarrow>
          Inr (map lowcode (take HMAC_SIZE (DM_STUN_hextoAscii generated)) = map lowcode (chars signatureReceived)))"

section \<open>Connection requests over UDP\<close>

record udp_request =
  u_timeStamp :: u64
  u_messageId :: u64
  u_username :: "byte list"
  u_cnonce :: "byte list"
  u_signature :: "byte list"

datatype udp_fault = Outside | Endless

text \<open>
  The length of a parameter: the \<open>UInt8\<close> counter goes on until the next \<open>&\<close> and never stops when
  there is none within 256 bytes.
\<close>

definition param_length :: "byte list \<Rightarrow> udp_fault + nat" where
  "param_length rest =
     (let k = length (takeWhile (\<lambda>b. b \<noteq> byte_of (CHR ''&'')) rest)
      in if k < 256 \<and> k < length rest then Inr k
         else if length rest < 256 then Inl Outside else Inl Endless)"

text \<open>A number is copied into a buffer of 50 bytes filled with zeros and read with \<open>strtoull\<close>.\<close>

definition copied_number :: "byte list \<Rightarrow> nat \<Rightarrow> udp_fault + u64" where
  "copied_number rest k =
     (let s = chars (take k rest); s = takeWhile (\<lambda>c. c \<noteq> CHR 0x00) s
      in if k > 50 then Inl Outside
         else case strtoul s of
             None \<Rightarrow> Inr (- 1)
           | Some (v, r) \<Rightarrow> (if length s = 50 \<and> r = [] then Inl Outside else Inr (of_nat v)))"

text \<open>\<open>memcpy\<close> into an array of 256 bytes and the terminating 0.\<close>

definition copied_string :: "byte list \<Rightarrow> byte list \<Rightarrow> nat \<Rightarrow> byte list" where
  "copied_string arr rest k = (overwrite arr 0 (take k rest))[k := 0]"

fun starts :: "string \<Rightarrow> byte list \<Rightarrow> bool" where
  "starts s rest = (take (length s) rest = bytes s)"

text \<open>One position of the scan: the parameter found there and how far the index moves.\<close>

definition udp_param :: "byte list \<Rightarrow> udp_request \<Rightarrow> udp_fault + (nat \<times> bool \<times> udp_request)" where
  "udp_param rest u =
     (if starts ''?ts='' rest then
        (case param_length (drop 4 rest) of
           Inl e \<Rightarrow> Inl e
         | Inr k \<Rightarrow> (case copied_number (drop 4 rest) k of
               Inl e \<Rightarrow> Inl e | Inr v \<Rightarrow> Inr (4, True, u\<lparr>u_timeStamp := v\<rparr>)))
      else if starts ''&id='' rest then
        (case param_length (drop 4 rest) of
           Inl e \<Rightarrow> Inl e
         | Inr k \<Rightarrow> (case copied_number (drop 4 rest) k of
               Inl e \<Rightarrow> Inl e | Inr v \<Rightarrow> Inr (4, True, u\<lparr>u_messageId := v\<rparr>)))
      else if starts ''&un='' rest then
        (case param_length (drop 4 rest) of
           Inl e \<Rightarrow> Inl e
         | Inr k \<Rightarrow> Inr (4, True, u\<lparr>u_username := copied_string (u_username u) (drop 4 rest) k\<rparr>))
      else if starts ''&cn='' rest then
        (case param_length (drop 4 rest) of
           Inl e \<Rightarrow> Inl e
         | Inr k \<Rightarrow> Inr (4, True, u\<lparr>u_cnonce := copied_string (u_cnonce u) (drop 4 rest) k\<rparr>))
      else if starts ''&sig='' rest then
        (if length rest < 5 + HMAC_SIZE then Inl Outside
         else Inr (5, True, u\<lparr>u_signature := take HMAC_SIZE (drop 5 rest)\<rparr>))
      else Inr (0, False, u))"

text \<open>The loop over the message, which ends after five parameters.\<close>

function udp_scan :: "byte list \<Rightarrow> nat \<Rightarrow> nat \<Rightarrow> udp_request \<Rightarrow> udp_fault + udp_request" where
  "udp_scan message i found u =
     (if i < STUN_MAX_MESSAGE_SIZE \<and> found \<noteq> 5 then
        (case udp_param (drop i message) u of
           Inl e \<Rightarrow> Inl e
         | Inr (n, hit, u') \<Rightarrow> udp_scan message (i + n + 1) (if hit then found + 1 else found) u')
      else Inr u)"
  by pat_completeness auto
termination by (relation "measure (\<lambda>(_, i, _, _). STUN_MAX_MESSAGE_SIZE - i)") auto

declare udp_scan.simps [simp del]

text \<open>The result is true whether the five parameters have been found or not.\<close>

definition DM_STUN_extractUdpParameters :: "byte list \<Rightarrow> udp_request \<Rightarrow> udp_fault + (bool \<times> udp_request)" where
  "DM_STUN_extractUdpParameters message u =
     (case udp_scan message 0 0 u of Inl e \<Rightarrow> Inl e | Inr u' \<Rightarrow> Inr (True, u'))"

section \<open>Messages that are received\<close>

datatype reception = Timeout | ReceptionError | Datagram "byte list"

text \<open>\<open>getMessage\<close>: the datagram in a buffer that was filled with zeros.\<close>

definition getMessage :: "byte list \<Rightarrow> (byte list \<times> nat) option" where
  "getMessage d =
     (if d = [] \<or> length d + 1 \<ge> STUN_MAX_MESSAGE_SIZE then None
      else Some (d @ replicate (STUN_MAX_MESSAGE_SIZE - length d) 0, length d))"

definition c_string :: "byte list \<Rightarrow> string" where
  "c_string arr = takeWhile (\<lambda>c. c \<noteq> CHR 0x00) (chars arr)"

text \<open>\<open>%lld\<close> of an unsigned number of 64 bits.\<close>

definition lld :: "u64 \<Rightarrow> string" where
  "lld w = deci (sint w)"

definition signed_text :: "udp_request \<Rightarrow> string" where
  "signed_text u =
     take 527 (lld (u_timeStamp u) @ lld (u_messageId u) @ c_string (u_username u) @ c_string (u_cnonce u))"

record received =
  r_type :: messageType
  r_wanIp :: u32
  r_port :: u16
  r_messageId :: u64
  r_timeStamp :: u64

datatype client_fault = Stun stun_fault | Udp udp_fault

definition stun_type :: "StunMessage \<Rightarrow> messageType" where
  "stun_type m =
     (if hasMappedAddress m \<and> hasSourceAddress m \<and> hasChangedAddress m then
        (if hasReflectedFrom m then TIMEOUT_RESPONSE
         else if hasMessageIntegrity m then MSG_INTEGRITY_RESPONSE
         else BINDING_RESPONSE)
      else if hasErrorCode m then BINDING_ERROR_RESPONSE
      else MESSAGE_UNKNOWN)"

text \<open>
  A datagram that is a STUN message: the signature of a response is compared, but the result has no
  effect.  The signature is over all but the last 24 bytes of the message.
\<close>

definition read_stun :: "byte list \<Rightarrow> StunAtrString \<Rightarrow> byte list \<Rightarrow> nat \<Rightarrow> StunMessage \<Rightarrow> received \<Rightarrow> client_fault + received" where
  "read_stun rubbish pw msg msgLen m r =
     (let t = stun_type m;
          result = Inr (if hasMappedAddress m
            then r\<lparr>r_type := t, r_wanIp := htonl (addr (ipv4 (mappedAddress m))), r_port := port (ipv4 (mappedAddress m))\<rparr>
            else r\<lparr>r_type := t\<rparr>)
      in if t = MSG_INTEGRITY_RESPONSE then
           (case DM_STUN_isHmacIdentical rubbish (messageIntegrity m) (take (msgLen - 24) msg) pw of
              Inl e \<Rightarrow> Inl (Stun e) | Inr _ \<Rightarrow> result)
         else result)"

definition read_udp :: "byte list \<Rightarrow> string \<Rightarrow> StunAtrString \<Rightarrow> udp_request \<Rightarrow> byte list \<Rightarrow> received \<Rightarrow> client_fault + received" where
  "read_udp rubbish crUsername crPassword leftover msg r =
     (let s = c_string msg
      in if prefixb ''GET'' s \<and> strstrb s ''HTTP/1.1'' then
           (case DM_STUN_extractUdpParameters msg
               (leftover\<lparr>u_timeStamp := r_timeStamp r, u_messageId := r_messageId r\<rparr>) of
              Inl e \<Rightarrow> Inl (Udp e)
            | Inr (ok, u) \<Rightarrow>
                (let r' = r\<lparr>r_timeStamp := u_timeStamp u, r_messageId := u_messageId u\<rparr>
                 in if \<not> ok \<or> crUsername \<noteq> c_string (u_username u) then Inr (r'\<lparr>r_type := MESSAGE_UNKNOWN\<rparr>)
                    else case DM_STUN_isHmacIdentical rubbish (u_signature u) (bytes (signed_text u)) crPassword of
                        Inl e \<Rightarrow> Inl (Stun e)
                      | Inr same \<Rightarrow> Inr (r'\<lparr>r_type := if same then UDP_REQUEST else MESSAGE_UNKNOWN\<rparr>)))
         else Inr (r\<lparr>r_type := MESSAGE_UNKNOWN\<rparr>))"

definition DM_STUN_readMessage ::
  "byte list \<Rightarrow> string \<Rightarrow> StunAtrString \<Rightarrow> StunAtrString \<Rightarrow> udp_request \<Rightarrow> reception \<Rightarrow> received \<Rightarrow> client_fault + received" where
  "DM_STUN_readMessage rubbish crUsername crPassword pw leftover rec r =
     (case rec of
        Timeout \<Rightarrow> Inr (r\<lparr>r_type := NONE\<rparr>)
      | ReceptionError \<Rightarrow> Inr (r\<lparr>r_type := MESSAGE_UNKNOWN\<rparr>)
      | Datagram d \<Rightarrow>
          (case getMessage d of
             None \<Rightarrow> Inr (r\<lparr>r_type := MESSAGE_UNKNOWN\<rparr>)
           | Some (msg, msgLen) \<Rightarrow>
               (case stunParseMessage msg msgLen of
                  Inl e \<Rightarrow> Inl (Stun e)
                | Inr (ok, m) \<Rightarrow>
                    (if ok then read_stun rubbish pw msg msgLen m r
                     else read_udp rubbish crUsername crPassword leftover msg r))))"

end
