(* ===== verification/StunServer.thy ===== *)
theory StunServer
  imports Stun
begin

text \<open>
  The server side of \<open>dm_lib_stun.c\<close>: what the STUN server makes of one datagram
  (\<open>stunServerProcessMsg\<close>), with the credentials it makes up for a shared secret request.  The two
  static variables of the function are the record \<open>server\<close>; the time and the random number
  are arguments.  The output parameters are the record \<open>response\<close>; \<open>from\<close> is among them, for the
  function changes the port of the address it was given.
\<close>

record server =
  g_timeLastBinding :: int
  g_fromPort :: u16

record response =
  resp :: StunMessage
  from_addr :: StunAddress4
  destination :: StunAddress4
  hmacPassword :: StunAtrString

definition toHex :: "byte list \<Rightarrow> string" where
  "toHex buffer = concat (map (\<lambda>b. [hex_digit (unat b div 16), hex_digit (unat b mod 16)]) buffer)"

text \<open>\<open>%08x\<close>\<close>

definition hex8 :: "u32 \<Rightarrow> string" where
  "hex8 w = toHex (be32 w)"

text \<open>A string put into an array that was filled with zeros.\<close>

definition put_string :: "string \<Rightarrow> StunAtrString \<Rightarrow> StunAtrString" where
  "put_string s a =
     a\<lparr>s_value := (overwrite (s_value a) 0 (bytes s))[length s := 0], sizeValue := of_nat (length s)\<rparr>"

text \<open>\<open>time -= (time % 20 * 60)\<close>\<close>

definition stunCreateUserName ::
  "byte list \<Rightarrow> u64 \<Rightarrow> u32 \<Rightarrow> StunAddress4 \<Rightarrow> StunAtrString \<Rightarrow> stun_fault + StunAtrString" where
  "stunCreateUserName rubbish now rnd source user =
     (let t = now - now mod 20 * 60;
          buffer = hex8 (addr source) @ '':'' @ hex8 rnd @ '':'' @ hex8 (ucast t) @ '':''
      in case hmac_sha1 rubbish (bytes ''Jason'') (bytes buffer) of
           None \<Rightarrow> Inl Overflow
         | Some mac \<Rightarrow>
             (let s = buffer @ toHex mac
              in if length s + 1 \<ge> STUN_MAX_STRING \<or> length s mod 4 \<noteq> 0 then Inl Abort
                 else Inr (put_string s user)))"

definition stunCreatePassword :: "byte list \<Rightarrow> StunAtrString \<Rightarrow> StunAtrString \<Rightarrow> stun_fault + StunAtrString" where
  "stunCreatePassword rubbish user pw =
     (case hmac_sha1 rubbish (bytes ''1234'') (takeWhile (\<lambda>b. b \<noteq> 0) (s_value user)) of
        None \<Rightarrow> Inl Overflow
      | Some mac \<Rightarrow> Inr (put_string (toHex mac) pw))"

definition stunCreateErrorResponse :: "StunMessage \<Rightarrow> byte \<Rightarrow> byte \<Rightarrow> string \<Rightarrow> StunMessage" where
  "stunCreateErrorResponse r cl number msg =
     r\<lparr>msgHdr := (msgHdr r)\<lparr>msgType := BindErrorResponseMsg\<rparr>, hasErrorCode := True,
       errorCode := (errorCode r)\<lparr>errorClass := cl, e_number := number, sizeReason := of_nat (length msg),
         reason := (overwrite (reason (errorCode r)) 0 (bytes msg))[length msg := 0]\<rparr>\<rparr>"

definition stunCreateSharedSecretResponse ::
  "byte list \<Rightarrow> u64 \<Rightarrow> u32 \<Rightarrow> StunMessage \<Rightarrow> StunAddress4 \<Rightarrow> StunMessage \<Rightarrow> stun_fault + StunMessage" where
  "stunCreateSharedSecretResponse rubbish now rnd request source r =
     (let r = r\<lparr>msgHdr := (msgHdr r)\<lparr>msgType := SharedSecretResponseMsg, octet := octet (msgHdr request)\<rparr>,
            hasUsername := True\<rparr>
      in case stunCreateUserName rubbish now rnd source (username r) of
           Inl e \<Rightarrow> Inl e
         | Inr u \<Rightarrow>
             (case stunCreatePassword rubbish u (password r) of
                Inl e \<Rightarrow> Inl e
              | Inr p \<Rightarrow> Inr (r\<lparr>username := u, hasPassword := True, password := p\<rparr>)))"

text \<open>The end of the function: the addresses of the attributes that are present, and the header.\<close>

definition finish_response :: "StunMessage \<Rightarrow> StunAddress4 \<Rightarrow> response \<Rightarrow> response" where
  "finish_response req myAddr out =
     (let r = resp out;
          r = (if hasMappedAddress r then r\<lparr>mappedAddress := (mappedAddress r)\<lparr>ipv4 := from_addr out\<rparr>\<rparr> else r);
          r = (if hasSourceAddress r then r\<lparr>sourceAddress := (sourceAddress r)\<lparr>ipv4 := myAddr\<rparr>\<rparr> else r);
          r = (if hasChangedAddress r then r\<lparr>changedAddress := (changedAddress r)\<lparr>ipv4 := myAddr\<rparr>\<rparr> else r)
      in out\<lparr>resp := r\<lparr>msgHdr := (msgHdr r)\<lparr>msgType := BindResponseMsg, octet := octet (msgHdr req)\<rparr>\<rparr>\<rparr>)"

definition with_addresses :: "StunMessage \<Rightarrow> StunMessage" where
  "with_addresses r = r\<lparr>hasMappedAddress := True, hasSourceAddress := True, hasChangedAddress := True\<rparr>"

text \<open>A request to find out how long the NAT keeps a binding: the port moves when it has expired.\<close>

definition timeout_request :: "int \<Rightarrow> int \<Rightarrow> StunMessage \<Rightarrow> server \<Rightarrow> response \<Rightarrow> server \<times> response" where
  "timeout_request now natTimeSession req sv out =
     (let p = port (from_addr out);
          (sv, p) =
            (if g_fromPort sv \<noteq> p then (sv\<lparr>g_timeLastBinding := now, g_fromPort := p\<rparr>, p)
             else if now - g_timeLastBinding sv \<ge> natTimeSession then (sv, p + 1)
             else (sv\<lparr>g_timeLastBinding := now\<rparr>, p));
          f = (from_addr out)\<lparr>port := p\<rparr>;
          r = with_addresses (resp out)
      in (sv, out\<lparr>from_addr := f,
            resp := r\<lparr>hasReflectedFrom := True, reflectedFrom := (reflectedFrom r)\<lparr>ipv4 := f\<rparr>\<rparr>,
            destination := ipv4 (responseAddress req)\<rparr>))"

text \<open>
  The result: the return value, the new values of the static variables, and the outputs.
\<close>

definition stunServerProcessMsg ::
  "byte list \<Rightarrow> int \<Rightarrow> u32 \<Rightarrow> int \<Rightarrow> byte list \<Rightarrow> nat \<Rightarrow> StunAddress4 \<Rightarrow> server \<Rightarrow> response \<Rightarrow>
    stun_fault + (bool \<times> server \<times> response)" where
  "stunServerProcessMsg rubbish now rnd natTimeSession buf bufLen myAddr sv out =
     (let out = out\<lparr>resp := zero_message\<rparr>
      in case stunParseMessage buf bufLen of
           Inl e \<Rightarrow> Inl e
         | Inr (ok, req) \<Rightarrow>
             (if \<not> ok then Inr (False, sv, out)
              else if msgType (msgHdr req) = SharedSecretRequestMsg then
                (case stunCreateSharedSecretResponse rubbish (of_int now) rnd req (from_addr out) (resp out) of
                   Inl e \<Rightarrow> Inl e
                 | Inr r \<Rightarrow> Inr (True, sv, finish_response req myAddr (out\<lparr>resp := r\<rparr>)))
              else if msgType (msgHdr req) = BindRequestMsg then
                (if \<not> hasConnectionRequestBinding req then
                   (let (sv', out') = timeout_request now natTimeSession req sv out
                    in Inr (True, sv', finish_response req myAddr out'))
                 else
                   (let out = out\<lparr>destination := from_addr out\<rparr>
                    in if hasBindingChange req \<and> hasUsername req \<and> \<not> hasMessageIntegrity req then
                         Inr (True, sv, out\<lparr>resp := stunCreateErrorResponse (resp out) 4 1 ''Unauthorized''\<rparr>)
                       else if hasBindingChange req \<and> hasUsername req \<and> hasMessageIntegrity req then
                         Inr (True, sv, finish_response req myAddr
                           (out\<lparr>resp := (with_addresses (resp out))\<lparr>hasMessageIntegrity := True\<rparr>,
                                hmacPassword := put_string ''1234'' (hmacPassword out)\<rparr>))
                       else if hasUsername req then
                         Inr (True, sv, finish_response req myAddr (out\<lparr>resp := with_addresses (resp out)\<rparr>))
                       else Inr (True, sv, finish_response req myAddr out)))
              else Inr (False, sv, finish_response req myAddr out)))"

end
