(* ===== verification/StunClientProps.thy ===== *)
theory StunClientProps
  imports StunClient StunServer StunProps
begin

text \<open>
  What the STUN client promises: the dialogues of the client with the server of the library end
  with the address that the server has seen, a connection request over UDP is obeyed when it is
  signed with the password, and only then; and where it stops: a user name whose length
  is not a multiple of four, a request without the end of a parameter.
\<close>

section \<open>Requests of the client\<close>

lemma of_nat_mod_4: "n < 65536 \<Longrightarrow> (of_nat n :: u16) mod 4 = 0 \<longleftrightarrow> n mod 4 = 0"
  by (simp only: word_unat_eq_iff unat_mod unat_small) simp

lemma string_of_parts:
  assumes "length s < STUN_MAX_STRING"
  shows "length (s_value (string_of s)) = STUN_MAX_STRING" "unat (sizeValue (string_of s)) = length s"
    "sizeValue (string_of s) = of_nat (length s)" "take (length s) (s_value (string_of s)) = bytes s"
  using assms by (simp_all add: string_of_def Let_def unat_small STUN_MAX_STRING_def)

lemma string_of_sendable:
  "length s < STUN_MAX_STRING \<Longrightarrow> sendable_string (string_of s) \<longleftrightarrow> length s mod 4 = 0"
  using of_nat_mod_4 [of "length s"]
  by (simp add: sendable_string_def string_of_parts(1,3) unat_small STUN_MAX_STRING_def)

lemma binding_sendable: "sendable_string (string_of CONNECTION_REQUEST_BINDING_VALUE)"
  by (simp add: string_of_sendable CONNECTION_REQUEST_BINDING_VALUE_def STUN_MAX_STRING_def)

lemma no_key_usable: "usable_key no_key"
  by (simp add: usable_key_def no_key_def zero_string_def STUN_MAX_STRING_def)

lemma octets_length: "length rs = 4 \<Longrightarrow> length (random_octets rs) = 16"
  by (simp add: random_octets_def length_concat comp_def sum_list_triv)

text \<open>
  the client can only send its requests when the length of the user name is a multiple of
  four: with any other name \<open>assert\<close> stops the agent.
\<close>

theorem binding_request_needs_padding:
  assumes "length user < STUN_MAX_STRING" "length rubbish = 64" "length rs = 4"
  shows "if length user mod 4 = 0
    then \<exists>data. DM_STUN_sendMessage rubbish BINDING_REQUEST (string_of user) pw wanIp p rs = Inr data
    else DM_STUN_sendMessage rubbish BINDING_REQUEST (string_of user) pw wanIp p rs = Inl Abort"
proof -
  define m where "m = fst (client_request BINDING_REQUEST (string_of user) pw wanIp p rs)"
  have c: "client_request BINDING_REQUEST (string_of user) pw wanIp p rs = (m, no_key)"
    by (simp add: m_def client_request_def Let_def)
  show ?thesis
  proof (cases "length user mod 4 = 0")
    case True
    then have "sendable m" using string_of_sendable [OF assms(1)] binding_sendable octets_length [OF assms(3)]
      by (simp add: m_def client_request_def Let_def with_binding_def zero_message_def sendable_def)
    from encoded [OF this no_key_usable assms(2)] True show ?thesis
      by (simp add: DM_STUN_sendMessage_def c)
  next
    case False
    have f: "\<not> hasMappedAddress m" "\<not> hasResponseAddress m" "\<not> hasChangeRequest m" "\<not> hasSourceAddress m"
      "\<not> hasChangedAddress m" "hasUsername m" "username m = string_of user"
      by (simp_all add: m_def client_request_def Let_def with_binding_def zero_message_def)
    have "sizeValue (string_of user) mod 4 \<noteq> 0"
      using False of_nat_mod_4 [of "length user"] assms(1)
      by (simp add: string_of_parts(3) [OF assms(1)] STUN_MAX_STRING_def)
    then show ?thesis using False
      by (simp add: DM_STUN_sendMessage_def c stunEncodeMessage_def message_parts_def f encodeAtrString_def)
  qed
qed

lemma binding_request_needs_padding_witness:
  "(\<exists>data. DM_STUN_sendMessage (replicate 64 0) BINDING_REQUEST (string_of ''user'') no_key 0 0 [1, 2, 3, 4] = Inr data) \<and>
   DM_STUN_sendMessage (replicate 64 0) BINDING_REQUEST (string_of ''users'') no_key 0 0 [1, 2, 3, 4] = Inl Abort"
  using binding_request_needs_padding [of "''user''" "replicate 64 0" "[1, 2, 3, 4]" no_key 0 0]
    binding_request_needs_padding [of "''users''" "replicate 64 0" "[1, 2, 3, 4]" no_key 0 0]
  by (simp add: STUN_MAX_STRING_def)

section \<open>The dialogues\<close>

text \<open>One exchange: the request of the client, the answer of the server, what the client makes of it.\<close>

definition exchange ::
  "byte list \<Rightarrow> messageType \<Rightarrow> string \<Rightarrow> StunAtrString \<Rightarrow> u32 list \<Rightarrow> int \<Rightarrow> u32 \<Rightarrow> int \<Rightarrow> StunAddress4 \<Rightarrow>
    StunAddress4 \<Rightarrow> server \<Rightarrow> string \<Rightarrow> StunAtrString \<Rightarrow> udp_request \<Rightarrow> received \<Rightarrow> (client_fault + received) option" where
  "exchange rubbish t user pw rs now rnd session clientAddr serverAddr sv crUser crPassword leftover r =
     (case DM_STUN_sendMessage rubbish t (string_of user) pw 0 0 rs of
        Inl e \<Rightarrow> None
      | Inr req \<Rightarrow>
          (case getMessage req of
             None \<Rightarrow> None
           | Some (buf, n) \<Rightarrow>
               (case stunServerProcessMsg rubbish now rnd session buf n serverAddr sv
                   \<lparr>resp = zero_message, from_addr = clientAddr, destination = clientAddr, hmacPassword = zero_string\<rparr> of
                  Inl e \<Rightarrow> None
                | Inr (ok, _, out) \<Rightarrow>
                    (if \<not> ok then None
                     else case stunEncodeMessage rubbish (resp out) (hmacPassword out) of
                         Inl e \<Rightarrow> None
                       | Inr ans \<Rightarrow> Some (DM_STUN_readMessage rubbish crUser crPassword pw leftover (Datagram ans) r)))))"

lemma datagram:
  assumes "sendable m" "usable_key k" "length rubbish = 64" "stunEncodeMessage rubbish m k = Inr d"
  shows "getMessage d = Some (d @ replicate (STUN_MAX_MESSAGE_SIZE - length d) 0, length d)"
    "stunParseMessage (d @ replicate (STUN_MAX_MESSAGE_SIZE - length d) 0) (length d) = Inr (True, read_signed m k d)"
proof -
  have "length d \<le> 1439" using written_fits [OF assms(1-3)] assms(4) by auto
  moreover have p: "stunParseMessage (d @ tail) (length d) = Inr (True, read_signed m k d)" for tail
    using written_read [OF assms(1-3)] assms(4) by auto
  moreover have "d \<noteq> []" using p [of "[]"] by (auto simp: parse_message)
  ultimately show "getMessage d = Some (d @ replicate (STUN_MAX_MESSAGE_SIZE - length d) 0, length d)"
    by (simp add: getMessage_def STUN_MAX_MESSAGE_SIZE_def)
  show "stunParseMessage (d @ replicate (STUN_MAX_MESSAGE_SIZE - length d) 0) (length d) = Inr (True, read_signed m k d)"
    by (rule p)
qed

text \<open>The answer to a request that the parser reads as \<open>q\<close>, when it is one the server can send.\<close>

lemma exchange_answer:
  assumes "length rubbish = 64"
    and req: "client_request t (string_of user) pw 0 0 rs = (m, k)" "sendable m" "usable_key k"
    and srv: "\<And>d. stunParseMessage (d @ replicate (STUN_MAX_MESSAGE_SIZE - length d) 0) (length d) =
        Inr (True, read_signed m k d) \<Longrightarrow>
        \<exists>sv'. stunServerProcessMsg rubbish now rnd session (d @ replicate (STUN_MAX_MESSAGE_SIZE - length d) 0)
          (length d) serverAddr sv
          \<lparr>resp = zero_message, from_addr = clientAddr, destination = clientAddr, hmacPassword = zero_string\<rparr>
        = Inr (True, sv', \<lparr>resp = a, from_addr = f, destination = g, hmacPassword = k'\<rparr>)"
    and ans: "sendable a" "usable_key k'"
    and cl: "\<And>d buf n. length buf < 2 ^ 32 \<Longrightarrow> read_stun rubbish pw buf n (read_signed a k' d) r = result"
  shows "exchange rubbish t user pw rs now rnd session clientAddr serverAddr sv crUser crPassword leftover r = Some result"
proof -
  from written_fits [OF req(2,3) assms(1)] obtain d where d: "stunEncodeMessage rubbish m k = Inr d" by auto
  note dg = datagram [OF req(2,3) assms(1) d]
  from srv [OF dg(2)] obtain sv' where s: "stunServerProcessMsg rubbish now rnd session
      (d @ replicate (STUN_MAX_MESSAGE_SIZE - length d) 0) (length d) serverAddr sv
      \<lparr>resp = zero_message, from_addr = clientAddr, destination = clientAddr, hmacPassword = zero_string\<rparr>
      = Inr (True, sv', \<lparr>resp = a, from_addr = f, destination = g, hmacPassword = k'\<rparr>)" ..
  from written_fits [OF ans assms(1)] obtain e where e: "stunEncodeMessage rubbish a k' = Inr e" "length e \<le> 1439"
    by auto
  note eg = datagram [OF ans assms(1) e(1)]
  have "length (e @ replicate (STUN_MAX_MESSAGE_SIZE - length e) 0) < 2 ^ 32"
    using e(2) by (simp add: STUN_MAX_MESSAGE_SIZE_def)
  note cl' = cl [OF this]
  show ?thesis
    by (simp add: exchange_def DM_STUN_sendMessage_def req(1) d dg(1) s e(1) DM_STUN_readMessage_def eg cl')
qed

lemma flags:
  "msgHdr (read_signed m k d) = (msgHdr m)\<lparr>msgLength := of_nat (length d - 20)\<rparr>"
  "hasMappedAddress (read_signed m k d) = hasMappedAddress m"
  "mappedAddress (read_signed m k d) = read_address (hasMappedAddress m) (mappedAddress m)"
  "hasSourceAddress (read_signed m k d) = hasSourceAddress m"
  "hasChangedAddress (read_signed m k d) = hasChangedAddress m"
  "hasReflectedFrom (read_signed m k d) = hasReflectedFrom m"
  "hasErrorCode (read_signed m k d) = hasErrorCode m"
  "hasUsername (read_signed m k d) = hasUsername m"
  "hasConnectionRequestBinding (read_signed m k d) = hasConnectionRequestBinding m"
  "hasBindingChange (read_signed m k d) = hasBindingChange m"
  "hasMessageIntegrity (read_signed m k d) = (sizeValue k > 0)"
  by (simp_all add: read_signed_def read_back_def Let_def zero_message_def)

text \<open>The answer tells the client its address.\<close>

definition seen :: "messageType \<Rightarrow> StunAddress4 \<Rightarrow> received \<Rightarrow> received" where
  "seen t clientAddr r = r\<lparr>r_type := t, r_wanIp := htonl (addr clientAddr), r_port := port clientAddr\<rparr>"

text \<open>
  C36: a binding request is answered with the address that the server has seen, which the client
  reads as its address on the outside; a request that says that the address has changed is refused
  until it is signed, and the signed one is answered like the first.
\<close>

theorem binding_dialogue:
  assumes "length user < STUN_MAX_STRING" "length user mod 4 = 0" "length rs = 4" "length rubbish = 64"
    "usable_key pw" "sizeValue pw > 0"
  shows "exchange rubbish BINDING_REQUEST user pw rs now rnd session clientAddr serverAddr sv cu cp leftover r
      = Some (Inr (seen BINDING_RESPONSE clientAddr r)) \<and>
    exchange rubbish BINDING_CHANGE user pw rs now rnd session clientAddr serverAddr sv cu cp leftover r
      = Some (Inr (r\<lparr>r_type := BINDING_ERROR_RESPONSE\<rparr>)) \<and>
    exchange rubbish MSG_INTEGRITY user pw rs now rnd session clientAddr serverAddr sv cu cp leftover r
      = Some (Inr (seen MSG_INTEGRITY_RESPONSE clientAddr r))"
proof -
  let ?q = "\<lambda>t. fst (client_request t (string_of user) pw 0 0 rs)"
  have q: "sendable (?q BINDING_REQUEST)" "sendable (?q BINDING_CHANGE)" "sendable (?q MSG_INTEGRITY)"
    using string_of_sendable [OF assms(1)] assms(2) binding_sendable octets_length [OF assms(3)]
    by (simp_all add: client_request_def Let_def with_binding_def zero_message_def sendable_def)
  let ?r = "with_addresses zero_message"
  let ?a = "\<lparr>pad = 0, family = 0, ipv4 = clientAddr\<rparr>"
  let ?m = "\<lparr>pad = 0, family = 0, ipv4 = serverAddr\<rparr>"
  let ?h = "\<lparr>msgType = BindResponseMsg, msgLength = 0, octet = random_octets rs\<rparr>"
  let ?ok = "?r\<lparr>mappedAddress := ?a, sourceAddress := ?m, changedAddress := ?m, msgHdr := ?h\<rparr>"
  have s: "sendable ?ok" "sendable (?ok\<lparr>hasMessageIntegrity := True\<rparr>)"
    "sendable (stunCreateErrorResponse zero_message 4 1 ''Unauthorized'')"
    using octets_length [OF assms(3)]
    by (simp_all add: sendable_def with_addresses_def zero_message_def stunCreateErrorResponse_def
        zero_error_def STUN_MAX_STRING_def)
  have k: "usable_key zero_string" "usable_key (put_string ''1234'' zero_string)"
    by (simp_all add: usable_key_def put_string_def zero_string_def STUN_MAX_STRING_def)
  have 1: "exchange rubbish BINDING_REQUEST user pw rs now rnd session clientAddr serverAddr sv cu cp leftover r
      = Some (Inr (seen BINDING_RESPONSE clientAddr r))"
  proof (rule exchange_answer [OF assms(4) _ q(1) no_key_usable _ s(1) k(1)])
    fix d :: "byte list"
    assume "stunParseMessage (d @ replicate (STUN_MAX_MESSAGE_SIZE - length d) 0) (length d) =
      Inr (True, read_signed (?q BINDING_REQUEST) no_key d)"
    then show "\<exists>sv'. stunServerProcessMsg rubbish now rnd session
        (d @ replicate (STUN_MAX_MESSAGE_SIZE - length d) 0) (length d) serverAddr sv
        \<lparr>resp = zero_message, from_addr = clientAddr, destination = clientAddr, hmacPassword = zero_string\<rparr> =
      Inr (True, sv', \<lparr>resp = ?ok, from_addr = clientAddr, destination = clientAddr, hmacPassword = zero_string\<rparr>)"
      by (simp add: stunServerProcessMsg_def flags client_request_def with_binding_def finish_response_def
          with_addresses_def zero_message_def zero_address_def Let_def)
  qed (simp_all add: client_request_def Let_def read_stun_def stun_type_def flags with_addresses_def
      zero_message_def seen_def read_address_def zero_string_def)
  have 2: "exchange rubbish BINDING_CHANGE user pw rs now rnd session clientAddr serverAddr sv cu cp leftover r
      = Some (Inr (r\<lparr>r_type := BINDING_ERROR_RESPONSE\<rparr>))"
  proof (rule exchange_answer [OF assms(4) _ q(2) no_key_usable _ s(3) k(1)])
    fix d :: "byte list"
    assume "stunParseMessage (d @ replicate (STUN_MAX_MESSAGE_SIZE - length d) 0) (length d) =
      Inr (True, read_signed (?q BINDING_CHANGE) no_key d)"
    then show "\<exists>sv'. stunServerProcessMsg rubbish now rnd session
        (d @ replicate (STUN_MAX_MESSAGE_SIZE - length d) 0) (length d) serverAddr sv
        \<lparr>resp = zero_message, from_addr = clientAddr, destination = clientAddr, hmacPassword = zero_string\<rparr> =
      Inr (True, sv', \<lparr>resp = stunCreateErrorResponse zero_message 4 1 ''Unauthorized'', from_addr = clientAddr,
        destination = clientAddr, hmacPassword = zero_string\<rparr>)"
      by (simp add: stunServerProcessMsg_def flags client_request_def with_binding_def
          zero_message_def no_key_def zero_string_def Let_def)
  qed (simp_all add: client_request_def Let_def read_stun_def stun_type_def flags
      stunCreateErrorResponse_def zero_message_def)
  have 3: "exchange rubbish MSG_INTEGRITY user pw rs now rnd session clientAddr serverAddr sv cu cp leftover r
      = Some (Inr (seen MSG_INTEGRITY_RESPONSE clientAddr r))"
  proof (rule exchange_answer [OF assms(4) _ q(3) assms(5) _ s(2) k(2)])
    fix d :: "byte list"
    assume "stunParseMessage (d @ replicate (STUN_MAX_MESSAGE_SIZE - length d) 0) (length d) =
      Inr (True, read_signed (?q MSG_INTEGRITY) pw d)"
    then show "\<exists>sv'. stunServerProcessMsg rubbish now rnd session
        (d @ replicate (STUN_MAX_MESSAGE_SIZE - length d) 0) (length d) serverAddr sv
        \<lparr>resp = zero_message, from_addr = clientAddr, destination = clientAddr, hmacPassword = zero_string\<rparr> =
      Inr (True, sv', \<lparr>resp = ?ok\<lparr>hasMessageIntegrity := True\<rparr>, from_addr = clientAddr,
        destination = clientAddr, hmacPassword = put_string ''1234'' zero_string\<rparr>)"
      using assms(6)
      by (simp add: stunServerProcessMsg_def flags client_request_def with_binding_def finish_response_def
          with_addresses_def zero_message_def zero_address_def Let_def)
  next
    fix d buf :: "byte list" and n
    assume "length buf < 2 ^ 32"
    then have h: "computeHmac rubbish (take (n - 24) buf) pw = Inr (hmac_ref (key_of pw) (take (n - 24) buf))"
      by (intro compute_hmac [OF assms(5,4)]) simp
    show "read_stun rubbish pw buf n
        (read_signed (?ok\<lparr>hasMessageIntegrity := True\<rparr>) (put_string ''1234'' zero_string) d) r =
      Inr (seen MSG_INTEGRITY_RESPONSE clientAddr r)"
      by (simp add: read_stun_def stun_type_def flags h DM_STUN_isHmacIdentical_def with_addresses_def
          put_string_def zero_message_def seen_def read_address_def)
  qed (simp add: client_request_def Let_def)
  from 1 2 3 show ?thesis by simp
qed

lemma binding_dialogue_witness:
  "exchange (replicate 64 0) BINDING_REQUEST ''user'' (string_of ''secret'') [1, 2, 3, 4] 0 0 60
     \<lparr>port = 5000, addr = 0x0A000001\<rparr> \<lparr>port = 3478, addr = 0x0A000002\<rparr> \<lparr>g_timeLastBinding = 0, g_fromPort = 0\<rparr>
     ''cpe'' (string_of ''pw'') \<lparr>u_timeStamp = 0, u_messageId = 0, u_username = [], u_cnonce = [], u_signature = []\<rparr>
     \<lparr>r_type = NONE, r_wanIp = 0, r_port = 0, r_messageId = 0, r_timeStamp = 0\<rparr> =
   Some (Inr \<lparr>r_type = BINDING_RESPONSE, r_wanIp = 0x0100000A, r_port = 5000, r_messageId = 0, r_timeStamp = 0\<rparr>)"
proof -
  have k: "usable_key (string_of ''secret'')" "sizeValue (string_of ''secret'') > 0"
    by (simp_all add: usable_key_def string_of_def bytes_def Let_def STUN_MAX_STRING_def)
  show ?thesis
    using binding_dialogue [of "''user''" "[1, 2, 3, 4]" "replicate 64 0" "string_of ''secret''"
        0 0 60 "\<lparr>port = 5000, addr = 0x0A000001\<rparr>" "\<lparr>port = 3478, addr = 0x0A000002\<rparr>"
        "\<lparr>g_timeLastBinding = 0, g_fromPort = 0\<rparr>" "''cpe''" "string_of ''pw''"
        "\<lparr>u_timeStamp = 0, u_messageId = 0, u_username = [], u_cnonce = [], u_signature = []\<rparr>"
        "\<lparr>r_type = NONE, r_wanIp = 0, r_port = 0, r_messageId = 0, r_timeStamp = 0\<rparr>"] k
    by (simp add: STUN_MAX_STRING_def seen_def htonl_def be32_def)
qed

section \<open>Connection requests over UDP\<close>

lemma hmac_identical:
  assumes "usable_key pw" "length rubbish = 64" "length msg < 2 ^ 32"
  shows "DM_STUN_isHmacIdentical rubbish sig msg pw =
    Inr (map lowcode (take HMAC_SIZE (DM_STUN_hextoAscii (hmac_ref (key_of pw) msg))) = map lowcode (chars sig))"
  by (simp add: DM_STUN_isHmacIdentical_def compute_hmac [OF assms])

lemma signed_text_short: "length (bytes (signed_text u)) < 2 ^ 32"
  by (simp add: signed_text_def)

lemma bytes_append [simp]: "bytes (a @ b) = bytes a @ bytes b"
  by (simp add: bytes_def)

lemma bytes_inj [simp]: "bytes a = bytes b \<longleftrightarrow> a = b"
  by (metis chars_bytes)

lemma byte_of_inj [simp]: "byte_of a = byte_of b \<longleftrightarrow> a = b"
  by (metis char_at_byte_of)

text \<open>Text without the characters that the scan looks for.\<close>

definition passed :: "string \<Rightarrow> bool" where
  "passed s \<longleftrightarrow> CHR ''?'' \<notin> set s \<and> CHR ''&'' \<notin> set s \<and> CHR 0x00 \<notin> set s"

lemma starts_bytes: "starts k (bytes s @ r) \<longleftrightarrow> s = k" if "length s = length k"
  using that by simp

lemma pass_one: "c \<noteq> CHR ''?'' \<Longrightarrow> c \<noteq> CHR ''&'' \<Longrightarrow> udp_param (byte_of c # r) u = Inr (0, False, u)"
  by (simp add: udp_param_def bytes_def)

lemma scan_pass:
  assumes "m = pre @ bytes s @ r" "passed s" "length (pre @ bytes s) \<le> STUN_MAX_MESSAGE_SIZE" "f \<noteq> 5"
  shows "udp_scan m (length pre) f u = udp_scan m (length (pre @ bytes s)) f u"
  using assms
proof (induction s arbitrary: pre)
  case (Cons c s)
  have "udp_scan m (length pre) f u = udp_scan m (Suc (length pre)) f u"
    using Cons.prems pass_one [of c "bytes s @ r" u]
    by (subst udp_scan.simps) (auto simp: passed_def bytes_def)
  also have "\<dots> = udp_scan m (length ((pre @ [byte_of c]) @ bytes s)) f u"
    using Cons.IH [of "pre @ [byte_of c]"] Cons.prems by (simp add: passed_def bytes_def)
  finally show ?case by (simp add: bytes_def)
qed (simp add: bytes_def)

lemma scan_param:
  assumes "m = pre @ key @ bytes (c # s) @ r" "length key = 4" "passed (c # s)" "f < 4"
    "length (pre @ key @ bytes (c # s)) \<le> STUN_MAX_MESSAGE_SIZE"
    "udp_param (key @ bytes (c # s) @ r) u = Inr (4, True, u')"
  shows "udp_scan m (length pre) f u = udp_scan m (length (pre @ key @ bytes (c # s))) (f + 1) u'"
proof -
  have "udp_scan m (length pre) f u = udp_scan m (length (pre @ key @ [byte_of c])) (f + 1) u'"
    using assms(1,2,4,5,6) by (subst udp_scan.simps) (simp add: bytes_def add.commute)
  also have "\<dots> = udp_scan m (length ((pre @ key @ [byte_of c]) @ bytes s)) (f + 1) u'"
    using assms by (intro scan_pass) (simp_all add: passed_def bytes_def)
  finally show ?thesis by (simp add: bytes_def)
qed

lemma param_end:
  assumes "passed v" "length v < 256"
  shows "param_length (bytes v @ byte_of (CHR ''&'') # r) = Inr (length v)"
proof -
  have "takeWhile (\<lambda>b. b \<noteq> byte_of CHR ''&'') (bytes v @ byte_of CHR ''&'' # r) = bytes v"
    using assms(1) by (subst takeWhile_append2) (auto simp: passed_def bytes_def)
  then show ?thesis using assms(2) by (simp add: param_length_def Let_def)
qed

lemma number_end:
  assumes "n \<le> ULONG_MAX" "length (dec n) < 50"
  shows "copied_number (bytes (dec n) @ r) (length (dec n)) = Inr (of_nat n)"
proof -
  have t: "takeWhile (\<lambda>c. c \<noteq> CHR 0x00) (dec n) = dec n"
    by (auto simp: takeWhile_eq_all_conv dest!: dec_digits simp: isdigit_def)
  have "strtoul (dec n) = Some (n, [])" using strtoul_dec [of n "[]"] assms(1) by simp
  then show ?thesis using assms(2) by (simp add: copied_number_def Let_def t)
qed

text \<open>The connection request of the ACS, with anything behind the first twenty digits of the signature.\<close>

definition udp_text :: "string \<Rightarrow> nat \<Rightarrow> nat \<Rightarrow> string \<Rightarrow> string \<Rightarrow> string \<Rightarrow> string \<Rightarrow> string" where
  "udp_text host ts mid un cn sig rest =
     ''GET '' @ host @ ''?ts='' @ dec ts @ ''&id='' @ dec mid @ ''&un='' @ un @ ''&cn='' @ cn @ ''&sig='' @ sig @ rest"

definition request_ok :: "string \<Rightarrow> nat \<Rightarrow> nat \<Rightarrow> string \<Rightarrow> string \<Rightarrow> string \<Rightarrow> bool" where
  "request_ok host ts mid un cn rest \<longleftrightarrow>
     passed host \<and> passed un \<and> passed cn \<and> un \<noteq> [] \<and> cn \<noteq> [] \<and> ts < 2 ^ 63 \<and> mid < 2 ^ 63 \<and>
     length (dec ts @ dec mid @ un @ cn) \<le> 527 \<and> length un < 256 \<and> length cn < 256 \<and>
     strstrb rest ''HTTP/1.1'' \<and> CHR 0x00 \<notin> set rest \<and>
     length host + length rest \<le> 1400"

lemma dec_short: "n < 2 ^ 63 \<Longrightarrow> length (dec n) \<le> 19"
  by (rule length_dec_le) simp_all

lemma passed_dec: "passed (dec n)"
proof -
  have "c \<noteq> CHR ''?'' \<and> c \<noteq> CHR ''&'' \<and> c \<noteq> CHR 0x00" if "c \<in> set (dec n)" for c
    using dec_digits [OF that] by (auto simp: isdigit_def)
  then show ?thesis unfolding passed_def by blast
qed

lemma chars_append: "chars (a @ b) = chars a @ chars b" "chars (x # r) = char_at x # chars r"
  by (simp_all add: chars_def)

lemma char_at_0: "char_at 0 = CHR 0x00"
  using char_at_byte_of [of "CHR 0x00"] by (simp add: byte_of_def)

lemma takeWhile_nul: "CHR 0x00 \<notin> set s \<Longrightarrow> takeWhile (\<lambda>c. c \<noteq> CHR 0x00) (s @ CHR 0x00 # x) = s"
  by (subst takeWhile_append2) auto

lemma take_bytes_append: "take (length s) (bytes s @ r) = bytes s"
  by (simp add: bytes_def)

lemma copied_text:
  assumes "length arr = 256" "length s < 256" "CHR 0x00 \<notin> set s"
  shows "c_string (copied_string arr (bytes s @ r) (length s)) = s"
proof -
  have "(overwrite arr 0 (bytes s))[length s := 0] = bytes s @ 0 # drop (Suc (length s)) arr"
    using assms by (simp add: overwrite_def list_update_append Cons_nth_drop_Suc [symmetric])
  then show ?thesis
    using assms(3) by (simp add: copied_string_def c_string_def chars_append char_at_0 take_bytes_append takeWhile_nul)
qed

text \<open>The five parameters, found in this order.\<close>

definition found :: "udp_request \<Rightarrow> nat \<Rightarrow> nat \<Rightarrow> string \<Rightarrow> string \<Rightarrow> string \<Rightarrow> byte list \<Rightarrow> byte list \<Rightarrow> udp_request" where
  "found u ts mid un cn sig r1 r2 =
     u\<lparr>u_timeStamp := of_nat ts, u_messageId := of_nat mid,
       u_username := copied_string (u_username u) (bytes un @ r1) (length un),
       u_cnonce := copied_string (u_cnonce u) (bytes cn @ r2) (length cn), u_signature := bytes sig\<rparr>"

lemma udp_param_cases:
  "passed v \<Longrightarrow> length v < 256 \<Longrightarrow> udp_param (bytes ''&un='' @ bytes v @ byte_of (CHR ''&'') # r) u =
    Inr (4, True, u\<lparr>u_username := copied_string (u_username u) (bytes v @ byte_of (CHR ''&'') # r) (length v)\<rparr>)"
  "passed v \<Longrightarrow> length v < 256 \<Longrightarrow> udp_param (bytes ''&cn='' @ bytes v @ byte_of (CHR ''&'') # r) u =
    Inr (4, True, u\<lparr>u_cnonce := copied_string (u_cnonce u) (bytes v @ byte_of (CHR ''&'') # r) (length v)\<rparr>)"
  "n < 2 ^ 63 \<Longrightarrow> udp_param (bytes ''?ts='' @ bytes (dec n) @ byte_of (CHR ''&'') # r) u =
    Inr (4, True, u\<lparr>u_timeStamp := of_nat n\<rparr>)"
  "n < 2 ^ 63 \<Longrightarrow> udp_param (bytes ''&id='' @ bytes (dec n) @ byte_of (CHR ''&'') # r) u =
    Inr (4, True, u\<lparr>u_messageId := of_nat n\<rparr>)"
  "length sig = HMAC_SIZE \<Longrightarrow> udp_param (bytes ''&sig='' @ bytes sig @ r) u =
    Inr (5, True, u\<lparr>u_signature := bytes sig\<rparr>)"
proof -
  have b4: "take 4 (bytes [a, b, c, d] @ r) = bytes [a, b, c, d]" "drop 4 (bytes [a, b, c, d] @ r) = r"
    "drop 5 (bytes [a, b, c, d, e] @ r) = r" "take 5 (bytes [a, b, c, d, e] @ r) = bytes [a, b, c, d, e]"
    "take 4 (bytes [a, b, c, d, e] @ r) = bytes [a, b, c, d]" for a b c d e r
    by (simp_all add: bytes_def)
  have n: "copied_number (bytes (dec n) @ r) (length (dec n)) = Inr (of_nat n)"
    "param_length (bytes (dec n) @ byte_of (CHR ''&'') # r) = Inr (length (dec n))" if "n < 2 ^ 63" for n r
    using that dec_short [OF that] param_end [OF passed_dec, of n r] number_end [of n r]
    by (simp_all add: ULONG_MAX_def)
  note S = udp_param_def starts.simps b4
  show "passed v \<Longrightarrow> length v < 256 \<Longrightarrow> udp_param (bytes ''&un='' @ bytes v @ byte_of (CHR ''&'') # r) u =
      Inr (4, True, u\<lparr>u_username := copied_string (u_username u) (bytes v @ byte_of (CHR ''&'') # r) (length v)\<rparr>)"
    by (simp add: S param_end)
  show "passed v \<Longrightarrow> length v < 256 \<Longrightarrow> udp_param (bytes ''&cn='' @ bytes v @ byte_of (CHR ''&'') # r) u =
      Inr (4, True, u\<lparr>u_cnonce := copied_string (u_cnonce u) (bytes v @ byte_of (CHR ''&'') # r) (length v)\<rparr>)"
    by (simp add: S param_end)
  show "n < 2 ^ 63 \<Longrightarrow> udp_param (bytes ''?ts='' @ bytes (dec n) @ byte_of (CHR ''&'') # r) u =
      Inr (4, True, u\<lparr>u_timeStamp := of_nat n\<rparr>)"
    by (simp add: S n)
  show "n < 2 ^ 63 \<Longrightarrow> udp_param (bytes ''&id='' @ bytes (dec n) @ byte_of (CHR ''&'') # r) u =
      Inr (4, True, u\<lparr>u_messageId := of_nat n\<rparr>)"
    by (simp add: S n)
  show "length sig = HMAC_SIZE \<Longrightarrow> udp_param (bytes ''&sig='' @ bytes sig @ r) u =
      Inr (5, True, u\<lparr>u_signature := bytes sig\<rparr>)"
    by (simp add: S HMAC_SIZE_def) (simp add: bytes_def)
qed

lemma scan_request:
  assumes "request_ok host ts mid un cn rest" "length sig = HMAC_SIZE"
    "m = bytes (udp_text host ts mid un cn sig rest) @ zeros"
  shows "\<exists>r1 r2. udp_scan m 0 0 u = Inr (found u ts mid un cn sig r1 r2)"
proof -
  define r4 where "r4 = bytes sig @ bytes rest @ zeros"
  define r3 where "r3 = bytes ''&sig='' @ r4"
  define r2 where "r2 = bytes ''&cn='' @ bytes cn @ r3"
  define r1 where "r1 = bytes ''&un='' @ bytes un @ r2"
  define r0 where "r0 = bytes ''&id='' @ bytes (dec mid) @ r1"
  define p0 where "p0 = bytes (''GET '' @ host)"
  define p1 where "p1 = p0 @ bytes ''?ts='' @ bytes (dec ts)"
  define p2 where "p2 = p1 @ bytes ''&id='' @ bytes (dec mid)"
  define p3 where "p3 = p2 @ bytes ''&un='' @ bytes un"
  define p4 where "p4 = p3 @ bytes ''&cn='' @ bytes cn"
  note ok = assms(1) [unfolded request_ok_def]
  have amp: "\<exists>r. r0 = byte_of CHR ''&'' # r" "\<exists>r. r1 = byte_of CHR ''&'' # r" "\<exists>r. r2 = byte_of CHR ''&'' # r"
    "\<exists>r. r3 = byte_of CHR ''&'' # r"
    by (simp_all add: r0_def r1_def r2_def r3_def bytes_def)
  have m: "m = p0 @ bytes ''?ts='' @ bytes (dec ts) @ r0" "m = p1 @ bytes ''&id='' @ bytes (dec mid) @ r1"
    "m = p2 @ bytes ''&un='' @ bytes un @ r2" "m = p3 @ bytes ''&cn='' @ bytes cn @ r3" "m = p4 @ bytes ''&sig='' @ r4"
    unfolding assms(3) udp_text_def p0_def p1_def p2_def p3_def p4_def r0_def r1_def r2_def r3_def r4_def
    by (simp_all only: bytes_append append_assoc)
  have len: "length p4 \<le> 2000"
    using ok dec_short [of ts] dec_short [of mid] by (simp add: p0_def p1_def p2_def p3_def p4_def)
  then have lens: "length p0 \<le> STUN_MAX_MESSAGE_SIZE" "length p1 \<le> STUN_MAX_MESSAGE_SIZE"
    "length p2 \<le> STUN_MAX_MESSAGE_SIZE" "length p3 \<le> STUN_MAX_MESSAGE_SIZE" "length p4 < STUN_MAX_MESSAGE_SIZE"
    by (simp_all add: p4_def p3_def p2_def p1_def STUN_MAX_MESSAGE_SIZE_def)
  obtain a b c d where first: "dec ts = fst a # snd a" "dec mid = fst b # snd b" "un = fst c # snd c" "cn = fst d # snd d"
    using ok dec_nonempty [of ts] dec_nonempty [of mid]
    by (metis fst_conv neq_Nil_conv snd_conv)
  define u1 where "u1 = u\<lparr>u_timeStamp := of_nat ts\<rparr>"
  define u2 where "u2 = u1\<lparr>u_messageId := of_nat mid\<rparr>"
  define u3 where "u3 = u2\<lparr>u_username := copied_string (u_username u2) (bytes un @ r2) (length un)\<rparr>"
  define u4 where "u4 = u3\<lparr>u_cnonce := copied_string (u_cnonce u3) (bytes cn @ r3) (length cn)\<rparr>"
  have "udp_scan m 0 0 u = udp_scan m (length p0) 0 u"
    using scan_pass [of m "[]" "''GET '' @ host"] ok m(1) lens(1) by (simp add: p0_def passed_def)
  also have "\<dots> = udp_scan m (length p1) 1 u1"
    using scan_param [of m p0 "bytes ''?ts=''" "fst a" "snd a" r0 0 u u1] m(1) lens(2) passed_dec [of ts] ok amp(1)
      udp_param_cases(3) [of ts _ u]
    by (auto simp: first(1) [symmetric] p1_def u1_def)
  also have "\<dots> = udp_scan m (length p2) 2 u2"
    using scan_param [of m p1 "bytes ''&id=''" "fst b" "snd b" r1 1 u1 u2] m(2) lens(3) passed_dec [of mid] ok amp(2)
      udp_param_cases(4) [of mid _ u1]
    by (auto simp: first(2) [symmetric] p2_def u2_def numeral_2_eq_2)
  also have "\<dots> = udp_scan m (length p3) 3 u3"
    using scan_param [of m p2 "bytes ''&un=''" "fst c" "snd c" r2 2 u2 u3] m(3) lens(4) ok amp(3)
      udp_param_cases(1) [of un _ u2]
    by (auto simp: first(3) [symmetric] p3_def u3_def numeral_2_eq_2 numeral_3_eq_3)
  also have "\<dots> = udp_scan m (length p4) 4 u4"
    using scan_param [of m p3 "bytes ''&cn=''" "fst d" "snd d" r3 3 u3 u4] m(4) lens(5) ok amp(4)
      udp_param_cases(2) [of cn _ u3]
    by (auto simp: first(4) [symmetric] p4_def u4_def)
  also have "\<dots> = Inr (u4\<lparr>u_signature := bytes sig\<rparr>)"
    using m(5) lens(5) udp_param_cases(5) [OF assms(2), of "bytes rest @ zeros" u4]
    by (subst udp_scan.simps) (simp add: r4_def, simp add: udp_scan.simps)
  also have "u4\<lparr>u_signature := bytes sig\<rparr> = found u ts mid un cn sig r2 r3"
    by (simp add: found_def u4_def u3_def u2_def u1_def)
  finally show ?thesis by blast
qed

lemma upper_hex_nonzero: "d < 16 \<Longrightarrow> upper_hex d \<noteq> CHR 0x00"
proof -
  assume d: "d < 16"
  then have "code (upper_hex d) \<noteq> 0" by (auto simp: upper_hex_def)
  then show ?thesis by auto
qed

lemma hex_text:
  "CHR 0x00 \<notin> set (DM_STUN_hextoAscii h)" "length (DM_STUN_hextoAscii h) = 2 * length h"
proof -
  have "unat b div 16 < 16" for b :: byte
    using unsigned_less [of b, where ?'a = nat] by (simp add: less_mult_imp_div_less)
  then have "CHR 0x00 \<noteq> upper_hex (unat b div 16)" "CHR 0x00 \<noteq> upper_hex (unat b mod 16)" for b :: byte
    using upper_hex_nonzero [of "unat b div 16"] upper_hex_nonzero [of "unat b mod 16"] by auto
  then show "CHR 0x00 \<notin> set (DM_STUN_hextoAscii h)" by (auto simp: DM_STUN_hextoAscii_def)
  show "length (DM_STUN_hextoAscii h) = 2 * length h"
    by (induction h) (simp_all add: DM_STUN_hextoAscii_def)
qed

lemma lld_nat: "n < 2 ^ 63 \<Longrightarrow> lld (of_nat n) = dec n"
  by (simp add: lld_def deci_def signed_of_nat signed_take_bit_int_eq_self)

text \<open>The signature that the ACS computes.\<close>

definition acs_signature :: "StunAtrString \<Rightarrow> nat \<Rightarrow> nat \<Rightarrow> string \<Rightarrow> string \<Rightarrow> string" where
  "acs_signature cp ts mid un cn =
     DM_STUN_hextoAscii (hmac_ref (key_of cp) (bytes (dec ts @ dec mid @ un @ cn)))"

lemma udp_text_c:
  assumes "request_ok host ts mid un cn rest" "CHR 0x00 \<notin> set sig"
  shows "c_string (bytes (udp_text host ts mid un cn sig rest) @ replicate (Suc n) 0) = udp_text host ts mid un cn sig rest"
proof -
  have "CHR 0x00 \<notin> set (udp_text host ts mid un cn sig rest)"
    using assms passed_dec [of ts] passed_dec [of mid] by (auto simp: udp_text_def request_ok_def passed_def)
  then show ?thesis by (simp add: c_string_def chars_append char_at_0 takeWhile_nul)
qed

lemma udp_text_length:
  assumes "request_ok host ts mid un cn rest" "length sig = HMAC_SIZE"
  shows "length (udp_text host ts mid un cn sig rest) + 1 < STUN_MAX_MESSAGE_SIZE"
    "udp_text host ts mid un cn sig rest \<noteq> []"
  using assms by (simp_all add: udp_text_def request_ok_def HMAC_SIZE_def STUN_MAX_MESSAGE_SIZE_def)

lemma udp_not_stun:
  assumes "length d + 1 < STUN_MAX_MESSAGE_SIZE" "d = bytes (''GET '' @ s)"
  shows "\<exists>m. stunParseMessage (d @ z) (length d) = Inr (False, m)"
proof -
  have "from16 (drop 2 (d @ z)) = 21536" by (simp add: assms(2) bytes_def byte_of_def)
  then have "unat (from16 (drop 2 (d @ z))) = 21536" by simp
  then show ?thesis using assms(1) by (auto simp: parse_message STUN_MAX_MESSAGE_SIZE_def)
qed

lemma strstrb_append: "strstrb b t \<Longrightarrow> strstrb (a @ b) t"
  by (induction a) simp_all

lemma request_accepted:
  assumes "request_ok host ts mid un cn rest" "usable_key cp" "length rubbish = 64"
    "length (u_username leftover) = 256" "length (u_cnonce leftover) = 256"
  shows "DM_STUN_readMessage rubbish un cp pw leftover
     (Datagram (bytes (udp_text host ts mid un cn (take HMAC_SIZE (acs_signature cp ts mid un cn)) rest))) r =
   Inr (r\<lparr>r_timeStamp := of_nat ts, r_messageId := of_nat mid, r_type := UDP_REQUEST\<rparr>)"
proof -
  define sig where "sig = take HMAC_SIZE (acs_signature cp ts mid un cn)"
  define t where "t = udp_text host ts mid un cn sig rest"
  define z :: "byte list" where "z = replicate (STUN_MAX_MESSAGE_SIZE - length t) 0"
  note ok = assms(1) [unfolded request_ok_def]
  have sig: "length sig = HMAC_SIZE" "CHR 0x00 \<notin> set sig"
    using hex_text [of "hmac_ref (key_of cp) (bytes (dec ts @ dec mid @ un @ cn))"]
    by (auto simp: sig_def acs_signature_def hmac_ref_length HMAC_SIZE_def dest: in_set_takeD)
  have len: "length t + 1 < STUN_MAX_MESSAGE_SIZE" "t \<noteq> []"
    unfolding t_def by (rule udp_text_length [OF assms(1) sig(1)])+
  have get: "getMessage (bytes t) = Some (bytes t @ z, length t)"
    using len by (auto simp: getMessage_def z_def bytes_def)
  obtain m where stun: "stunParseMessage (bytes t @ z) (length t) = Inr (False, m)"
    using udp_not_stun [of "bytes t" _ z] len(1) by (force simp: t_def udp_text_def)
  have z: "z = replicate (Suc (STUN_MAX_MESSAGE_SIZE - length t - 1)) 0"
    using len(1) by (simp add: z_def Suc_diff_Suc)
  have c: "c_string (bytes t @ z) = t"
    unfolding t_def by (subst z) (rule udp_text_c [OF assms(1) sig(2), unfolded t_def])
  have http: "strstrb t ''HTTP/1.1''" "prefixb ''GET'' t"
    unfolding t_def udp_text_def using ok by (intro strstrb_append, simp) simp
  define u0 where "u0 = leftover\<lparr>u_timeStamp := r_timeStamp r, u_messageId := r_messageId r\<rparr>"
  obtain r1 r2 where scan: "udp_scan (bytes t @ z) 0 0 u0 = Inr (found u0 ts mid un cn sig r1 r2)"
    using scan_request [OF assms(1) sig(1) refl] unfolding t_def by blast
  define u where "u = found u0 ts mid un cn sig r1 r2"
  have u: "u_timeStamp u = of_nat ts" "u_messageId u = of_nat mid" "u_signature u = bytes sig"
    by (simp_all add: u_def found_def)
  have names: "c_string (u_username u) = un" "c_string (u_cnonce u) = cn"
    using assms(4,5) ok by (simp_all add: u_def found_def u0_def copied_text passed_def)
  have "signed_text u = dec ts @ dec mid @ un @ cn"
    using ok by (simp only: signed_text_def u names lld_nat take_all)
  then show ?thesis
    using hmac_identical [OF assms(2,3) signed_text_short, of "bytes sig" u] scan
    by (simp add: DM_STUN_readMessage_def get stun read_udp_def Let_def c http DM_STUN_extractUdpParameters_def
        names u u0_def [symmetric] u_def [symmetric] sig_def [symmetric] t_def [symmetric])
      (simp add: sig_def acs_signature_def)
qed

definition sample_leftover :: udp_request where
  "sample_leftover =
     \<lparr>u_timeStamp = 0, u_messageId = 0, u_username = replicate 256 7, u_cnonce = replicate 256 7, u_signature = []\<rparr>"

definition sample_received :: received where
  "sample_received = \<lparr>r_type = NONE, r_wanIp = 0, r_port = 0, r_messageId = 0, r_timeStamp = 0\<rparr>"

definition sample_datagram :: "byte list" where
  "sample_datagram = bytes (udp_text ''/'' 12 3 ''u'' ''c''
     (take HMAC_SIZE (acs_signature (string_of ''secret'') 12 3 ''u'' ''c'')) '' HTTP/1.1'')"

lemma sample_accepted:
  "request_ok ''/'' 12 3 ''u'' ''c'' '' HTTP/1.1''" "usable_key (string_of ''secret'')"
  "length (u_username sample_leftover) = 256" "length (u_cnonce sample_leftover) = 256"
  using dec_short [of 12] dec_short [of 3]
  by (simp_all add: request_ok_def passed_def sample_leftover_def usable_key_def string_of_parts(3) string_of_def
      Let_def put_string_def zero_string_def STUN_MAX_STRING_def)

text \<open>
  C37: the connection request that the ACS sends, signed with the password, is accepted whatever stands behind the
  first twenty of the forty digits of the signature: its time and its number are handed to the caller.
\<close>

theorem udp_request_accepted:
  assumes "request_ok host ts mid un cn rest" "usable_key cp" "length rubbish = 64"
    "length (u_username leftover) = 256" "length (u_cnonce leftover) = 256"
  shows "DM_STUN_readMessage rubbish un cp pw leftover
     (Datagram (bytes (udp_text host ts mid un cn (take HMAC_SIZE (acs_signature cp ts mid un cn)) rest))) r =
   Inr (r\<lparr>r_timeStamp := of_nat ts, r_messageId := of_nat mid, r_type := UDP_REQUEST\<rparr>)"
  by (rule request_accepted [OF assms])

lemma udp_request_accepted_witness:
  "DM_STUN_readMessage (replicate 64 0) ''u'' (string_of ''secret'') no_key sample_leftover (Datagram sample_datagram)
     sample_received = Inr (sample_received\<lparr>r_timeStamp := 12, r_messageId := 3, r_type := UDP_REQUEST\<rparr>)"
  using udp_request_accepted [OF sample_accepted(1,2) length_replicate sample_accepted(3,4), of 0 no_key sample_received]
  by (simp add: sample_datagram_def)

text \<open>
  C38: a datagram of a few bytes stops the agent: when nothing behind the first parameter is an ampersand,
  the counter of eight bits that looks for the end of the parameter never leaves its loop.
\<close>

theorem udp_request_endless:
  assumes "passed host" "CHR ''&'' \<notin> set s" "CHR 0x00 \<notin> set s" "strstrb s ''HTTP/1.1''"
    "length host + length s \<le> 1700"
  shows "DM_STUN_readMessage rubbish cu cp pw leftover (Datagram (bytes (''GET '' @ host @ ''?ts='' @ s))) r = Inl (Udp Endless)"
proof -
  define t where "t = ''GET '' @ host @ ''?ts='' @ s"
  define z :: "byte list" where "z = replicate (STUN_MAX_MESSAGE_SIZE - length t) 0"
  define p where "p = bytes (''GET '' @ host)"
  have len: "length t \<le> 1710" "t \<noteq> []" using assms(5) by (simp_all add: t_def)
  have get: "getMessage (bytes t) = Some (bytes t @ z, length t)"
    using len by (auto simp: getMessage_def z_def bytes_def STUN_MAX_MESSAGE_SIZE_def)
  obtain m where stun: "stunParseMessage (bytes t @ z) (length t) = Inr (False, m)"
    using udp_not_stun [of "bytes t" _ z] len(1) by (force simp: t_def STUN_MAX_MESSAGE_SIZE_def)
  have z: "z = replicate (Suc (STUN_MAX_MESSAGE_SIZE - length t - 1)) 0"
    unfolding z_def using len(1) by (intro arg_cong2 [of _ _ 0 0 replicate] refl) (simp add: STUN_MAX_MESSAGE_SIZE_def)
  have nul: "CHR 0x00 \<notin> set t" using assms(1,3) by (auto simp: t_def passed_def)
  have c: "c_string (bytes t @ z) = t"
    unfolding z using nul by (simp add: c_string_def chars_append char_at_0 takeWhile_nul)
  have http: "strstrb t ''HTTP/1.1''" "prefixb ''GET'' t"
    unfolding t_def using assms(4) by (intro strstrb_append, simp) simp
  have buf: "bytes t @ z = p @ bytes ''?ts='' @ bytes s @ z"
    unfolding t_def p_def by (simp only: bytes_append append_assoc)
  have short: "length p < STUN_MAX_MESSAGE_SIZE"
    using assms(5) by (simp add: p_def STUN_MAX_MESSAGE_SIZE_def)
  have amp: "byte_of CHR ''&'' \<noteq> 0" by (simp add: byte_of_def)
  have w: "takeWhile (\<lambda>b. b \<noteq> byte_of CHR ''&'') (bytes s @ z) = bytes s @ z"
    using assms(2) amp by (subst takeWhile_eq_all_conv) (auto simp: bytes_def z_def)
  have far: "256 \<le> length (bytes s @ z)"
    using len by (simp add: z_def STUN_MAX_MESSAGE_SIZE_def t_def)
  have "param_length (bytes s @ z) = Inl Endless"
    using far unfolding param_length_def w Let_def by simp
  then have "udp_param (bytes ''?ts='' @ bytes s @ z) u = Inl Endless" for u
    by (simp add: udp_param_def)
  then have "udp_scan (bytes t @ z) (length p) 0 u = Inl Endless" for u
    unfolding buf using short by (subst udp_scan.simps) simp
  then have "udp_scan (bytes t @ z) 0 0 u = Inl Endless" for u
    using scan_pass [of "bytes t @ z" "[]" "''GET '' @ host" "bytes ''?ts='' @ bytes s @ z" 0 u] assms(1) short
    by (simp add: buf p_def [symmetric] passed_def) (simp add: p_def)
  then show ?thesis unfolding t_def [symmetric]
    by (simp add: DM_STUN_readMessage_def get stun read_udp_def Let_def c http DM_STUN_extractUdpParameters_def)
qed

lemma udp_request_endless_witness:
  "DM_STUN_readMessage [] ''u'' no_key no_key sample_leftover (Datagram (bytes ''GET /?ts=1 HTTP/1.1'')) sample_received =
     Inl (Udp Endless)"
  using udp_request_endless [of "''/''" "''1 HTTP/1.1''" "[]" "''u''" no_key no_key sample_leftover sample_received]
  by (simp add: passed_def)

text \<open>
  C11: a datagram makes the client open a session with the ACS only when it names the connection request
  user and its signature is that of its time, its number and its names with the connection request
  password, as far as the first ten of its twenty bytes go.
\<close>

theorem udp_request_signed:
  assumes "DM_STUN_readMessage rubbish cu cp pw leftover rec r = Inr r'" "r_type r' = UDP_REQUEST"
    "usable_key cp" "length rubbish = 64"
  shows "\<exists>d u. rec = Datagram d \<and> c_string (u_username u) = cu \<and>
    r_timeStamp r' = u_timeStamp u \<and> r_messageId r' = u_messageId u \<and>
    DM_STUN_extractUdpParameters (d @ replicate (STUN_MAX_MESSAGE_SIZE - length d) 0)
      (leftover\<lparr>u_timeStamp := r_timeStamp r, u_messageId := r_messageId r\<rparr>) = Inr (True, u) \<and>
    map lowcode (chars (u_signature u)) =
      map lowcode (take HMAC_SIZE (DM_STUN_hextoAscii (hmac_ref (key_of cp) (bytes (signed_text u)))))"
proof -
  obtain d msg n m where d: "rec = Datagram d" "getMessage d = Some (msg, n)"
    and p: "stunParseMessage msg n = Inr (False, m)" "read_udp rubbish cu cp leftover msg r = Inr r'"
    using assms(1,2)
    by (auto simp: DM_STUN_readMessage_def read_stun_def stun_type_def Let_def
        split: reception.splits option.splits sum.splits if_splits)
  then have msg: "msg = d @ replicate (STUN_MAX_MESSAGE_SIZE - length d) 0"
    by (auto simp: getMessage_def split: if_splits)
  note id = hmac_identical [OF assms(3,4) signed_text_short]
  obtain u where u: "DM_STUN_extractUdpParameters msg
      (leftover\<lparr>u_timeStamp := r_timeStamp r, u_messageId := r_messageId r\<rparr>) = Inr (True, u)"
    using p(2) assms(2) by (auto simp: read_udp_def DM_STUN_extractUdpParameters_def Let_def split: if_splits sum.splits)
  from p(2) assms(2) have "c_string (u_username u) = cu" "r_timeStamp r' = u_timeStamp u"
    "r_messageId r' = u_messageId u" "map lowcode (chars (u_signature u)) =
      map lowcode (take HMAC_SIZE (DM_STUN_hextoAscii (hmac_ref (key_of cp) (bytes (signed_text u)))))"
    by (auto simp: read_udp_def u id Let_def split: if_splits)
  with u d(1) show ?thesis unfolding msg by blast
qed

lemma udp_request_signed_witness:
  "\<exists>u. c_string (u_username u) = ''u'' \<and> u_timeStamp u = 12 \<and> u_messageId u = 3 \<and>
     map lowcode (chars (u_signature u)) = map lowcode (take HMAC_SIZE
       (DM_STUN_hextoAscii (hmac_ref (key_of (string_of ''secret'')) (bytes (signed_text u)))))"
proof -
  have "DM_STUN_readMessage (replicate 64 0) ''u'' (string_of ''secret'') no_key sample_leftover (Datagram sample_datagram)
     sample_received = Inr (sample_received\<lparr>r_timeStamp := 12, r_messageId := 3, r_type := UDP_REQUEST\<rparr>)"
    using request_accepted [OF sample_accepted(1,2) length_replicate sample_accepted(3,4), of 0 no_key sample_received]
    by (simp add: sample_datagram_def)
  from udp_request_signed [OF this _ sample_accepted(2) length_replicate] show ?thesis by auto
qed

end
