(* ===== verification/Md5.thy ===== *)
theory Md5
  imports Blocks
begin

unbundle bit_operations_syntax

text \<open>
  \<open>md5.c\<close>: the MD5 that authenticates the connection requests of the ACS.  The sixty-four calls of
  the macro \<open>STEP\<close> in \<open>body\<close> are the table \<open>STEPS\<close>; the variables a to d are a list, and call \<open>i\<close>
  names them turned by \<open>i\<close> places.  \<open>md5_ref\<close> is the algorithm as RFC 1321 states it.
\<close>

section \<open>One block\<close>

definition F :: "u32 \<Rightarrow> u32 \<Rightarrow> u32 \<Rightarrow> u32" where "F x y z = z XOR (x AND (y XOR z))"
definition G :: "u32 \<Rightarrow> u32 \<Rightarrow> u32 \<Rightarrow> u32" where "G x y z = y XOR (z AND (x XOR y))"
definition H :: "u32 \<Rightarrow> u32 \<Rightarrow> u32 \<Rightarrow> u32" where "H x y z = (x XOR y) XOR z"
definition H2 :: "u32 \<Rightarrow> u32 \<Rightarrow> u32 \<Rightarrow> u32" where "H2 x y z = x XOR (y XOR z)"
definition I :: "u32 \<Rightarrow> u32 \<Rightarrow> u32 \<Rightarrow> u32" where "I x y z = y XOR (x OR NOT z)"

type_synonym md5_step = "(u32 \<Rightarrow> u32 \<Rightarrow> u32 \<Rightarrow> u32) \<times> nat \<times> u32 \<times> nat"

definition STEP :: "(u32 \<Rightarrow> u32 \<Rightarrow> u32 \<Rightarrow> u32) \<Rightarrow> u32 \<Rightarrow> u32 \<Rightarrow> u32 \<Rightarrow> u32 \<Rightarrow> u32 \<Rightarrow> u32 \<Rightarrow> nat \<Rightarrow> u32" where
  "STEP f a b c d x t s =
     (let a = a + (f b c d + x + t)
      in (push_bit s a OR drop_bit (32 - s) (a AND 0xffffffff)) + b)"

definition STEPS :: "md5_step list" where
  "STEPS =
    [(F, 0, 0xd76aa478, 7), (F, 1, 0xe8c7b756, 12), (F, 2, 0x242070db, 17), (F, 3, 0xc1bdceee, 22),
     (F, 4, 0xf57c0faf, 7), (F, 5, 0x4787c62a, 12), (F, 6, 0xa8304613, 17), (F, 7, 0xfd469501, 22),
     (F, 8, 0x698098d8, 7), (F, 9, 0x8b44f7af, 12), (F, 10, 0xffff5bb1, 17), (F, 11, 0x895cd7be, 22),
     (F, 12, 0x6b901122, 7), (F, 13, 0xfd987193, 12), (F, 14, 0xa679438e, 17), (F, 15, 0x49b40821, 22),
     (G, 1, 0xf61e2562, 5), (G, 6, 0xc040b340, 9), (G, 11, 0x265e5a51, 14), (G, 0, 0xe9b6c7aa, 20),
     (G, 5, 0xd62f105d, 5), (G, 10, 0x02441453, 9), (G, 15, 0xd8a1e681, 14), (G, 4, 0xe7d3fbc8, 20),
     (G, 9, 0x21e1cde6, 5), (G, 14, 0xc33707d6, 9), (G, 3, 0xf4d50d87, 14), (G, 8, 0x455a14ed, 20),
     (G, 13, 0xa9e3e905, 5), (G, 2, 0xfcefa3f8, 9), (G, 7, 0x676f02d9, 14), (G, 12, 0x8d2a4c8a, 20),
     (H, 5, 0xfffa3942, 4), (H2, 8, 0x8771f681, 11), (H, 11, 0x6d9d6122, 16), (H2, 14, 0xfde5380c, 23),
     (H, 1, 0xa4beea44, 4), (H2, 4, 0x4bdecfa9, 11), (H, 7, 0xf6bb4b60, 16), (H2, 10, 0xbebfbc70, 23),
     (H, 13, 0x289b7ec6, 4), (H2, 0, 0xeaa127fa, 11), (H, 3, 0xd4ef3085, 16), (H2, 6, 0x04881d05, 23),
     (H, 9, 0xd9d4d039, 4), (H2, 12, 0xe6db99e5, 11), (H, 15, 0x1fa27cf8, 16), (H2, 2, 0xc4ac5665, 23),
     (I, 0, 0xf4292244, 6), (I, 7, 0x432aff97, 10), (I, 14, 0xab9423a7, 15), (I, 5, 0xfc93a039, 21),
     (I, 12, 0x655b59c3, 6), (I, 3, 0x8f0ccc92, 10), (I, 10, 0xffeff47d, 15), (I, 1, 0x85845dd1, 21),
     (I, 8, 0x6fa87e4f, 6), (I, 15, 0xfe2ce6e0, 10), (I, 6, 0xa3014314, 15), (I, 13, 0x4e0811a1, 21),
     (I, 4, 0xf7537e82, 6), (I, 11, 0xbd3af235, 10), (I, 2, 0x2ad7d2bb, 15), (I, 9, 0xeb86d391, 21)]"

text \<open>The word of the block that \<open>SET\<close> and \<open>GET\<close> read, and the variable that call \<open>i\<close> passes at place \<open>k\<close>.\<close>

definition SET :: "byte list \<Rightarrow> nat \<Rightarrow> u32" where
  "SET ptr n = le32 (drop (n * 4) ptr)"

definition place :: "nat \<Rightarrow> nat \<Rightarrow> nat" where
  "place i k = (k + 3 * i) mod 4"

definition call_step :: "byte list \<Rightarrow> nat \<Rightarrow> u32 list \<Rightarrow> u32 list" where
  "call_step ptr i vs =
     (let (f, n, t, s) = STEPS ! i
      in vs[place i 0 := STEP f (vs ! place i 0) (vs ! place i 1) (vs ! place i 2) (vs ! place i 3) (SET ptr n) t s])"

text \<open>\<open>body\<close> is called with a positive multiple of 64.  The result is the state and the data that is left.\<close>

function body :: "u32 list \<Rightarrow> byte list \<Rightarrow> nat \<Rightarrow> u32 list \<times> byte list" where
  "body vs ptr n =
     (let vs' = map2 (+) (fold (call_step ptr) [0..<64] vs) vs; ptr' = drop 64 ptr
      in if n \<le> 64 then (vs', ptr') else body vs' ptr' (n - 64))"
  by pat_completeness auto
termination by (relation "measure (\<lambda>(_, _, n). n)") auto

declare body.simps [simp del]

section \<open>Messages in pieces\<close>

record MD5_CTX =
  m_lo :: u32
  m_hi :: u32
  m_abcd :: "u32 list"
  m_buffer :: "byte list"

text \<open>The context is on the stack: its buffer holds what was there.\<close>

definition MD5_Init :: "byte list \<Rightarrow> MD5_CTX" where
  "MD5_Init rubbish =
     \<lparr>m_lo = 0, m_hi = 0, m_abcd = [0x67452301, 0xefcdab89, 0x98badcfe, 0x10325476], m_buffer = rubbish\<rparr>"

text \<open>The data goes to the buffer, and to the state as blocks are complete.\<close>

definition update_data :: "u32 list \<Rightarrow> byte list \<Rightarrow> nat \<Rightarrow> byte list \<Rightarrow> u32 list \<times> byte list" where
  "update_data abcd buffer used data =
     (let available = 64 - used
      in if used \<noteq> 0 \<and> length data < available then (abcd, overwrite buffer used data)
         else
           (let (abcd, buffer, data) =
              (if used \<noteq> 0 then
                 (let buffer = overwrite buffer used (take available data)
                  in (fst (body abcd buffer 64), buffer, drop available data))
               else (abcd, buffer, data));
                (abcd, data) =
                  (if length data \<ge> 64 then body abcd data (length data - length data mod 64) else (abcd, data))
            in (abcd, overwrite buffer 0 data)))"

definition MD5_Update :: "MD5_CTX \<Rightarrow> byte list \<Rightarrow> MD5_CTX" where
  "MD5_Update ctx data =
     (let len = of_nat (length data) :: u64;
          lo = ucast ((ucast (m_lo ctx) + len) AND 0x1fffffff);
          hi = ucast (ucast (if lo < m_lo ctx then m_hi ctx + 1 else m_hi ctx) + drop_bit 29 len :: u64);
          (abcd, buffer) = update_data (m_abcd ctx) (m_buffer ctx) (unat (m_lo ctx AND 0x3f)) data
      in \<lparr>m_lo = lo, m_hi = hi, m_abcd = abcd, m_buffer = buffer\<rparr>)"

definition le_bytes :: "u32 \<Rightarrow> byte list" where
  "le_bytes w = [ucast w, ucast (drop_bit 8 w), ucast (drop_bit 16 w), ucast (drop_bit 24 w)]"

definition MD5_Final :: "MD5_CTX \<Rightarrow> byte list" where
  "MD5_Final ctx =
     (let used = unat (m_lo ctx AND 0x3f);
          buf = overwrite (m_buffer ctx) used [0x80];
          used = used + 1;
          available = 64 - used;
          (abcd, buf, used, available) =
            (if available < 8 then
               (let b = overwrite buf used (replicate available 0)
                in (fst (body (m_abcd ctx) b 64), b, 0, 64))
             else (m_abcd ctx, buf, used, available));
          buf = overwrite buf used (replicate (available - 8) 0);
          buf = overwrite buf 56 (le_bytes (push_bit 3 (m_lo ctx)) @ le_bytes (m_hi ctx))
      in concat (map le_bytes (fst (body abcd buf 64))))"

text \<open>\<open>sprintf\<close> of each byte with \<open>%02x\<close>.\<close>

definition getStringResult :: "byte list \<Rightarrow> string" where
  "getStringResult signature =
     concat (map (\<lambda>b. [hex_digit (unat b div 16), hex_digit (unat b mod 16)]) signature)"

definition md5 :: "byte list \<Rightarrow> string \<Rightarrow> string" where
  "md5 rubbish s = getStringResult (MD5_Final (MD5_Update (MD5_Init rubbish) (bytes s)))"

section \<open>The algorithm of the standard\<close>

definition rfc_f :: "nat \<Rightarrow> u32 \<Rightarrow> u32 \<Rightarrow> u32 \<Rightarrow> u32" where
  "rfc_f i x y z =
     (if i < 16 then (x AND y) OR (NOT x AND z)
      else if i < 32 then (x AND z) OR (y AND NOT z)
      else if i < 48 then x XOR y XOR z
      else y XOR (x OR NOT z))"

definition rfc_k :: "nat \<Rightarrow> nat" where
  "rfc_k i = (if i < 16 then i else if i < 32 then (5 * i + 1) mod 16 else if i < 48 then (3 * i + 5) mod 16
     else 7 * i mod 16)"

definition rfc_s :: "nat \<Rightarrow> nat" where
  "rfc_s i = ([[7, 12, 17, 22], [5, 9, 14, 20], [4, 11, 16, 23], [6, 10, 15, 21]] ! (i div 16)) ! (i mod 4)"

text \<open>The table of sines of the standard.\<close>

definition rfc_T :: "u32 list" where
  "rfc_T =
    [0xd76aa478, 0xe8c7b756, 0x242070db, 0xc1bdceee, 0xf57c0faf, 0x4787c62a, 0xa8304613, 0xfd469501,
     0x698098d8, 0x8b44f7af, 0xffff5bb1, 0x895cd7be, 0x6b901122, 0xfd987193, 0xa679438e, 0x49b40821,
     0xf61e2562, 0xc040b340, 0x265e5a51, 0xe9b6c7aa, 0xd62f105d, 0x02441453, 0xd8a1e681, 0xe7d3fbc8,
     0x21e1cde6, 0xc33707d6, 0xf4d50d87, 0x455a14ed, 0xa9e3e905, 0xfcefa3f8, 0x676f02d9, 0x8d2a4c8a,
     0xfffa3942, 0x8771f681, 0x6d9d6122, 0xfde5380c, 0xa4beea44, 0x4bdecfa9, 0xf6bb4b60, 0xbebfbc70,
     0x289b7ec6, 0xeaa127fa, 0xd4ef3085, 0x04881d05, 0xd9d4d039, 0xe6db99e5, 0x1fa27cf8, 0xc4ac5665,
     0xf4292244, 0x432aff97, 0xab9423a7, 0xfc93a039, 0x655b59c3, 0x8f0ccc92, 0xffeff47d, 0x85845dd1,
     0x6fa87e4f, 0xfe2ce6e0, 0xa3014314, 0x4e0811a1, 0xf7537e82, 0xbd3af235, 0x2ad7d2bb, 0xeb86d391]"

type_synonym four = "u32 \<times> u32 \<times> u32 \<times> u32"

fun rfc_round :: "byte list \<Rightarrow> nat \<Rightarrow> four \<Rightarrow> four" where
  "rfc_round block i (a, b, c, d) =
     (d, b + word_rotl (rfc_s i) (a + rfc_f i b c d + le32 (drop (4 * rfc_k i) block) + rfc_T ! i), b, c)"

fun rfc_block :: "four \<Rightarrow> byte list \<Rightarrow> four" where
  "rfc_block (a0, b0, c0, d0) block =
     (let (a, b, c, d) = fold (rfc_round block) [0..<64] (a0, b0, c0, d0)
      in (a0 + a, b0 + b, c0 + c, d0 + d))"

definition rfc_padded :: "byte list \<Rightarrow> byte list" where
  "rfc_padded m =
     m @ 0x80 # replicate ((119 - length m mod 64) mod 64) 0 @
     (let bits = of_nat (8 * length m) :: u64 in le_bytes (ucast bits) @ le_bytes (ucast (drop_bit 32 bits)))"

definition md5_ref :: "byte list \<Rightarrow> byte list" where
  "md5_ref m =
     (let (a, b, c, d) = blocks rfc_block (0x67452301, 0xefcdab89, 0x98badcfe, 0x10325476) (rfc_padded m)
      in le_bytes a @ le_bytes b @ le_bytes c @ le_bytes d)"

end
