(* ===== verification/Digest.thy ===== *)
theory Digest
  imports Common Md5
begin

text \<open>
  \<open>dm_com_digest.c\<close> and \<open>dm_com_utils.c\<close>: the digest authentication of the connection requests of the ACS.
  Strings are C strings without their terminating 0; the buffers of fixed size are a bound on
  their lengths, and going past it is the fault \<open>Overrun\<close>.  What the engine answers about
  the user name and the password is an argument, \<open>None\<close> when it does not answer.
\<close>

datatype digest_fault = NullString | Overrun

section \<open>Strings of the C library\<close>

fun strstr :: "string \<Rightarrow> string \<Rightarrow> string option" where
  "strstr [] t = (if t = [] then Some [] else None)"
| "strstr (c # s) t = (if prefixb t (c # s) then Some (c # s) else strstr s t)"

definition strchr :: "string \<Rightarrow> char \<Rightarrow> string option" where
  "strchr s c = (let r = dropWhile (\<lambda>x. x \<noteq> c) s in if r = [] then None else Some r)"

text \<open>A call of \<open>strtok\<close>: the token, and where the next call goes on.\<close>

definition strtok :: "char \<Rightarrow> string \<Rightarrow> (string \<times> string) option" where
  "strtok c s =
     (let s = dropWhile (\<lambda>x. x = c) s
      in if s = [] then None else Some (takeWhile (\<lambda>x. x \<noteq> c) s, tl (dropWhile (\<lambda>x. x \<noteq> c) s)))"

text \<open>
  A buffer filled by \<open>strncpy\<close> of the first string and \<open>strncat\<close> of the others, each with what is left of the
  size: the terminating 0 of \<open>strncat\<close> is written behind that.
\<close>

fun strncats :: "nat \<Rightarrow> string \<Rightarrow> string list \<Rightarrow> digest_fault + string" where
  "strncats n s [] = Inr s"
| "strncats n s (p # ps) =
     (let s' = s @ take (n - length s) p in if n \<le> length s' then Inl Overrun else strncats n s' ps)"

definition filled_buffer :: "nat \<Rightarrow> string \<Rightarrow> string list \<Rightarrow> digest_fault + string" where
  "filled_buffer n p ps = (if n \<le> length p then Inl Overrun else strncats n p ps)"

section \<open>Random strings\<close>

definition dico :: string where
  "dico = ''abcdefghijklmnopqrstuvwxyzABCDEFGHIJKLMNOPQRSTUVWXYZ1234567890''"

definition generateRandomString :: "nat list \<Rightarrow> string" where
  "generateRandomString rs = map (\<lambda>r. dico ! (r mod length dico)) rs"

definition NONCESIZE :: nat where "NONCESIZE = 34"
definition OPAQUESIZE :: nat where "OPAQUESIZE = 32"

definition quoted :: "string \<Rightarrow> string" where
  "quoted s = CHR 0x22 # s @ [CHR 0x22]"

definition requestDigestAuth :: "string \<Rightarrow> string \<Rightarrow> string" where
  "requestDigestAuth nonce opaque =
     ''HTTP/1.1 401 Unauthorized'' @ [CHR 0x0A] @ ''WWW-Authenticate: Digest'' @ [CHR 0x0A] @
     ''   realm='' @ quoted ''liveboxrealm'' @ '','' @ [CHR 0x0A] @ ''   qop='' @ quoted ''auth'' @ '','' @ [CHR 0x0A] @
     ''   nonce='' @ quoted nonce @ '','' @ [CHR 0x0A] @ ''   opaque='' @ quoted opaque @ [CHR 0x0A]"

section \<open>The fields of the header\<close>

definition AuthorizationToken :: string where "AuthorizationToken = ''Authorization:''"
definition DigestUsernameToken :: string where "DigestUsernameToken = ''Digest username=''"
definition realmToken :: string where "realmToken = ''realm=''"
definition nonceToken :: string where "nonceToken = ''nonce=''"
definition uriToken :: string where "uriToken = ''uri=''"
definition responseToken :: string where "responseToken = ''response=''"
definition opaqueToken :: string where "opaqueToken = ''opaque=''"
definition qopToken :: string where "qopToken = ''qop=''"
definition ncToken :: string where "ncToken = ''nc=''"
definition cnonceToken :: string where "cnonceToken = ''cnonce=''"

definition MAXTOKENSIZE :: nat where "MAXTOKENSIZE = 100"
definition HA1_MAXTOKENSIZE :: nat where "HA1_MAXTOKENSIZE = 3 * MAXTOKENSIZE"
definition HA2_MAXTOKENSIZE :: nat where "HA2_MAXTOKENSIZE = 2 * MAXTOKENSIZE"
definition TOTAL_MAXTOKENSIZE :: nat where "TOTAL_MAXTOKENSIZE = 6 * MAXTOKENSIZE"

definition checkDigestAuthMessageContent :: "string \<Rightarrow> bool" where
  "checkDigestAuthMessageContent s \<longleftrightarrow>
     strstrb s AuthorizationToken \<and> strstrb s DigestUsernameToken \<and> strstrb s realmToken \<and> strstrb s nonceToken \<and>
     strstrb s uriToken \<and> strstrb s responseToken \<and> strstrb s opaqueToken \<and> strstrb s qopToken \<and>
     strstrb s ncToken \<and> strstrb s cnonceToken"

text \<open>The characters between the first \<open>a\<close> and the next \<open>b\<close> behind it, fewer than \<open>MAXTOKENSIZE\<close>.\<close>

definition between :: "char \<Rightarrow> char \<Rightarrow> string option \<Rightarrow> digest_fault + string option" where
  "between a b s =
     (case s of
        None \<Rightarrow> Inl NullString
      | Some s \<Rightarrow>
          (case strchr s a of
             None \<Rightarrow> Inr None
           | Some f \<Rightarrow>
               (case strchr (tl f) b of
                  None \<Rightarrow> Inr None
                | Some e \<Rightarrow>
                    (let q = take (length (tl f) - length e) (tl f)
                     in if MAXTOKENSIZE \<le> length q then Inr None else Inr (Some q)))))"

definition getQuotedString :: "string option \<Rightarrow> digest_fault + string option" where
  "getQuotedString = between (CHR 0x22) (CHR 0x22)"

definition getNonQuotedString :: "string option \<Rightarrow> digest_fault + string option" where
  "getNonQuotedString = between (CHR ''='') (CHR '','')"

record digest_header =
  d_username :: string
  d_realm :: string
  d_nonce :: string
  d_uri :: string
  d_response :: string
  d_opaque :: string
  d_qop :: string
  d_nc :: string
  d_cnonce :: string

text \<open>A field that cannot be read ends the function.\<close>

fun field_then :: "digest_fault + string option \<Rightarrow> (string \<Rightarrow> digest_fault + 'a option) \<Rightarrow> digest_fault + 'a option" where
  "field_then (Inl e) k = Inl e"
| "field_then (Inr None) k = Inr None"
| "field_then (Inr (Some q)) k = k q"

definition getDigestMessageToken :: "string \<Rightarrow> digest_fault + digest_header option" where
  "getDigestMessageToken s =
     field_then (getQuotedString (strstr s DigestUsernameToken)) (\<lambda>username.
     field_then (getQuotedString (strstr s realmToken)) (\<lambda>realm.
     field_then (getQuotedString (strstr s nonceToken)) (\<lambda>nonce.
     field_then (getQuotedString (strstr s uriToken)) (\<lambda>uri.
     field_then (getQuotedString (strstr s responseToken)) (\<lambda>response.
     field_then (getQuotedString (strstr s opaqueToken)) (\<lambda>opaque.
     field_then (getNonQuotedString (strstr s qopToken)) (\<lambda>qop.
     field_then (getNonQuotedString (strstr s ncToken)) (\<lambda>nc.
     field_then (getQuotedString (strstr s cnonceToken)) (\<lambda>cnonce.
       Inr (Some \<lparr>d_username = username, d_realm = realm, d_nonce = nonce, d_uri = uri, d_response = response,
         d_opaque = opaque, d_qop = qop, d_nc = nc, d_cnonce = cnonce\<rparr>))))))))))"

section \<open>The response\<close>

text \<open>The three strings that are hashed; the bytes are those that the stack holds in the contexts.\<close>

definition expected_response ::
  "byte list \<Rightarrow> string \<Rightarrow> string \<Rightarrow> string \<Rightarrow> digest_header \<Rightarrow> digest_fault + string" where
  "expected_response rubbish s username password d =
     (case filled_buffer HA1_MAXTOKENSIZE username ['':'', d_realm d, '':'', password] of
        Inl e \<Rightarrow> Inl e
      | Inr ha1 \<Rightarrow>
          (case strtok (CHR '' '') s of
             None \<Rightarrow> Inl NullString
           | Some (verb, rest) \<Rightarrow>
               (case filled_buffer HA2_MAXTOKENSIZE verb ['':'', d_uri d] of
                  Inl e \<Rightarrow> Inl e
                | Inr ha2 \<Rightarrow>
                    (case filled_buffer TOTAL_MAXTOKENSIZE (md5 rubbish ha1)
                        ['':'', d_nonce d, '':'', d_nc d, '':'', d_cnonce d, '':'', d_qop d, '':'', md5 rubbish ha2] of
                       Inl e \<Rightarrow> Inl e
                     | Inr joined \<Rightarrow> Inr (md5 rubbish joined)))))"

definition performClientDigestAuthentication ::
  "byte list \<Rightarrow> string \<Rightarrow> string \<Rightarrow> (cstr \<times> cstr) option \<Rightarrow> string \<Rightarrow> digest_fault + bool" where
  "performClientDigestAuthentication rubbish nonce opaque credentials s =
     (case getDigestMessageToken s of
        Inl e \<Rightarrow> Inl e
      | Inr None \<Rightarrow> Inr False
      | Inr (Some d) \<Rightarrow>
          (if nonce \<noteq> d_nonce d \<or> opaque \<noteq> d_opaque d then Inr False
           else case credentials of
               None \<Rightarrow> Inr False
             | Some (u, p) \<Rightarrow>
                 (if u = Null \<or> p = Null then Inr False
                  else case expected_response rubbish s (ctext u) (ctext p) d of
                      Inl e \<Rightarrow> Inl e
                    | Inr response \<Rightarrow> Inr (response = d_response d))))"

end
