(* ===== verification/HttpServer.thy ===== *)
theory HttpServer
  imports Digest ConnLimit
begin

text \<open>
  \<open>DM_COM_HttpServerInterface.c\<close>: the HTTP server that waits for the connection requests of the ACS, as the
  computation of its loop for one connection.  The state is what it keeps from one connection to the
  next: the times of the requests it allowed, and the two random strings of the last
  challenge.  What \<open>recv\<close> brings, the answers of the engine, the time, the random numbers and whether
  a session is open are arguments.
\<close>

record http_server =
  h_freq :: "int list"
  h_nonce :: string
  h_opaque :: string

datatype http_answer = Closed | Challenge | Unavailable | Accepted

definition SIZE_HTTP_MSG :: nat where "SIZE_HTTP_MSG = 4096"
definition CONNECTION_REQUESTION_PROTOCOL :: string where "CONNECTION_REQUESTION_PROTOCOL = ''HTTP/1.1''"
definition CONNECTION_REQUESTION_METHOD :: string where "CONNECTION_REQUESTION_METHOD = ''GET''"

text \<open>The static strings are empty before the first challenge.\<close>

definition http_start :: http_server where
  "http_start = \<lparr>h_freq = initConnectionFreqArray, h_nonce = [], h_opaque = []\<rparr>"

definition checkHttpMessageContent :: "string \<Rightarrow> bool" where
  "checkHttpMessageContent s =
     (case strtok (CHR '' '') s of
        None \<Rightarrow> False
      | Some (pMethod, r) \<Rightarrow>
          (case strtok (CHR '' '') r of
             None \<Rightarrow> False
           | Some (pPath, r) \<Rightarrow>
               (case strtok (CHR 0x0D) r of
                  None \<Rightarrow> False
                | Some (pProtocol, r) \<Rightarrow>
                    pMethod = CONNECTION_REQUESTION_METHOD \<and> pProtocol = CONNECTION_REQUESTION_PROTOCOL)))"

text \<open>
  The data of \<open>recv\<close> fills at most the buffer, and is a string when a 0 is left in it.
\<close>

definition received_string :: "string \<Rightarrow> digest_fault + string" where
  "received_string d =
     (let s = takeWhile (\<lambda>c. c \<noteq> CHR 0x00) (take SIZE_HTTP_MSG d)
      in if length s < SIZE_HTTP_MSG then Inr s else Inl Overrun)"

record connection =
  k_received :: "string option"
  k_session :: bool
  k_time :: int
  k_limits :: "(cstr \<times> cstr) option"
  k_credentials :: "(cstr \<times> cstr) option"
  k_requested :: bool
  k_random :: "nat list \<times> nat list"

text \<open>What the server finds out about a message while no session is open.\<close>

definition authorized :: "byte list \<Rightarrow> http_server \<Rightarrow> connection \<Rightarrow> string \<Rightarrow> digest_fault + bool" where
  "authorized rubbish sv k d =
     (case received_string d of
        Inl e \<Rightarrow> Inl e
      | Inr s \<Rightarrow>
          (if \<not> checkDigestAuthMessageContent s then Inr False
           else case performClientDigestAuthentication rubbish (h_nonce sv) (h_opaque sv) (k_credentials k) s of
               Inl e \<Rightarrow> Inl e
             | Inr ok \<Rightarrow> Inr (ok \<and> checkHttpMessageContent s)))"

text \<open>\<open>_sendAuthenticationRequest\<close> keeps the strings of its challenge.\<close>

definition sendAuthenticationRequest :: "connection \<Rightarrow> http_server \<Rightarrow> http_server" where
  "sendAuthenticationRequest k sv =
     sv\<lparr>h_nonce := generateRandomString (take NONCESIZE (fst (k_random k))),
       h_opaque := generateRandomString (take OPAQUESIZE (snd (k_random k)))\<rparr>"

definition http_connection ::
  "byte list \<Rightarrow> http_server \<Rightarrow> connection \<Rightarrow> digest_fault + http_answer \<times> http_server" where
  "http_connection rubbish sv k =
     (if maxConnectionPerPeriodReached (k_limits k) (k_time k) (h_freq sv) then Inr (Unavailable, sv)
      else case k_received k of
          None \<Rightarrow> Inr (Closed, sv)
        | Some d \<Rightarrow>
            (if k_session k then Inr (Unavailable, sv)
             else case authorized rubbish sv k d of
                 Inl e \<Rightarrow> Inl e
               | Inr ok \<Rightarrow>
                   (if \<not> ok then Inr (Challenge, sendAuthenticationRequest k sv)
                    else if k_requested k
                      then Inr (Accepted, sv\<lparr>h_freq := newConnectionRequestAllowed (k_time k) (h_freq sv)\<rparr>)
                    else Inr (Unavailable, sv))))"

text \<open>The server through several connections, until a fault.\<close>

fun http_run :: "byte list \<Rightarrow> http_server \<Rightarrow> connection list \<Rightarrow> digest_fault + http_answer list \<times> http_server" where
  "http_run rubbish sv [] = Inr ([], sv)"
| "http_run rubbish sv (k # ks) =
     (case http_connection rubbish sv k of
        Inl e \<Rightarrow> Inl e
      | Inr (a, sv') \<Rightarrow>
          (case http_run rubbish sv' ks of Inl e \<Rightarrow> Inl e | Inr (answers, sv2) \<Rightarrow> Inr (a # answers, sv2)))"

end
