(* ===== verification/Md5Props.thy ===== *)
theory Md5Props
  imports Md5
begin

unbundle bit_operations_syntax

text \<open>
  The MD5 of the code is the function of RFC 1321, however the message is cut into pieces: the
  calls of \<open>STEP\<close> are the rounds of the standard with the variables turned, and the context holds the
  message given so far.
\<close>

section \<open>One block\<close>

definition md5_f :: "nat \<Rightarrow> u32 \<Rightarrow> u32 \<Rightarrow> u32 \<Rightarrow> u32" where
  "md5_f i = (if i < 16 then F else if i < 32 then G else if i < 48 then (if i mod 2 = 0 then H else H2) else I)"

lemma STEPS_table: "STEPS = map2 (\<lambda>i t. (md5_f i, rfc_k i, t, rfc_s i)) [0..<64] rfc_T"
  by (simp add: STEPS_def rfc_T_def upt_rec md5_f_def rfc_k_def rfc_s_def)

lemma STEPS_nth: "i < 64 \<Longrightarrow> STEPS ! i = (md5_f i, rfc_k i, rfc_T ! i, rfc_s i)"
  by (simp add: STEPS_table rfc_T_def)

lemma md5_f_rfc: "md5_f i x y z = rfc_f i x y z"
proof -
  have "z XOR (x AND (y XOR z)) = (x AND y) OR (NOT x AND z)" "y XOR (z AND (x XOR y)) = (x AND z) OR (y AND NOT z)"
    by (rule bit_word_eqI, auto simp: bit_simps)+
  then show ?thesis
    by (simp add: md5_f_def rfc_f_def F_def G_def H_def H2_def I_def ac_simps)
qed

lemma rfc_s_range:
  assumes "i < 64"
  shows "0 < rfc_s i \<and> rfc_s i < 32"
proof -
  have "i div 16 < 4" "i mod 4 < 4" using assms by auto
  then have "i div 16 = 0 \<or> i div 16 = 1 \<or> i div 16 = 2 \<or> i div 16 = 3"
    "i mod 4 = 0 \<or> i mod 4 = 1 \<or> i mod 4 = 2 \<or> i mod 4 = 3" by linarith+
  then show ?thesis by (elim disjE) (simp_all add: rfc_s_def)
qed

lemma all_ones: "(w :: u32) AND 0xffffffff = w"
proof -
  have "(0xffffffff :: u32) = -1" by simp
  then show ?thesis by (simp only: and.right_neutral)
qed

lemma STEP_rfc: "0 < s \<Longrightarrow> s < 32 \<Longrightarrow> STEP f a b c d x t s = b + word_rotl s (a + f b c d + x + t)"
  using rol_rotl [of s "a + f b c d + x + t"]
  by (simp only: STEP_def Let_def all_ones rol_def [symmetric]) (simp add: ac_simps)

fun four_list :: "four \<Rightarrow> u32 list" where
  "four_list (a, b, c, d) = [a, b, c, d]"

fun placed :: "nat \<Rightarrow> u32 list \<Rightarrow> four \<Rightarrow> bool" where
  "placed i vs (a, b, c, d) \<longleftrightarrow>
     length vs = 4 \<and> vs ! place i 0 = a \<and> vs ! place i 1 = b \<and> vs ! place i 2 = c \<and> vs ! place i 3 = d"

lemma length_four: "length vs = 4 \<Longrightarrow> \<exists>a b c d. vs = [a, b, c, d]"
  by (auto simp: length_Suc_conv numeral_eq_Suc)

lemma place_Suc: "place (Suc i) 0 = place i 3" "place (Suc i) (Suc 0) = place i 0" "place (Suc i) 2 = place i (Suc 0)"
  "place (Suc i) 3 = place i 2"
  by (simp_all add: place_def add.commute [of _ "3 * i"]) presburger+

lemma place_less: "place i k < 4"
  by (simp add: place_def)

lemma place_distinct: "place i 0 \<noteq> place i (Suc 0)" "place i 0 \<noteq> place i 2" "place i 0 \<noteq> place i 3"
  unfolding place_def by presburger+

lemma placed_step:
  assumes "placed i vs h" "i < 64"
  shows "placed (Suc i) (call_step ptr i vs) (rfc_round ptr i h)"
proof -
  obtain a b c d where h: "h = (a, b, c, d)" by (cases h)
  show ?thesis using assms place_distinct [of i] place_less [of i]
    by (simp add: h call_step_def STEPS_nth STEP_rfc rfc_s_range place_Suc md5_f_rfc SET_def mult.commute
        nth_list_update)
qed

lemma md5_rounds: "n \<le> 64 \<Longrightarrow> placed n (fold (call_step ptr) [0..<n] (four_list h)) (fold (rfc_round ptr) [0..<n] h)"
proof (induction n)
  case 0
  show ?case by (cases h) (simp add: place_def)
qed (simp add: placed_step)

lemma one_block:
  "map2 (+) (fold (call_step ptr) [0..<64] (four_list h)) (four_list h) = four_list (rfc_block h ptr)"
proof -
  obtain a b c d where r: "fold (rfc_round ptr) [0..<64] h = (a, b, c, d)"
    by (cases "fold (rfc_round ptr) [0..<64] h")
  obtain a0 b0 c0 d0 where h: "h = (a0, b0, c0, d0)" by (cases h)
  define vs where "vs = fold (call_step ptr) [0..<64] (four_list h)"
  have "placed 64 vs (a, b, c, d)" using md5_rounds [of 64 ptr h] r by (simp add: vs_def)
  then have vs: "vs = [a, b, c, d]" using length_four [of vs] by (auto simp: place_def)
  show ?thesis unfolding vs_def [symmetric] vs using r
    by (simp add: h add.commute)
qed

lemma rounds_take: "fold (rfc_round (take 64 p)) [0..<64] h = fold (rfc_round p) [0..<64] h"
proof -
  have w: "le32 (drop (4 * k) (take 64 p)) = le32 (drop (4 * k) p)" if "k < 16" for k
  proof -
    have "drop (4 * k) (take 64 p) = take (64 - 4 * k) (drop (4 * k) p)" by (simp add: drop_take)
    moreover have "le32 (take m q) = le32 q" if "4 \<le> m" for m q
      using that by (cases q rule: le32.cases) (simp_all add: take_Cons')
    ultimately show ?thesis using that by simp
  qed
  have "rfc_k i < 16" if "i < 64" for i using that by (simp add: rfc_k_def)
  then have "rfc_round (take 64 p) i x = rfc_round p i x" if "i < 64" for i x
    using w that by (cases x) simp
  then show ?thesis by (intro fold_cong) auto
qed

lemma rfc_block_take: "rfc_block h (take 64 p) = rfc_block h p"
  by (cases h) (simp only: rfc_block.simps rounds_take)

lemma body_blocks:
  assumes "64 \<le> length d"
  shows "body (four_list h) d (whole d) = (four_list (blocks rfc_block h d), drop (whole d) d)"
  using assms
proof (induction "length d" arbitrary: d h rule: less_induct)
  case less
  have w: "whole d = 64 + whole (drop 64 d)" using less(2) by (simp add: whole_def le_mod_geq)
  show ?case
  proof (cases "64 \<le> length (drop 64 d)")
    case True
    then have "0 < whole (drop 64 d)" by (simp add: whole_def less_le_trans [OF mod_less_divisor])
    then show ?thesis using less(1) [of "drop 64 d" "rfc_block h d"] True less(2)
      by (simp add: body.simps [of _ d] one_block w blocks_long [OF less(2)] rfc_block_take add.commute)
  next
    case False
    then have "whole (drop 64 d) = 0" by (simp add: whole_def)
    then show ?thesis using False less(2)
      by (simp add: body.simps one_block w blocks_long [OF less(2)] blocks_short rfc_block_take)
  qed
qed

lemma body_one: "length b = 64 \<Longrightarrow> fst (body (four_list h) b 64) = four_list (rfc_block h b)"
  by (simp add: body.simps one_block)

section \<open>Messages in pieces\<close>

abbreviation MD5_IV :: four where
  "MD5_IV \<equiv> (0x67452301, 0xefcdab89, 0x98badcfe, 0x10325476)"

text \<open>The context has been given the message \<open>m\<close>.\<close>

definition given :: "MD5_CTX \<Rightarrow> byte list \<Rightarrow> bool" where
  "given ctx m \<longleftrightarrow>
     (\<exists>h. m_abcd ctx = four_list h \<and> kept rfc_block MD5_IV h (m_buffer ctx) m) \<and>
     m_lo ctx = of_nat (length m mod 2 ^ 29) \<and> m_hi ctx = of_nat (length m div 2 ^ 29)"

lemma given_init: "length rubbish = 64 \<Longrightarrow> given (MD5_Init rubbish) []"
  using kept_init [of rubbish rfc_block MD5_IV]
  by (auto simp: given_def MD5_Init_def intro!: exI [of _ MD5_IV])

lemma mask_32: "x AND 0x3f = take_bit 6 (x :: u32)" "y AND 0x1fffffff = take_bit 29 (y :: u64)"
  by (simp_all add: take_bit_eq_mask mask_eq_exp_minus_1)

lemma given_used:
  assumes "given ctx m"
  shows "unat (m_lo ctx AND 0x3f) = length m mod 64"
proof -
  have "unat (m_lo ctx AND 0x3f) = take_bit 6 (unat (m_lo ctx))"
    unfolding mask_32 by (rule unsigned_take_bit_eq)
  also have "unat (m_lo ctx) = length m mod 2 ^ 29"
    using assms by (simp add: given_def unat_of_nat)
  finally show ?thesis by (simp add: take_bit_eq_mod mod_mod_cancel)
qed

lemma take_29: "take_bit 29 (of_nat n :: u64) = of_nat (n mod 2 ^ 29)"
proof -
  have "take_bit 29 (of_nat n :: u64) = of_nat (take_bit 29 n)" by (rule take_bit_of_nat)
  then show ?thesis by (simp add: take_bit_eq_mod)
qed

lemma ucast_32_64: "ucast (of_nat n :: u32) = (of_nat n :: u64)" if "n < 2 ^ 32"
  using that by (simp add: unsigned_of_nat take_bit_nat_eq_self)

lemma ucast_64_32: "ucast (of_nat n :: u64) = (of_nat n :: u32)"
  by (rule halves(2))

lemma given_lo:
  assumes "given ctx m"
  shows "m_lo (MD5_Update ctx d) = of_nat (length (m @ d) mod 2 ^ 29)"
proof -
  have "m_lo (MD5_Update ctx d) = ucast (take_bit 29 (ucast (m_lo ctx) + of_nat (length d) :: u64))"
    by (simp add: MD5_Update_def Let_def mask_32 split: prod.split)
  also have "ucast (m_lo ctx) = (of_nat (length m mod 2 ^ 29) :: u64)"
    using assms by (simp only: given_def) (rule ucast_32_64, rule less_trans [OF mod_less_divisor], simp_all)
  also have "of_nat (length m mod 2 ^ 29) + of_nat (length d) = (of_nat (length m mod 2 ^ 29 + length d) :: u64)"
    by simp
  finally show ?thesis
    by (simp only: take_29 ucast_64_32 mod_add_left_eq length_append)
qed

lemma lo_less:
  assumes "a < 2 ^ 32" "b < 2 ^ 32"
  shows "(of_nat a :: u32) < of_nat b \<longleftrightarrow> a < b"
  using assms by (simp add: word_less_nat_alt unat_of_nat)

lemma given_hi:
  assumes "given ctx m" "length d < 2 ^ 61"
  shows "m_hi (MD5_Update ctx d) = of_nat (length (m @ d) div 2 ^ 29)"
proof -
  define x where "x = length m"
  define n where "n = length d"
  have lo: "m_lo ctx = of_nat (x mod 2 ^ 29)" "m_lo (MD5_Update ctx d) = of_nat ((x + n) mod 2 ^ 29)"
    using assms(1) given_lo [OF assms(1), of d] by (simp_all add: given_def x_def n_def)
  have "x mod 2 ^ 29 < 2 ^ 32" "(x + n) mod 2 ^ 29 < 2 ^ 32"
    by (rule less_trans [OF mod_less_divisor], simp_all)+
  then have less: "m_lo (MD5_Update ctx d) < m_lo ctx \<longleftrightarrow> (x + n) mod 2 ^ 29 < x mod 2 ^ 29"
    unfolding lo by (rule lo_less [rotated])
  have hi: "m_hi ctx = of_nat (x div 2 ^ 29)" using assms(1) by (simp add: given_def x_def)
  have "drop_bit 29 (of_nat n :: u64) = of_nat (n div 2 ^ 29)"
  proof -
    have "unat (drop_bit 29 (of_nat n :: u64)) = drop_bit 29 (unat (of_nat n :: u64))"
      using take_bit_nat_eq_self [OF unsigned_less [of "of_nat n :: u64"]] by (simp only: unsigned_drop_bit_eq)
    also have "unat (of_nat n :: u64) = n" using assms(2) by (simp add: unat_of_nat n_def)
    finally show ?thesis by (metis drop_bit_eq_div of_nat_unat ucast_id)
  qed
  moreover have "ucast (ucast w + of_nat k :: u64) = w + of_nat k" for w :: u32 and k
  proof -
    have "ucast (ucast w + of_nat k :: u64) = (of_nat (unat w + k) :: u32)"
      using ucast_64_32 [of "unat w + k"] ucast_32_64 [of "unat w"] unsigned_less [of w, where ?'a = nat] by simp
    then show ?thesis by simp
  qed
  ultimately have "m_hi (MD5_Update ctx d) =
      (if m_lo (MD5_Update ctx d) < m_lo ctx then m_hi ctx + 1 else m_hi ctx) + of_nat (n div 2 ^ 29)"
    by (simp add: MD5_Update_def Let_def n_def split: prod.split)
  then show ?thesis
    using carry [of "2 ^ 29" n x] unfolding less hi by (simp add: x_def n_def add.commute)
qed

lemma body_rest:
  "64 \<le> length d \<Longrightarrow> body (four_list h) d (length d - length d mod 64) = (four_list (blocks rfc_block h d), drop (whole d) d)"
  "\<not> 64 \<le> length d \<Longrightarrow> blocks rfc_block h d = h" "\<not> 64 \<le> length d \<Longrightarrow> whole d = 0"
  using body_blocks [of d h] by (simp_all add: whole_def blocks_short)

lemma given_update:
  assumes "given ctx m" "length d < 2 ^ 61"
  shows "given (MD5_Update ctx d) (m @ d)"
proof -
  obtain h where h: "m_abcd ctx = four_list h" and k: "kept rfc_block MD5_IV h (m_buffer ctx) m"
    using assms(1) by (auto simp: given_def)
  define u where "u = length m mod 64"
  have u: "unat (m_lo ctx AND 0x3f) = u" "u < 64" using given_used [OF assms(1)] by (simp_all add: u_def)
  define p where "p = update_data (four_list h) (m_buffer ctx) u d"
  have p: "m_abcd (MD5_Update ctx d) = fst p" "m_buffer (MD5_Update ctx d) = snd p"
    by (simp_all add: MD5_Update_def Let_def p_def u h split: prod.split)
  have "\<exists>h. fst p = four_list h \<and> kept rfc_block MD5_IV h (snd p) (m @ d)"
  proof (cases "u \<noteq> 0")
    case True
    show ?thesis
    proof (cases "length d < 64 - u")
      case short: True
      then have "p = (four_list h, overwrite (m_buffer ctx) u d)" using True by (simp add: p_def update_data_def)
      then show ?thesis using kept_short [OF k, of d] short
        by (auto simp: u_def simp del: split_paired_Ex)
    next
      case False
      define t where "t = take (64 - u) d"
      define r where "r = drop (64 - u) d"
      define b where "b = overwrite (m_buffer ctx) u t"
      have t: "u + length t = 64" "m @ d = (m @ t) @ r" using False u(2) by (simp_all add: t_def r_def)
      have f: "rfc_block h b = blocks rfc_block MD5_IV (m @ t)" "length (m @ t) mod 64 = 0" "length b = 64"
        using kept_filled [OF k, of t] t(1) by (simp_all add: b_def u_def)
      have "p = (four_list (blocks rfc_block (rfc_block h b) r), overwrite b 0 (drop (whole r) r))"
        using True False
        by (simp add: body_rest p_def update_data_def Let_def t_def [symmetric] r_def [symmetric] b_def [symmetric] body_one f(3))
      then show ?thesis unfolding t(2) f(1) using kept_rest [OF f(2,3), of rfc_block MD5_IV r]
        by (intro exI [of _ "blocks rfc_block (blocks rfc_block MD5_IV (m @ t)) r"] conjI) simp_all
    qed
  next
    case False
    have "p = (four_list (blocks rfc_block h d), overwrite (m_buffer ctx) 0 (drop (whole d) d))"
      using False by (simp add: body_rest p_def update_data_def)
    moreover have "h = blocks rfc_block MD5_IV m" "length (m_buffer ctx) = 64" using k by (simp_all add: kept_def)
    ultimately show ?thesis
      using kept_rest [of m "m_buffer ctx" rfc_block MD5_IV d] False by (auto simp: u_def simp del: split_paired_Ex)
  qed
  then show ?thesis using given_lo [OF assms(1)] given_hi [OF assms] by (simp add: given_def p del: split_paired_Ex)
qed

section \<open>The digest\<close>

lemma le_bytes_length [simp]: "length (le_bytes w) = 4"
  by (simp add: le_bytes_def)

lemma given_bits:
  assumes "given ctx m"
  shows "le_bytes (push_bit 3 (m_lo ctx)) @ le_bytes (m_hi ctx) =
    (let bits = of_nat (8 * length m) :: u64 in le_bytes (ucast bits) @ le_bytes (ucast (drop_bit 32 bits)))"
proof -
  have m: "(of_nat (k mod 2 ^ 32) :: u32) = of_nat k" for k
    by (rule word_unat_eq_iff [THEN iffD2]) (simp add: unat_of_nat)
  have "push_bit 3 (m_lo ctx) = of_nat (8 * (length m mod 2 ^ 29))"
    using assms by (simp add: given_def push_bit_eq_mult)
  also have "8 * (length m mod 2 ^ 29) = 8 * length m mod 2 ^ 32" by (simp add: mult_mod_right)
  also have "(of_nat (8 * length m mod 2 ^ 32) :: u32) = of_nat (8 * length m)"
    by (rule m)
  finally have lo: "push_bit 3 (m_lo ctx) = of_nat (8 * length m)" .
  have "length m div 2 ^ 29 = 8 * length m div 2 ^ 32"
    using div_mult_mult1 [of 8 "length m" "2 ^ 29"] by simp
  then have hi: "m_hi ctx = of_nat (8 * length m div 2 ^ 32)" using assms by (simp only: given_def)
  show ?thesis unfolding Let_def lo hi by (simp only: halves)
qed

lemma zero_fill: "r < 56 \<Longrightarrow> (119 - r) mod 64 = 55 - r" "56 \<le> r \<Longrightarrow> r < 64 \<Longrightarrow> (119 - r) mod 64 = 63 - r + (56 :: nat)"
  by (simp_all add: mod_if)

lemma md5_digest:
  assumes "given ctx m"
  shows "MD5_Final ctx = md5_ref m"
proof -
  obtain h where h: "m_abcd ctx = four_list h" and k: "kept rfc_block MD5_IV h (m_buffer ctx) m"
    using assms by (auto simp: given_def)
  define r where "r = length m mod 64"
  define n where "n = le_bytes (push_bit 3 (m_lo ctx)) @ le_bytes (m_hi ctx)"
  have n: "length n = 8" by (simp add: n_def)
  have r: "unat (m_lo ctx AND 0x3f) = r" "r < 64" using given_used [OF assms] by (simp_all add: r_def)
  have buf: "length (m_buffer ctx) = 64" using k by (simp add: kept_def)
  have pad: "rfc_padded m = m @ 0x80 # replicate ((119 - r) mod 64) 0 @ n"
    by (simp add: rfc_padded_def n_def given_bits [OF assms] r_def)
  have "MD5_Final ctx = concat (map le_bytes (four_list (blocks rfc_block MD5_IV (rfc_padded m))))"
  proof (cases "r < 56")
    case True
    define t where "t = 0x80 # replicate (55 - r) 0 @ n"
    define b where "b = overwrite (m_buffer ctx) r t"
    have t: "r + length t = 64" using True n by (simp add: t_def)
    have room: "\<not> 63 - r < 8" using True by simp
    note f = kept_filled [OF k, of t, folded r_def, OF t]
    have "overwrite (overwrite (overwrite (m_buffer ctx) r [0x80]) (r + 1) (replicate (55 - r) 0)) 56 n = b"
      unfolding b_def t_def using True n buf by (subst overwrite_twice, simp, simp, subst overwrite_twice, simp_all)
    then have "MD5_Final ctx = concat (map le_bytes (four_list (rfc_block h b)))"
      using room f(3) by (simp add: MD5_Final_def Let_def r n_def [symmetric] h body_one b_def)
    also have "rfc_block h b = blocks rfc_block MD5_IV (rfc_padded m)"
      using f(1) True by (simp add: b_def pad zero_fill t_def)
    finally show ?thesis .
  next
    case False
    define t where "t = 0x80 # replicate (63 - r) (0 :: byte)"
    define b where "b = overwrite (m_buffer ctx) r t"
    define t' where "t' = replicate 56 0 @ n"
    define b' where "b' = overwrite b 0 t'"
    have t: "r + length t = 64" using False r(2) by (simp add: t_def)
    have room: "63 - r < 8" using False by simp
    note f = kept_filled [OF k, of t, folded r_def, OF t]
    have k': "kept rfc_block MD5_IV (rfc_block h b) b (m @ t)"
      using kept_rest [OF f(2,3), of rfc_block MD5_IV "[]"] f(1) by (simp add: b_def overwrite_nothing blocks_short)
    have "overwrite (overwrite (m_buffer ctx) r [0x80]) (r + 1) (replicate (63 - r) 0) = b"
      unfolding b_def t_def using False r(2) buf by (subst overwrite_twice) simp_all
    moreover have "overwrite (overwrite b 0 (replicate 56 0)) 56 n = b'"
      unfolding b'_def t'_def using f(3) n by (subst overwrite_twice) (simp_all add: b_def)
    ultimately have "MD5_Final ctx = concat (map le_bytes (fst (body (fst (body (four_list h) b 64)) b' 64)))"
      using room by (simp add: MD5_Final_def Let_def r n_def [symmetric] h)
    also have "\<dots> = concat (map le_bytes (four_list (rfc_block (rfc_block h b) b')))"
      using f(3) kept_filled(3) [OF k', of t'] f(2) n by (simp add: body_one b_def b'_def t'_def)
    also have "rfc_block (rfc_block h b) b' = blocks rfc_block MD5_IV ((m @ t) @ t')"
      using kept_filled(1) [OF k', of t'] f(2) n by (simp add: b'_def t'_def)
    also have "(m @ t) @ t' = rfc_padded m"
      unfolding pad zero_fill(2) [OF leI [OF False] r(2)] t_def t'_def
      by (simp only: replicate_add append_assoc append_Cons)
    finally show ?thesis .
  qed
  then show ?thesis
    by (cases "blocks rfc_block MD5_IV (rfc_padded m)") (simp add: md5_ref_def)
qed

lemma given_updates:
  "given ctx m \<Longrightarrow> \<forall>d \<in> set ds. length d < 2 ^ 61 \<Longrightarrow> given (foldl MD5_Update ctx ds) (m @ concat ds)"
proof (induction ds arbitrary: ctx m)
  case (Cons d ds)
  then have "given (MD5_Update ctx d) (m @ d)" by (simp add: given_update)
  with Cons show ?case by fastforce
qed simp

lemma md5_text:
  assumes "length rubbish = 64" "length s < 2 ^ 61"
  shows "md5 rubbish s = getStringResult (md5_ref (bytes s))"
  using md5_digest [OF given_update [OF given_init [OF assms(1)], of "bytes s"]] assms(2) by (simp add: md5_def)

text \<open>
  C8: the digest of a message given in pieces is the MD5 of RFC 1321 of the whole, wherever the pieces
  end and whatever the buffer held before.
\<close>

theorem md5_spec:
  assumes "length rubbish = 64" "\<forall>d \<in> set ds. length d < 2 ^ 61"
  shows "MD5_Final (foldl MD5_Update (MD5_Init rubbish) ds) = md5_ref (concat ds)"
  using md5_digest [OF given_updates [OF given_init [OF assms(1)] assms(2)]] by simp

lemma md5_spec_witness:
  "MD5_Final (foldl MD5_Update (MD5_Init (replicate 64 7)) [bytes ''a'', bytes ''bc'']) = md5_ref (bytes ''abc'')"
  using md5_spec [of "replicate 64 7" "[bytes ''a'', bytes ''bc'']"] by (simp add: bytes_def)

end
