(* ===== verification/HttpServerProps.thy ===== *)
theory HttpServerProps
  imports HttpServer Md5Props
begin

text \<open>
  The connection request server lets in who knows the password, and counts whom it lets in.
  The fields of the header are found whatever their values, as long as these have no equals sign
  or quotation mark: a name is looked for at the ends of the pieces between the equals signs.
\<close>

section \<open>Finding the fields\<close>

lemma strstr_found: "strstrb s t \<longleftrightarrow> strstr s t \<noteq> None"
  by (induction s) auto

lemma strstr_equals:
  assumes "CHR ''='' \<notin> set p" "CHR ''='' \<notin> set name"
  shows "strstr (p @ CHR ''='' # r) (name @ ''='') =
    (if prefixb (rev name) (rev p) then Some (name @ CHR ''='' # r) else strstr r (name @ ''=''))"
  using assms(1)
proof (induction p)
  case Nil
  show ?case using assms(2) by (cases name) (auto simp: prefixb_iff)
next
  case (Cons c p)
  have "prefixb (name @ ''='') (c # p @ CHR ''='' # r) \<longleftrightarrow> name = c # p"
  proof
    assume "prefixb (name @ ''='') (c # p @ CHR ''='' # r)"
    then obtain z where z: "(c # p) @ CHR ''='' # r = name @ CHR ''='' # z" by (auto simp: prefixb_iff)
    have "c # p = takeWhile (\<lambda>x. x \<noteq> CHR ''='') ((c # p) @ CHR ''='' # r)"
      using Cons.prems by (subst takeWhile_append2) auto
    also have "\<dots> = takeWhile (\<lambda>x. x \<noteq> CHR ''='') (name @ CHR ''='' # z)" by (simp only: z)
    also have "\<dots> = name" using assms(2) by (subst takeWhile_append2) auto
    finally show "name = c # p" by simp
  qed (auto simp: prefixb_iff)
  moreover have "prefixb (rev name) (rev p @ [c]) \<longleftrightarrow> prefixb (rev name) (rev p) \<or> name = c # p"
  proof -
    have "(\<exists>t. rev p @ [c] = rev name @ t) \<longleftrightarrow> (\<exists>t. rev p = rev name @ t) \<or> rev p @ [c] = rev name"
      by (metis append.right_neutral append_assoc append_eq_append_conv2 append_Nil2 butlast_append butlast_snoc)
    moreover have "rev p @ [c] = rev name \<longleftrightarrow> name = c # p" by (metis rev.simps(2) rev_swap)
    ultimately show ?thesis by (auto simp: prefixb_iff)
  qed
  ultimately show ?case using Cons by (auto simp: prefixb_iff)
qed

lemma between_found:
  assumes "a \<notin> set p" "b \<notin> set v" "length v < MAXTOKENSIZE"
  shows "between a b (Some (p @ a # v @ b # r)) = Inr (Some v)"
proof -
  have "dropWhile (\<lambda>x. x \<noteq> a) (p @ a # v @ b # r) = a # v @ b # r"
    using assms(1) by (subst dropWhile_append2) auto
  moreover have "dropWhile (\<lambda>x. x \<noteq> b) (v @ b # r) = b # r"
    using assms(2) by (subst dropWhile_append2) auto
  ultimately show ?thesis using assms(3) by (simp add: between_def strchr_def)
qed

section \<open>The request of the ACS\<close>

definition acs_request :: "string \<Rightarrow> digest_header \<Rightarrow> string \<Rightarrow> string" where
  "acs_request path d rest =
     ''GET '' @ path @ '' HTTP/1.1'' @ [CHR 0x0D, CHR 0x0A] @ ''Authorization: Digest username='' @ quoted (d_username d) @
     '', realm='' @ quoted (d_realm d) @ '', nonce='' @ quoted (d_nonce d) @ '', uri='' @ quoted (d_uri d) @
     '', response='' @ quoted (d_response d) @ '', opaque='' @ quoted (d_opaque d) @ '', qop='' @ d_qop d @
     '', nc='' @ d_nc d @ '', cnonce='' @ quoted (d_cnonce d) @ rest"

definition field_ok :: "string \<Rightarrow> bool" where
  "field_ok s \<longleftrightarrow> CHR ''='' \<notin> set s \<and> CHR 0x22 \<notin> set s \<and> CHR '','' \<notin> set s \<and> CHR 0x00 \<notin> set s \<and> length s < MAXTOKENSIZE"

definition header_ok :: "digest_header \<Rightarrow> bool" where
  "header_ok d \<longleftrightarrow> list_all field_ok [d_username d, d_realm d, d_nonce d, d_uri d, d_response d, d_opaque d, d_qop d,
     d_nc d, d_cnonce d]"

lemma quoted_found:
  assumes "CHR 0x22 \<notin> set p" "field_ok v"
  shows "getQuotedString (Some (p @ quoted v @ r)) = Inr (Some v)"
  using assms between_found [of "CHR 0x22" p "CHR 0x22" v r] by (simp add: getQuotedString_def quoted_def field_ok_def)

lemma nonquoted_found:
  assumes "CHR ''='' \<notin> set p" "field_ok v"
  shows "getNonQuotedString (Some (p @ CHR ''='' # v @ CHR '','' # r)) = Inr (Some v)"
  using assms between_found [of "CHR ''=''" p "CHR '',''" v r] by (simp add: getNonQuotedString_def field_ok_def)

text \<open>The pieces of the request between its equals signs.\<close>

definition pieces :: "string \<Rightarrow> digest_header \<Rightarrow> string \<Rightarrow> string list" where
  "pieces path d rest =
     [''GET '' @ path @ '' HTTP/1.1'' @ [CHR 0x0D, CHR 0x0A] @ ''Authorization: Digest username'',
      quoted (d_username d) @ '', realm'', quoted (d_realm d) @ '', nonce'', quoted (d_nonce d) @ '', uri'',
      quoted (d_uri d) @ '', response'', quoted (d_response d) @ '', opaque'', quoted (d_opaque d) @ '', qop'',
      d_qop d @ '', nc'', d_nc d @ '', cnonce'', quoted (d_cnonce d) @ rest]"

lemma acs_request_pieces: "acs_request path d rest = join (CHR ''='') (pieces path d rest)"
  by (simp add: acs_request_def pieces_def)

lemma find_piece:
  "CHR ''='' \<notin> set p \<Longrightarrow> CHR ''='' \<notin> set name \<Longrightarrow>
    strstr (join (CHR ''='') (p # q # r)) (name @ ''='') =
      (if prefixb (rev name) (rev p) then Some (name @ CHR ''='' # join (CHR ''='') (q # r))
       else strstr (join (CHR ''='') (q # r)) (name @ ''=''))"
  by (simp add: strstr_equals)

lemma join_head: "join c ((a @ x) # r) = a @ join c (x # r)"
  by (cases r) simp_all

lemma quoted_piece:
  "CHR 0x22 \<notin> set p \<Longrightarrow> field_ok v \<Longrightarrow>
    getQuotedString (Some (p @ join (CHR ''='') ((quoted v @ x) # r))) = Inr (Some v)"
  unfolding join_head by (rule quoted_found)

lemma nonquoted_piece:
  "CHR ''='' \<notin> set p \<Longrightarrow> field_ok v \<Longrightarrow>
    getNonQuotedString (Some (p @ CHR ''='' # join (CHR ''='') ((v @ CHR '','' # x) # r))) = Inr (Some v)"
  unfolding join_head by (cases r) (simp_all add: nonquoted_found)

lemma request_find:
  assumes "header_ok d" "CHR ''='' \<notin> set path"
  shows "strstr (acs_request path d rest) DigestUsernameToken =
      Some (DigestUsernameToken @ join (CHR ''='') (drop 1 (pieces path d rest)))"
    "strstr (acs_request path d rest) realmToken = Some (realmToken @ join (CHR ''='') (drop 2 (pieces path d rest)))"
    "strstr (acs_request path d rest) nonceToken = Some (nonceToken @ join (CHR ''='') (drop 3 (pieces path d rest)))"
    "strstr (acs_request path d rest) uriToken = Some (uriToken @ join (CHR ''='') (drop 4 (pieces path d rest)))"
    "strstr (acs_request path d rest) responseToken =
      Some (responseToken @ join (CHR ''='') (drop 5 (pieces path d rest)))"
    "strstr (acs_request path d rest) opaqueToken = Some (opaqueToken @ join (CHR ''='') (drop 6 (pieces path d rest)))"
    "strstr (acs_request path d rest) qopToken = Some (qopToken @ join (CHR ''='') (drop 7 (pieces path d rest)))"
    "strstr (acs_request path d rest) ncToken = Some (ncToken @ join (CHR ''='') (drop 8 (pieces path d rest)))"
    "strstr (acs_request path d rest) cnonceToken = Some (cnonceToken @ join (CHR ''='') (drop 9 (pieces path d rest)))"
proof -
  have eq: "CHR ''='' \<notin> set s" if "field_ok s" for s using that by (simp add: field_ok_def)
  note ok = assms(1) [unfolded header_ok_def, simplified]
  note S = acs_request_pieces pieces_def quoted_def eq ok assms(2)
  show "strstr (acs_request path d rest) DigestUsernameToken =
      Some (DigestUsernameToken @ join (CHR ''='') (drop 1 (pieces path d rest)))"
    using find_piece [of _ "''Digest username''"] by (simp add: S DigestUsernameToken_def del: join.simps)
  show "strstr (acs_request path d rest) realmToken = Some (realmToken @ join (CHR ''='') (drop 2 (pieces path d rest)))"
    using find_piece [of _ "''realm''"] by (simp add: S realmToken_def del: join.simps)
  show "strstr (acs_request path d rest) nonceToken = Some (nonceToken @ join (CHR ''='') (drop 3 (pieces path d rest)))"
    using find_piece [of _ "''nonce''"] by (simp add: S nonceToken_def del: join.simps)
  show "strstr (acs_request path d rest) uriToken = Some (uriToken @ join (CHR ''='') (drop 4 (pieces path d rest)))"
    using find_piece [of _ "''uri''"] by (simp add: S uriToken_def del: join.simps)
  show "strstr (acs_request path d rest) responseToken =
      Some (responseToken @ join (CHR ''='') (drop 5 (pieces path d rest)))"
    using find_piece [of _ "''response''"] by (simp add: S responseToken_def del: join.simps)
  show "strstr (acs_request path d rest) opaqueToken = Some (opaqueToken @ join (CHR ''='') (drop 6 (pieces path d rest)))"
    using find_piece [of _ "''opaque''"] by (simp add: S opaqueToken_def del: join.simps)
  show "strstr (acs_request path d rest) qopToken = Some (qopToken @ join (CHR ''='') (drop 7 (pieces path d rest)))"
    using find_piece [of _ "''qop''"] by (simp add: S qopToken_def del: join.simps)
  show "strstr (acs_request path d rest) ncToken = Some (ncToken @ join (CHR ''='') (drop 8 (pieces path d rest)))"
    using find_piece [of _ "''nc''"] by (simp add: S ncToken_def del: join.simps)
  show "strstr (acs_request path d rest) cnonceToken = Some (cnonceToken @ join (CHR ''='') (drop 9 (pieces path d rest)))"
    using find_piece [of _ "''cnonce''"] by (simp add: S cnonceToken_def del: join.simps)
qed

lemma request_tokens:
  assumes "header_ok d" "CHR ''='' \<notin> set path"
  shows "getDigestMessageToken (acs_request path d rest) = Inr (Some d)"
proof -
  note ok = assms(1) [unfolded header_ok_def, simplified]
  note T = DigestUsernameToken_def realmToken_def nonceToken_def uriToken_def responseToken_def opaqueToken_def
    qopToken_def ncToken_def cnonceToken_def
  have plain: "CHR 0x22 \<notin> set DigestUsernameToken" "CHR 0x22 \<notin> set realmToken" "CHR 0x22 \<notin> set nonceToken"
    "CHR 0x22 \<notin> set uriToken" "CHR 0x22 \<notin> set responseToken" "CHR 0x22 \<notin> set opaqueToken"
    "CHR 0x22 \<notin> set cnonceToken" by (simp_all add: T)
  have q: "getQuotedString (Some (DigestUsernameToken @ join (CHR ''='') (drop 1 (pieces path d rest)))) = Inr (Some (d_username d))"
    "getQuotedString (Some (realmToken @ join (CHR ''='') (drop 2 (pieces path d rest)))) = Inr (Some (d_realm d))"
    "getQuotedString (Some (nonceToken @ join (CHR ''='') (drop 3 (pieces path d rest)))) = Inr (Some (d_nonce d))"
    "getQuotedString (Some (uriToken @ join (CHR ''='') (drop 4 (pieces path d rest)))) = Inr (Some (d_uri d))"
    "getQuotedString (Some (responseToken @ join (CHR ''='') (drop 5 (pieces path d rest)))) = Inr (Some (d_response d))"
    "getQuotedString (Some (opaqueToken @ join (CHR ''='') (drop 6 (pieces path d rest)))) = Inr (Some (d_opaque d))"
    "getNonQuotedString (Some (qopToken @ join (CHR ''='') (drop 7 (pieces path d rest)))) = Inr (Some (d_qop d))"
    "getNonQuotedString (Some (ncToken @ join (CHR ''='') (drop 8 (pieces path d rest)))) = Inr (Some (d_nc d))"
    "getQuotedString (Some (cnonceToken @ join (CHR ''='') (drop 9 (pieces path d rest)))) = Inr (Some (d_cnonce d))"
    using ok nonquoted_piece [of "''qop''" "d_qop d"] nonquoted_piece [of "''nc''" "d_nc d"]
    by (simp_all add: pieces_def quoted_piece plain qopToken_def ncToken_def del: join.simps)
  show ?thesis
    unfolding getDigestMessageToken_def request_find [OF assms] q field_then.simps
    by (cases d) simp
qed

section \<open>Who is let in\<close>

definition hex_md5 :: "string \<Rightarrow> string" where
  "hex_md5 s = getStringResult (md5_ref (bytes s))"

text \<open>The response of RFC 2617 with a quality of protection.\<close>

definition rfc_response :: "string \<Rightarrow> string \<Rightarrow> string \<Rightarrow> digest_header \<Rightarrow> string" where
  "rfc_response username password verb d =
     hex_md5 (hex_md5 (username @ '':'' @ d_realm d @ '':'' @ password) @ '':'' @ d_nonce d @ '':'' @ d_nc d @ '':'' @
       d_cnonce d @ '':'' @ d_qop d @ '':'' @ hex_md5 (verb @ '':'' @ d_uri d))"

lemma strncats_ok:
  "length (concat (s # ps)) < n \<Longrightarrow> strncats n s ps = Inr (concat (s # ps))"
  by (induction ps arbitrary: s) (simp_all add: Let_def)

lemma strncats_short: "strncats n s ps = Inr t \<Longrightarrow> length s < n \<Longrightarrow> t = concat (s # ps) \<and> length t < n"
proof (induction ps arbitrary: s)
  case (Cons p ps)
  let ?s = "s @ take (n - length s) p"
  have l: "length ?s < n" using Cons.prems by (auto simp: Let_def split: if_splits)
  then have "?s = s @ p" by auto
  then show ?case using Cons.IH [of ?s] Cons.prems l by (auto simp: Let_def)
qed simp

lemma filled_buffer_Inr: "filled_buffer n p ps = Inr t \<longleftrightarrow> t = concat (p # ps) \<and> length (concat (p # ps)) < n"
proof
  assume "filled_buffer n p ps = Inr t"
  then show "t = concat (p # ps) \<and> length (concat (p # ps)) < n"
    using strncats_short [of n p ps t] by (auto simp: filled_buffer_def split: if_splits)
next
  assume a: "t = concat (p # ps) \<and> length (concat (p # ps)) < n"
  then have "length p < n" by simp
  then show "filled_buffer n p ps = Inr t" using a strncats_ok [of p ps n] by (simp add: filled_buffer_def)
qed

lemma filled_buffer_length: "filled_buffer n p ps = Inr t \<Longrightarrow> length t < n"
  by (simp add: filled_buffer_Inr)

lemma md5_hex: "length rubbish = 64 \<Longrightarrow> length s < 2 ^ 61 \<Longrightarrow> md5 rubbish s = hex_md5 s"
  by (simp add: md5_text hex_md5_def)

lemma length_md5_ref: "length (md5_ref m) = 16"
  by (simp add: md5_ref_def split: prod.split)

lemma length_hex_md5 [simp]: "length (hex_md5 s) = 32"
proof -
  have "length (getStringResult b) = 2 * length b" for b
    by (induction b) (simp_all add: getStringResult_def)
  then show ?thesis by (simp add: hex_md5_def length_md5_ref)
qed

lemma expected_Inr:
  assumes "length rubbish = 64"
  shows "expected_response rubbish s u p d = Inr t \<longleftrightarrow>
    (\<exists>verb rest. strtok (CHR '' '') s = Some (verb, rest) \<and> t = rfc_response u p verb d \<and>
      length u + length (d_realm d) + length p + 2 < HA1_MAXTOKENSIZE \<and>
      length verb + length (d_uri d) + 1 < HA2_MAXTOKENSIZE \<and>
      length (d_nonce d) + length (d_nc d) + length (d_cnonce d) + length (d_qop d) + 69 < TOTAL_MAXTOKENSIZE)"
    (is "?l \<longleftrightarrow> ?r")
proof -
  have m: "md5 rubbish s = hex_md5 s" if "length s < 600" for s
    using md5_hex [OF assms, of s] that by simp
  show ?thesis
  proof
    assume ?l
    then obtain ha1 verb rest ha2 joined where
      1: "filled_buffer HA1_MAXTOKENSIZE u ['':'', d_realm d, '':'', p] = Inr ha1" "strtok (CHR '' '') s = Some (verb, rest)"
        "filled_buffer HA2_MAXTOKENSIZE verb ['':'', d_uri d] = Inr ha2"
        "filled_buffer TOTAL_MAXTOKENSIZE (md5 rubbish ha1) ['':'', d_nonce d, '':'', d_nc d, '':'', d_cnonce d, '':'', d_qop d,
          '':'', md5 rubbish ha2] = Inr joined" "t = md5 rubbish joined"
      by (auto simp: expected_response_def split: sum.splits option.splits)
    have "length ha1 < 600" "length ha2 < 600" "length joined < 600"
      using filled_buffer_length [OF 1(1)] filled_buffer_length [OF 1(3)] filled_buffer_length [OF 1(4)]
      by (simp_all add: HA1_MAXTOKENSIZE_def HA2_MAXTOKENSIZE_def TOTAL_MAXTOKENSIZE_def MAXTOKENSIZE_def)
    then have 2: "md5 rubbish ha1 = hex_md5 ha1" "md5 rubbish ha2 = hex_md5 ha2" "md5 rubbish joined = hex_md5 joined"
      by (simp_all add: m)
    show ?r using 1 unfolding 2 by (auto simp: filled_buffer_Inr rfc_response_def)
  next
    assume ?r
    then show ?l
      by (auto simp: expected_response_def filled_buffer_Inr [THEN iffD2] m rfc_response_def HA1_MAXTOKENSIZE_def
          HA2_MAXTOKENSIZE_def TOTAL_MAXTOKENSIZE_def MAXTOKENSIZE_def)
  qed
qed

lemma authenticated:
  assumes "length rubbish = 64" "http_connection rubbish sv k = Inr (Accepted, sv')"
  shows "\<exists>m s d u p rest. k_received k = Some m \<and> received_string m = Inr s \<and> getDigestMessageToken s = Inr (Some d) \<and>
    d_nonce d = h_nonce sv \<and> d_opaque d = h_opaque sv \<and> k_credentials k = Some (u, p) \<and> u \<noteq> Null \<and> p \<noteq> Null \<and>
    strtok (CHR '' '') s = Some (''GET'', rest) \<and> d_response d = rfc_response (ctext u) (ctext p) ''GET'' d \<and>
    \<not> k_session k \<and> \<not> maxConnectionPerPeriodReached (k_limits k) (k_time k) (h_freq sv) \<and>
    sv' = sv\<lparr>h_freq := newConnectionRequestAllowed (k_time k) (h_freq sv)\<rparr>"
proof -
  obtain m where m: "k_received k = Some m" "\<not> k_session k" "authorized rubbish sv k m = Inr True"
    "\<not> maxConnectionPerPeriodReached (k_limits k) (k_time k) (h_freq sv)"
    "sv' = sv\<lparr>h_freq := newConnectionRequestAllowed (k_time k) (h_freq sv)\<rparr>"
    using assms(2) by (auto simp: http_connection_def split: if_splits option.splits sum.splits)
  obtain s where s: "received_string m = Inr s" "checkHttpMessageContent s"
    "performClientDigestAuthentication rubbish (h_nonce sv) (h_opaque sv) (k_credentials k) s = Inr True"
    using m(3) by (auto simp: authorized_def split: if_splits sum.splits)
  obtain d u p where d: "getDigestMessageToken s = Inr (Some d)" "d_nonce d = h_nonce sv" "d_opaque d = h_opaque sv"
    "k_credentials k = Some (u, p)" "u \<noteq> Null" "p \<noteq> Null"
    "expected_response rubbish s (ctext u) (ctext p) d = Inr (d_response d)"
    using s(3) by (auto simp: performClientDigestAuthentication_def split: sum.splits option.splits if_splits)
  obtain rest where r: "strtok (CHR '' '') s = Some (''GET'', rest)"
    using s(2) unfolding checkHttpMessageContent_def CONNECTION_REQUESTION_METHOD_def
    by (cases "strtok (CHR '' '') s") (auto split: option.splits prod.splits)
  have "d_response d = rfc_response (ctext u) (ctext p) ''GET'' d"
    using d(7) r by (auto simp: expected_Inr [OF assms(1)])
  with m s d r show ?thesis by blast
qed

text \<open>A header as the ACS computes it from the challenge.\<close>

definition answers_challenge :: "http_server \<Rightarrow> string \<Rightarrow> string \<Rightarrow> digest_header \<Rightarrow> bool" where
  "answers_challenge sv u p d \<longleftrightarrow>
     header_ok (d\<lparr>d_response := []\<rparr>) \<and> d_nonce d = h_nonce sv \<and> d_opaque d = h_opaque sv \<and>
     d_response d = rfc_response u p ''GET'' d \<and> length u + length (d_realm d) + length p + 2 < HA1_MAXTOKENSIZE"

definition path_ok :: "string \<Rightarrow> bool" where
  "path_ok path \<longleftrightarrow> path \<noteq> [] \<and> CHR '' '' \<notin> set path \<and> CHR ''='' \<notin> set path \<and> CHR 0x00 \<notin> set path"

lemma hex_digits:
  assumes "c \<in> set (hex_md5 s)"
  shows "\<exists>k < 16. c = hex_digit k"
proof -
  have "unat b div 16 < 16" for b :: byte
    using unsigned_less [of b, where ?'a = nat] by (simp add: less_mult_imp_div_less)
  moreover have "unat b mod 16 < 16" for b :: byte by (rule mod_less_divisor) simp
  moreover have "\<exists>b :: byte. c = hex_digit (unat b div 16) \<or> c = hex_digit (unat b mod 16)"
    using assms by (simp add: hex_md5_def getStringResult_def) blast
  ultimately show ?thesis by blast
qed

lemma hex_digit_plain: "k < 16 \<Longrightarrow> hex_digit k \<noteq> CHR ''='' \<and> hex_digit k \<noteq> CHR 0x22 \<and> hex_digit k \<noteq> CHR '','' \<and> hex_digit k \<noteq> CHR 0x00"
proof -
  assume k: "k < 16"
  have "code (hex_digit k) = (if k < 10 then 48 + k else 87 + k)" using k by (simp add: hex_digit_def)
  then have "code (hex_digit k) \<noteq> code (CHR ''='')" "code (hex_digit k) \<noteq> code (CHR 0x22)" "code (hex_digit k) \<noteq> code (CHR '','')"
    "code (hex_digit k) \<noteq> code (CHR 0x00)" using k by auto
  then show ?thesis by metis
qed

lemma hex_field: "field_ok (hex_md5 s)"
  using hex_digits [of _ s] hex_digit_plain by (auto simp: field_ok_def MAXTOKENSIZE_def) metis+

lemma answer_header: "answers_challenge sv u p d \<Longrightarrow> header_ok d"
  using hex_field by (auto simp: answers_challenge_def header_ok_def rfc_response_def)

lemma request_string:
  assumes "header_ok d" "path_ok path" "CHR 0x00 \<notin> set rest" "length (acs_request path d rest) < SIZE_HTTP_MSG"
  shows "received_string (acs_request path d rest) = Inr (acs_request path d rest)"
proof -
  have "CHR 0x00 \<notin> set (acs_request path d rest)"
    using assms(1-3) by (simp add: acs_request_def quoted_def header_ok_def field_ok_def path_ok_def)
  then have "takeWhile (\<lambda>c. c \<noteq> CHR 0x00) (acs_request path d rest) = acs_request path d rest"
    by (subst takeWhile_eq_all_conv) auto
  moreover have "take SIZE_HTTP_MSG (acs_request path d rest) = acs_request path d rest" using assms(4) by simp
  ultimately show ?thesis using assms(4) by (simp only: received_string_def Let_def if_True)
qed

lemma request_first:
  assumes "path_ok path"
  shows "strtok (CHR '' '') (acs_request path d rest) =
    Some (''GET'', drop 4 (acs_request path d rest))"
    "checkHttpMessageContent (acs_request path d rest)"
proof -
  obtain r where r: "acs_request path d rest = ''GET '' @ path @ '' HTTP/1.1'' @ CHR 0x0D # r"
    by (simp add: acs_request_def)
  have p: "dropWhile (\<lambda>x. x = CHR '' '') (path @ z) = path @ z" "takeWhile (\<lambda>x. x \<noteq> CHR '' '') (path @ CHR '' '' # z) = path"
    "dropWhile (\<lambda>x. x \<noteq> CHR '' '') (path @ CHR '' '' # z) = CHR '' '' # z" for z
    using assms by (cases path; auto simp: path_ok_def takeWhile_append2 dropWhile_append2)+
  show 1: "strtok (CHR '' '') (acs_request path d rest) =
    Some (''GET'', drop 4 (acs_request path d rest))"
    by (simp add: r strtok_def Let_def)
  show "checkHttpMessageContent (acs_request path d rest)"
    using assms by (simp add: checkHttpMessageContent_def 1)
      (simp add: r strtok_def p Let_def CONNECTION_REQUESTION_METHOD_def CONNECTION_REQUESTION_PROTOCOL_def path_ok_def)
qed

lemma request_complete:
  assumes "header_ok d" "path_ok path"
  shows "checkDigestAuthMessageContent (acs_request path d rest)"
proof -
  have "strstrb (acs_request path d rest) AuthorizationToken"
    unfolding strstrb_iff acs_request_def AuthorizationToken_def
    by (rule exI [of _ "''GET '' @ path @ '' HTTP/1.1'' @ [CHR 0x0D, CHR 0x0A]"]) simp
  then show ?thesis using assms request_find [OF assms(1), of path rest]
    by (simp add: checkDigestAuthMessageContent_def strstr_found path_ok_def)
qed

lemma accepted:
  assumes "length rubbish = 64" "answers_challenge sv u p d" "path_ok path" "CHR 0x00 \<notin> set rest"
    "length (acs_request path d rest) < SIZE_HTTP_MSG"
    "k_received k = Some (acs_request path d rest)" "\<not> k_session k" "k_credentials k = Some (Str u, Str p)" "k_requested k"
    "\<not> maxConnectionPerPeriodReached (k_limits k) (k_time k) (h_freq sv)"
  shows "http_connection rubbish sv k =
    Inr (Accepted, sv\<lparr>h_freq := newConnectionRequestAllowed (k_time k) (h_freq sv)\<rparr>)"
proof -
  note h = answer_header [OF assms(2)]
  have eq: "CHR ''='' \<notin> set path" using assms(3) by (simp add: path_ok_def)
  have short: "length (d_uri d) < 100" "length (d_nonce d) < 100" "length (d_nc d) < 100" "length (d_cnonce d) < 100"
    "length (d_qop d) < 100"
    using h by (simp_all add: header_ok_def field_ok_def MAXTOKENSIZE_def)
  have "expected_response rubbish (acs_request path d rest) u p d = Inr (d_response d)"
    using assms(2) short
    by (simp add: expected_Inr [OF assms(1)] request_first(1) [OF assms(3)] answers_challenge_def HA2_MAXTOKENSIZE_def
        TOTAL_MAXTOKENSIZE_def MAXTOKENSIZE_def)
  then have "authorized rubbish sv k (acs_request path d rest) = Inr True"
    using assms(2,8) by (simp add: authorized_def request_string [OF h assms(3-5)] request_complete [OF h assms(3)]
        performClientDigestAuthentication_def request_tokens [OF h eq] request_first(2) [OF assms(3)] answers_challenge_def)
  then show ?thesis using assms(6,7,9,10) by (simp add: http_connection_def)
qed

lemma limit_start: "\<not> maxConnectionPerPeriodReached None 2000000000 (h_freq http_start)"
  by (simp add: maxConnectionPerPeriodReached_def connection_limits_def DEFAULT_MAX_CONNECTIONREQUEST_def
      DEFAULT_FREQ_CONNECTION_REQUEST_def http_start_def initConnectionFreqArray_def MAXCONNECTIONREQUESTARRAYSIZE_def
      Let_def)

text \<open>A first connection without authentication, and the answer to its challenge.\<close>

definition first_connection :: connection where
  "first_connection = \<lparr>k_received = Some ''GET / HTTP/1.1'', k_session = False, k_time = 2000000000, k_limits = None,
     k_credentials = Some (Str ''me'', Str ''secret''), k_requested = True, k_random = (replicate 34 0, replicate 32 1)\<rparr>"

definition sample_header :: "http_server \<Rightarrow> digest_header" where
  "sample_header sv =
     (let d = \<lparr>d_username = ''me'', d_realm = ''liveboxrealm'', d_nonce = h_nonce sv, d_uri = ''/'', d_response = [],
        d_opaque = h_opaque sv, d_qop = ''auth'', d_nc = ''00000001'', d_cnonce = ''xyz''\<rparr>
      in d\<lparr>d_response := rfc_response ''me'' ''secret'' ''GET'' d\<rparr>)"

definition challenged :: http_server where
  "challenged = sendAuthenticationRequest first_connection http_start"

definition second_connection :: connection where
  "second_connection = first_connection\<lparr>k_received := Some (acs_request ''/'' (sample_header challenged) [])\<rparr>"

lemma random_dico: "c \<in> set (generateRandomString rs) \<Longrightarrow> c \<in> set dico"
proof -
  have "length dico \<noteq> 0" by (simp add: dico_def)
  then have "dico ! (r mod length dico) \<in> set dico" for r by (intro nth_mem mod_less_divisor) simp
  then show "c \<in> set (generateRandomString rs) \<Longrightarrow> c \<in> set dico" by (auto simp: generateRandomString_def)
qed

lemma random_field:
  assumes "length rs < MAXTOKENSIZE"
  shows "field_ok (generateRandomString rs)"
proof -
  have "CHR ''='' \<notin> set dico" "CHR 0x22 \<notin> set dico" "CHR '','' \<notin> set dico" "CHR 0x00 \<notin> set dico"
    by (simp_all add: dico_def)
  moreover have "length (generateRandomString rs) < MAXTOKENSIZE" using assms by (simp add: generateRandomString_def)
  ultimately show ?thesis using random_dico [of _ rs] by (auto simp: field_ok_def)
qed

lemma challenge_fields:
  "field_ok (h_nonce (sendAuthenticationRequest k sv))" "field_ok (h_opaque (sendAuthenticationRequest k sv))"
  using random_field [of "take NONCESIZE (fst (k_random k))"] random_field [of "take OPAQUESIZE (snd (k_random k))"]
  by (simp_all add: sendAuthenticationRequest_def NONCESIZE_def OPAQUESIZE_def MAXTOKENSIZE_def)

lemma sample_answers: "answers_challenge challenged ''me'' ''secret'' (sample_header challenged)"
  using challenge_fields [of first_connection http_start]
  by (simp add: answers_challenge_def sample_header_def Let_def header_ok_def rfc_response_def HA1_MAXTOKENSIZE_def
      MAXTOKENSIZE_def challenged_def) (simp add: field_ok_def MAXTOKENSIZE_def)

lemma first_challenged:
  assumes "k_received k = Some m" "received_string m = Inr s" "\<not> checkDigestAuthMessageContent s" "\<not> k_session k"
    "\<not> maxConnectionPerPeriodReached (k_limits k) (k_time k) (h_freq sv)"
  shows "http_connection rubbish sv k = Inr (Challenge, sendAuthenticationRequest k sv)"
  using assms by (simp add: http_connection_def authorized_def)

lemma freq_challenge: "h_freq (sendAuthenticationRequest k sv) = h_freq sv"
  by (simp add: sendAuthenticationRequest_def)

lemma sample_short: "length (acs_request ''/'' (sample_header challenged) []) < SIZE_HTTP_MSG"
  using answer_header [OF sample_answers]
  by (simp add: acs_request_def quoted_def header_ok_def field_ok_def MAXTOKENSIZE_def SIZE_HTTP_MSG_def)

lemma sample_path: "path_ok ''/''"
  by (simp add: path_ok_def)

lemma second_fields:
  "k_received second_connection = Some (acs_request ''/'' (sample_header challenged) [])"
  "\<not> k_session second_connection" "k_credentials second_connection = Some (Str ''me'', Str ''secret'')"
  "k_requested second_connection" "k_limits second_connection = None" "k_time second_connection = 2000000000"
  by (simp_all add: second_connection_def first_connection_def)

lemma first_fields:
  "k_received first_connection = Some ''GET / HTTP/1.1''" "received_string ''GET / HTTP/1.1'' = Inr ''GET / HTTP/1.1''"
  "\<not> checkDigestAuthMessageContent ''GET / HTTP/1.1''" "\<not> k_session first_connection"
  "\<not> maxConnectionPerPeriodReached (k_limits first_connection) (k_time first_connection) (h_freq http_start)"
  using limit_start
  by (simp_all add: first_connection_def received_string_def SIZE_HTTP_MSG_def checkDigestAuthMessageContent_def
      AuthorizationToken_def)

lemma second_accepted:
  assumes "length rubbish = 64"
  shows "http_connection rubbish challenged second_connection =
    Inr (Accepted, challenged\<lparr>h_freq := newConnectionRequestAllowed 2000000000 (h_freq http_start)\<rparr>)"
  using accepted [OF assms sample_answers sample_path _ sample_short second_fields(1-4)] limit_start
  by (simp add: second_fields freq_challenge challenged_def)

text \<open>
  C6: the server asks the engine for a session only when the message is a GET whose digest is the one
  of RFC 2617 for the stored user and password and the challenge of the server, while no session
  is open and the limit is not reached.
\<close>

theorem connection_request_authenticated:
  assumes "length rubbish = 64" "http_connection rubbish sv k = Inr (Accepted, sv')"
  shows "\<exists>m s d u p rest. k_received k = Some m \<and> received_string m = Inr s \<and> getDigestMessageToken s = Inr (Some d) \<and>
    d_nonce d = h_nonce sv \<and> d_opaque d = h_opaque sv \<and> k_credentials k = Some (u, p) \<and> u \<noteq> Null \<and> p \<noteq> Null \<and>
    strtok (CHR '' '') s = Some (''GET'', rest) \<and> d_response d = rfc_response (ctext u) (ctext p) ''GET'' d \<and>
    \<not> k_session k \<and> \<not> maxConnectionPerPeriodReached (k_limits k) (k_time k) (h_freq sv) \<and>
    sv' = sv\<lparr>h_freq := newConnectionRequestAllowed (k_time k) (h_freq sv)\<rparr>"
  by (rule authenticated [OF assms])

lemma connection_request_authenticated_witness:
  "\<exists>s d. received_string (acs_request ''/'' (sample_header challenged) []) = Inr s \<and> getDigestMessageToken s = Inr (Some d) \<and>
    d_nonce d = h_nonce challenged \<and> d_response d = rfc_response ''me'' ''secret'' ''GET'' d"
  using connection_request_authenticated [OF length_replicate [of 64 7] second_accepted [OF length_replicate [of 64 7]]]
  by (auto simp: second_fields)



text \<open>
  C40: an accepted request is accepted again: the challenge is not taken back, so whoever has seen the
  request can repeat it until the next challenge.
\<close>

theorem request_replayed:
  assumes "http_connection rubbish sv k = Inr (Accepted, sv')" "k_received k' = k_received k"
    "k_credentials k' = k_credentials k" "\<not> k_session k'" "k_requested k'"
    "\<not> maxConnectionPerPeriodReached (k_limits k') (k_time k') (h_freq sv')"
  shows "\<exists>sv''. http_connection rubbish sv' k' = Inr (Accepted, sv'')"
proof -
  obtain m where m: "k_received k = Some m" "authorized rubbish sv k m = Inr True"
    "h_nonce sv' = h_nonce sv" "h_opaque sv' = h_opaque sv"
    using assms(1) by (auto simp: http_connection_def split: if_splits option.splits sum.splits)
  have "authorized rubbish sv' k' m = authorized rubbish sv k m"
    using m(3,4) assms(3) by (simp add: authorized_def split: sum.split)
  then show ?thesis using assms(2,4-6) m(1,2) by (simp add: http_connection_def)
qed

lemma request_replayed_witness:
  "\<exists>sv'. http_connection (replicate 64 7)
     (challenged\<lparr>h_freq := newConnectionRequestAllowed 2000000000 (h_freq http_start)\<rparr>)
     (second_connection\<lparr>k_time := 2000004000\<rparr>) = Inr (Accepted, sv')"
proof (rule request_replayed [OF second_accepted [OF length_replicate]])
  have "butlast (replicate 100 (0 :: int)) = replicate 99 0" by (simp add: butlast_conv_take)
  then show "\<not> maxConnectionPerPeriodReached (k_limits (second_connection\<lparr>k_time := 2000004000\<rparr>))
     (k_time (second_connection\<lparr>k_time := 2000004000\<rparr>))
     (h_freq (challenged\<lparr>h_freq := newConnectionRequestAllowed 2000000000 (h_freq http_start)\<rparr>))"
    by (simp add: second_fields maxConnectionPerPeriodReached_def connection_limits_def DEFAULT_MAX_CONNECTIONREQUEST_def
        DEFAULT_FREQ_CONNECTION_REQUEST_def http_start_def initConnectionFreqArray_def MAXCONNECTIONREQUESTARRAYSIZE_def
        Let_def newConnectionRequestAllowed_def)
qed (simp_all add: second_fields)

section \<open>How many are let in\<close>

definition accepted_times :: "connection list \<Rightarrow> http_answer list \<Rightarrow> int list" where
  "accepted_times ks answers = map fst (filter (\<lambda>x. snd x = Accepted) (zip (map k_time ks) answers))"

lemma run_requests:
  assumes "http_run rubbish sv ks = Inr (answers, sv')" "requests_at values ts = (ts, h_freq sv)"
    "\<forall>k \<in> set ks. k_limits k = values"
  shows "requests_at values (rev (accepted_times ks answers) @ ts) = (rev (accepted_times ks answers) @ ts, h_freq sv')"
  using assms
proof (induction ks arbitrary: sv ts answers)
  case Nil
  then show ?case by (simp add: accepted_times_def)
next
  case (Cons k ks)
  obtain a sv1 more where r: "http_connection rubbish sv k = Inr (a, sv1)" "http_run rubbish sv1 ks = Inr (more, sv')"
    "answers = a # more"
    using Cons.prems(1) by (auto split: sum.splits prod.splits)
  show ?case
  proof (cases "a = Accepted")
    case True
    then have c: "\<not> maxConnectionPerPeriodReached values (k_time k) (h_freq sv)"
      "h_freq sv1 = newConnectionRequestAllowed (k_time k) (h_freq sv)"
      using r(1) Cons.prems(3) by (auto simp: http_connection_def split: if_splits option.splits sum.splits)
    then have "requests_at values (k_time k # ts) = (k_time k # ts, h_freq sv1)"
      using Cons.prems(2) by (simp add: connection_request_def)
    from Cons.IH [OF r(2) this] Cons.prems(3) True show ?thesis by (simp add: accepted_times_def r(3))
  next
    case False
    then have "h_freq sv1 = h_freq sv"
      using r(1) by (auto simp: http_connection_def freq_challenge split: if_splits option.splits sum.splits)
    then have "requests_at values ts = (ts, h_freq sv1)" using Cons.prems(2) by simp
    from Cons.IH [OF r(2) this] Cons.prems(3) False show ?thesis by (simp add: accepted_times_def r(3))
  qed
qed

lemma accepted_times_Cons:
  "accepted_times (k # ks) (a # r) = (if a = Accepted then [k_time k] else []) @ accepted_times ks r"
  by (simp add: accepted_times_def)

lemma accepted_times_subset: "set (accepted_times ks answers) \<subseteq> set (map k_time ks)"
proof (induction ks arbitrary: answers)
  case (Cons k ks)
  show ?case
  proof (cases answers)
    case (Cons a r)
    then show ?thesis using Cons.IH [of r] by (auto simp: accepted_times_Cons)
  qed (simp add: accepted_times_def)
qed (simp add: accepted_times_def)

lemma accepted_times_sorted: "sorted (map k_time ks) \<Longrightarrow> sorted (accepted_times ks answers)"
proof (induction ks arbitrary: answers)
  case (Cons k ks)
  show ?case
  proof (cases answers)
    case a: (Cons a r)
    have "sorted (accepted_times ks r)" using Cons by simp
    moreover have "\<forall>t \<in> set (accepted_times ks r). k_time k \<le> t"
      using accepted_times_subset [of ks r] Cons.prems by auto
    ultimately show ?thesis by (simp add: a accepted_times_Cons)
  qed (simp add: accepted_times_def)
qed (simp add: accepted_times_def)

lemma run_limited:
  assumes "http_run rubbish http_start ks = Inr (answers, sv')" "\<forall>k \<in> set ks. k_limits k = values"
    "sorted (map k_time ks)" "\<forall>k \<in> set ks. k_time k \<le> now"
  shows "in_period (uint (snd (connection_limits values))) now (rev (accepted_times ks answers)) \<le>
    unat (fst (connection_limits values))"
proof -
  let ?ts = "rev (accepted_times ks answers)"
  have "requests_at values [] = ([], h_freq http_start)" by (simp add: http_start_def)
  from run_requests [OF assms(1) this assms(2)] have r: "requests_at values ?ts = (?ts, h_freq sv')" by simp
  have "sorted_wrt (\<ge>) ?ts" using accepted_times_sorted [OF assms(3), of answers] by (simp add: sorted_wrt_rev)
  from limit_kept [OF this r] show ?thesis
    using accepted_times_subset [of ks answers] assms(4) by fastforce
qed

text \<open>
  C9: the server, whatever it is sent, lets no more connection requests in within the period of the limit than its
  number says.
\<close>

theorem server_keeps_limit:
  assumes "http_run rubbish http_start ks = Inr (answers, sv')" "\<forall>k \<in> set ks. k_limits k = values"
    "sorted (map k_time ks)" "\<forall>k \<in> set ks. k_time k \<le> now"
  shows "in_period (uint (snd (connection_limits values))) now (rev (accepted_times ks answers)) \<le>
    unat (fst (connection_limits values))"
  by (rule run_limited [OF assms])

lemma server_keeps_limit_witness:
  "in_period 3600 2000000000 (rev (accepted_times [first_connection, second_connection] [Challenge, Accepted])) \<le> 50"
proof -
  have f: "http_connection (replicate 64 7) http_start first_connection = Inr (Challenge, challenged)"
    unfolding challenged_def by (rule first_challenged [OF first_fields])
  have "http_run (replicate 64 7) http_start [first_connection, second_connection] = Inr ([Challenge, Accepted],
      challenged\<lparr>h_freq := newConnectionRequestAllowed 2000000000 (h_freq http_start)\<rparr>)"
    using f second_accepted [OF length_replicate, of 7] by simp
  from server_keeps_limit [OF this, of None 2000000000] show ?thesis
    by (simp add: second_fields first_connection_def connection_limits_def DEFAULT_MAX_CONNECTIONREQUEST_def
        DEFAULT_FREQ_CONNECTION_REQUEST_def)
qed

end
