(* ===== verification/Spec2Isabelle.thy ===== *)
theory Spec2Isabelle
  imports ParamFile ExpProps MgrEventsProps MgrSetProps MgrNotifyProps NotifProps SchedRunProps RpcProps
    Sha1Props StunProps StunClientProps HttpServerProps
begin

text \<open>
  The TR-069 agent: data model, parameter data and computed expressions.
\<close>

end
